(* ===== verification/Prelude.thy ===== *)
theory Prelude
  imports Main
begin

text \<open>
  Shared vocabulary of the development: the type that stands for JavaScript strings,
  the exception type of the modelled ECMAScript operations, the named collections of
  evaluation rules, and generic lemmas on sums, options and lists that the component
  theories use to evaluate their definitions.

  A JavaScript string is a sequence of UTF-16 code units. The model restricts code
  units to the range 0..255 (Latin-1), which covers every literal of the sources (the
  degree sign of the temperatures is the code unit 0xB0) and lets a code unit be an
  Isabelle \<open>char\<close>.
\<close>

type_synonym jstr = string

text \<open>The exceptions the modelled code throws: the built-ins throw \<open>TypeError\<close> and
  \<open>SyntaxError\<close>, an assignment to an undeclared name in strict code
  \<open>ReferenceError\<close>.\<close>

datatype js_exn = TypeError | SyntaxError | ReferenceError

named_theorems js_simps "evaluation rules of the modelled ECMAScript built-ins"
named_theorems agent_simps "evaluation rules of the agent loop steps"

subsection \<open>Sums as exceptions\<close>

text \<open>
  A computation that may throw has type \<open>js_exn + 'a\<close>; sequencing is a \<open>case\<close> on
  the first result that propagates \<open>Inl\<close>. The rules below read such a sequence.
\<close>

lemma case_sum_Inl_prop [simp]:
  "(case x of Inl e \<Rightarrow> Inl e | Inr v \<Rightarrow> f v) = Inr w \<longleftrightarrow> (\<exists>v. x = Inr v \<and> f v = Inr w)"
  by (cases x) auto

lemma case_sum_Inl_prop_Inl [simp]:
  "(case x of Inl e \<Rightarrow> Inl e | Inr v \<Rightarrow> f v) = Inl e' \<longleftrightarrow>
     (x = Inl e' \<or> (\<exists>v. x = Inr v \<and> f v = Inl e'))"
  by (cases x) auto

subsection \<open>Characters\<close>

text \<open>Decides \<open>char_of n = c\<close> for numerals, so that \<open>simp\<close> evaluates code-unit
  arithmetic such as the lower-casing of a letter.\<close>

lemma char_of_eq_iff [js_simps]: "(char_of (n::nat) = c) = (n mod 256 = of_char c)"
  by (metis char_of_char of_char_of)

subsection \<open>Association lists\<close>

lemma map_of_append_first [simp]:
  "map_of (xs @ ys) k = (case map_of xs k of None \<Rightarrow> map_of ys k | Some v \<Rightarrow> Some v)"
  by (induction xs) auto

end
