(* ===== verification/Js_Value.thy ===== *)
theory Js_Value
  imports Prelude
begin

text \<open>
  The JavaScript values the two programs handle and the ECMAScript operations they
  apply to them, modelled from ECMA-262 (the engine is not code of the repository):
  \<open>String.prototype.toLowerCase\<close> (used by \<open>getWeatherDetails\<close>), property reads
  such as \<open>call.type\<close>, the conversion \<open>ToString\<close> (template literals
  \<open>`Bot: ${call.output}`\<close> and property keys \<open>tools[call.function]\<close>), and the loose
  and strict comparisons \<open>call.type == 'output'\<close> (index.js) and
  \<open>call.type === 'output'\<close> (index2.js).

  Values are those \<open>JSON.parse\<close> can produce, plus \<open>undefined\<close>. A number keeps its
  JSON lexeme; an object is the list of its own properties in the engine's order.
\<close>

datatype js =
    JUndef
  | JNull
  | JBool bool
  | JNum string
  | JStr jstr
  | JArr "js list"
  | JObj "(jstr \<times> js) list"

subsection \<open>Characters and \<open>toLowerCase\<close>\<close>

definition is_digit :: "char \<Rightarrow> bool" where
  "is_digit c \<longleftrightarrow> (48::nat) \<le> of_char c \<and> (of_char c :: nat) \<le> 57"

definition digit_value :: "char \<Rightarrow> nat" where
  "digit_value c = of_char c - 48"

text \<open>
  Unicode lower-casing restricted to Latin-1: \<open>A\<close>..\<open>Z\<close> and the code units 0xC0..0xDE (but not
  the multiplication sign 0xD7) move up by 0x20; every other Latin-1 code unit is its
  own lower case, and no Latin-1 code unit lowers to a code unit outside Latin-1.
\<close>

definition upper_unit :: "nat \<Rightarrow> bool" where
  "upper_unit n \<longleftrightarrow> (65 \<le> n \<and> n \<le> 90) \<or> (192 \<le> n \<and> n \<le> 222 \<and> n \<noteq> 215)"

definition js_lower_char :: "char \<Rightarrow> char" where
  "js_lower_char c = (if upper_unit (of_char c) then char_of (of_char c + 32 :: nat) else c)"

definition js_to_lower :: "jstr \<Rightarrow> jstr" where
  "js_to_lower s = map js_lower_char s"

text \<open>ASCII case-insensitive equality of a code unit with a lower-case letter.\<close>

definition ci_char :: "char \<Rightarrow> char \<Rightarrow> bool" where
  "ci_char c d \<longleftrightarrow> c = d \<or> (of_char c :: nat) + 32 = of_char d"

definition lower_word :: "jstr \<Rightarrow> bool" where
  "lower_word w \<longleftrightarrow> list_all (\<lambda>d. 97 \<le> (of_char d :: nat) \<and> (of_char d :: nat) \<le> 122) w"

subsection \<open>\<open>Number::toString\<close> on JSON number lexemes\<close>

fun dec_string :: "nat \<Rightarrow> string" where
  "dec_string n =
     (if n < 10 then [char_of (48 + n)] else dec_string (n div 10) @ [char_of (48 + n mod 10)])"

definition digits_to_nat :: "string \<Rightarrow> nat" where
  "digits_to_nat ds = foldl (\<lambda>acc c. 10 * acc + digit_value c) 0 ds"

text \<open>
  A lexeme \<open>-?int(.frac)?([eE][+-]?exp)?\<close> is split into its sign, its digit string
  and the decimal exponent of the point: the value is \<open>0.D \<times> 10^n\<close>.
\<close>

definition lexeme_exponent :: "string \<Rightarrow> int" where
  "lexeme_exponent r =
     (case r of
        c # ds \<Rightarrow>
          (if c = CHR ''e'' \<or> c = CHR ''E'' then
             (case ds of
                s # es \<Rightarrow>
                  (if s = CHR ''-'' then - int (digits_to_nat es)
                   else if s = CHR ''+'' then int (digits_to_nat es)
                   else int (digits_to_nat ds))
              | [] \<Rightarrow> 0)
           else 0)
      | [] \<Rightarrow> 0)"

definition lexeme_parts :: "string \<Rightarrow> bool \<times> string \<times> int" where
  "lexeme_parts l =
     (let neg = (l \<noteq> [] \<and> hd l = CHR ''-'');
          body = (if neg then tl l else l);
          ip = takeWhile is_digit body;
          r1 = dropWhile is_digit body;
          fr = (if r1 \<noteq> [] \<and> hd r1 = CHR ''.'' then takeWhile is_digit (tl r1) else []);
          r2 = (if r1 \<noteq> [] \<and> hd r1 = CHR ''.'' then dropWhile is_digit (tl r1) else r1);
          ds0 = ip @ fr;
          z = length (takeWhile (\<lambda>c. c = CHR ''0'') ds0);
          ds = rev (dropWhile (\<lambda>c. c = CHR ''0'') (rev (drop z ds0)))
      in (neg, ds, int (length ip) + lexeme_exponent r2 - int z))"

text \<open>
  ECMA-262 Number::toString (radix 10) applied to the decimal \<open>0.D \<times> 10^n\<close> with the
  digit string \<open>D\<close> of length \<open>k\<close>. It is exact when the lexeme has at most 15
  significant digits and its magnitude is within the normal range of doubles: such a
  decimal is the shortest one that rounds to its double. Beyond that the engine
  prints the shortest decimal of the nearest double, which the model does not compute.
\<close>

definition format_decimal :: "string \<Rightarrow> int \<Rightarrow> string" where
  "format_decimal ds n =
     (let k = int (length ds) in
      if k \<le> n \<and> n \<le> 21 then ds @ replicate (nat (n - k)) (CHR ''0'')
      else if 0 < n \<and> n \<le> 21 then take (nat n) ds @ ''.'' @ drop (nat n) ds
      else if -6 < n \<and> n \<le> 0 then ''0.'' @ replicate (nat (- n)) (CHR ''0'') @ ds
      else
        (let e = n - 1;
             es = (if 0 \<le> e then CHR ''+'' else CHR ''-'') # dec_string (nat \<bar>e\<bar>)
         in if k = 1 then ds @ ''e'' @ es else [hd ds] @ ''.'' @ tl ds @ ''e'' @ es))"

definition number_to_string :: "string \<Rightarrow> jstr" where
  "number_to_string l =
     (case lexeme_parts l of
        (neg, ds, n) \<Rightarrow>
          (if ds = [] then ''0''
           else (if neg then ''-'' else []) @ format_decimal ds n))"

subsection \<open>ToString\<close>

text \<open>
  \<open>ToString\<close> of a value (ECMA-262 7.1.17). An object is first converted by
  OrdinaryToPrimitive: its \<open>toString\<close> is the inherited
  \<open>Object.prototype.toString\<close>, giving \<open>[object Object]\<close>, unless the object has an
  own property \<open>toString\<close>; a parsed value is never callable, so then \<open>valueOf\<close>
  (which returns the object itself) is tried and a TypeError is thrown. An array is
  converted by \<open>Array.prototype.join\<close> with \<open>,\<close>, where \<open>undefined\<close> and \<open>null\<close>
  elements become empty, left to right.
\<close>

fun js_to_string :: "js \<Rightarrow> js_exn + jstr"
  and js_join :: "js list \<Rightarrow> js_exn + jstr"
  and js_join_elem :: "js \<Rightarrow> js_exn + jstr" where
  "js_to_string JUndef = Inr ''undefined''"
| "js_to_string JNull = Inr ''null''"
| "js_to_string (JBool b) = Inr (if b then ''true'' else ''false'')"
| "js_to_string (JNum l) = Inr (number_to_string l)"
| "js_to_string (JStr s) = Inr s"
| "js_to_string (JArr vs) = js_join vs"
| "js_to_string (JObj kvs) =
     (if ''toString'' \<in> fst ` set kvs then Inl TypeError else Inr ''[object Object]'')"
| "js_join [] = Inr []"
| "js_join [v] = js_join_elem v"
| "js_join (v # w # vs) =
     (case js_join_elem v of
        Inl e \<Rightarrow> Inl e
      | Inr s \<Rightarrow> (case js_join (w # vs) of Inl e \<Rightarrow> Inl e | Inr t \<Rightarrow> Inr (s @ '','' @ t)))"
| "js_join_elem JUndef = Inr []"
| "js_join_elem JNull = Inr []"
| "js_join_elem v = js_to_string v"

subsection \<open>Property reads and comparisons\<close>

text \<open>
  \<open>v.f\<close> for a field name that no built-in prototype defines (the sources read only
  \<open>type\<close>, \<open>user\<close>, \<open>output\<close>, \<open>function\<close>, \<open>input\<close>): \<open>undefined\<close> and
  \<open>null\<close> throw a TypeError, an object yields its own property or \<open>undefined\<close>, every
  other value yields \<open>undefined\<close>.
\<close>

fun js_get_field :: "js \<Rightarrow> jstr \<Rightarrow> js_exn + js" where
  "js_get_field JUndef f = Inl TypeError"
| "js_get_field JNull f = Inl TypeError"
| "js_get_field (JObj kvs) f = Inr (case map_of kvs f of Some v \<Rightarrow> v | None \<Rightarrow> JUndef)"
| "js_get_field v f = Inr JUndef"

text \<open>
  \<open>v === s\<close> for a string \<open>s\<close> (index2.js), and \<open>v == s\<close> (index.js) for a string
  literal that is not numeric (the sources compare with \<open>'output'\<close> and
  \<open>'action'\<close> only, so that a number or a boolean compares as \<open>NaN\<close> and is never
  equal). An object or an array is converted by ToPrimitive, which for parsed values
  is \<open>js_to_string\<close> and may throw.
\<close>

fun js_strict_eq_str :: "js \<Rightarrow> jstr \<Rightarrow> bool" where
  "js_strict_eq_str (JStr t) s = (t = s)"
| "js_strict_eq_str v s = False"

fun js_loose_eq_str :: "js \<Rightarrow> jstr \<Rightarrow> js_exn + bool" where
  "js_loose_eq_str (JStr t) s = Inr (t = s)"
| "js_loose_eq_str (JArr vs) s =
     (case js_to_string (JArr vs) of Inl e \<Rightarrow> Inl e | Inr t \<Rightarrow> Inr (t = s))"
| "js_loose_eq_str (JObj kvs) s =
     (case js_to_string (JObj kvs) of Inl e \<Rightarrow> Inl e | Inr t \<Rightarrow> Inr (t = s))"
| "js_loose_eq_str v s = Inr False"

subsection \<open>Lemmas: lower-casing\<close>

lemma of_char_less_256: "(of_char (c::char) :: nat) < 256"
  using of_char_mod_256[of c] by (metis mod_less_divisor zero_less_numeral)

lemma char_eq_iff_of_char: "(c = d) \<longleftrightarrow> (of_char c :: nat) = of_char d"
  by (metis char_of_char)

lemma of_char_js_lower_char:
  "(of_char (js_lower_char c) :: nat) =
     (if upper_unit (of_char c) then of_char c + 32 else of_char c)"
proof -
  have "upper_unit (of_char c) \<Longrightarrow> (of_char c :: nat) + 32 < 256"
    by (auto simp: upper_unit_def)
  then show ?thesis by (simp add: js_lower_char_def of_char_of)
qed

lemma js_lower_char_idem [simp]: "js_lower_char (js_lower_char c) = js_lower_char c"
  by (simp add: char_eq_iff_of_char of_char_js_lower_char) (auto simp: upper_unit_def)

lemma js_to_lower_idem [simp]: "js_to_lower (js_to_lower s) = js_to_lower s"
  by (simp add: js_to_lower_def comp_def)

lemma js_lower_char_eq_letter:
  assumes "97 \<le> (of_char d :: nat)" "(of_char d :: nat) \<le> 122"
  shows "js_lower_char c = d \<longleftrightarrow> ci_char c d"
  using assms unfolding ci_char_def char_eq_iff_of_char[of _ d] char_eq_iff_of_char[of c d]
  by (auto simp: of_char_js_lower_char upper_unit_def)

text \<open>Lower-casing a string gives a word of lower-case ASCII letters exactly when
  the string spells that word in any mix of cases: no other Latin-1 code unit lowers
  to an ASCII letter.\<close>

lemma js_to_lower_eq_word:
  assumes "lower_word w"
  shows "js_to_lower s = w \<longleftrightarrow> list_all2 ci_char s w"
  using assms unfolding lower_word_def
proof (induction w arbitrary: s)
  case Nil
  then show ?case by (simp add: js_to_lower_def)
next
  case (Cons d w)
  then show ?case
    by (cases s) (simp_all add: js_to_lower_def js_lower_char_eq_letter)
qed

end
