(* ===== verification/Weather_Tool.thy ===== *)
theory Weather_Tool
  imports Js_Value
begin

text \<open>
  The tool registry of both programs: the function \<open>getWeatherDetails\<close> (index.js
  lines 13-19, index2.js lines 9-16) and the object \<open>tools\<close> that maps the name
  \<open>getWeatherDetails\<close> to it (index.js 21-23, index2.js 18-20).

  \<open>tools\<close> is an ordinary object literal, so \<open>tools[k]\<close> also finds the members
  that every object inherits from \<open>Object.prototype\<close>. Eleven of them are functions;
  \<open>__proto__\<close> is an accessor that yields \<open>Object.prototype\<close> itself, an object.
  A call \<open>fn(call.input)\<close> runs such a member with \<open>this\<close> undefined (the modules
  are strict code), which is modelled from ECMA-262 in \<open>call_proto\<close>.
\<close>

subsection \<open>\<open>getWeatherDetails\<close>\<close>

definition deg_C :: jstr where
  "deg_C = [CHR 0xB0, CHR ''C'']"

text \<open>
  The parameter \<open>city = ''\<close>: an absent argument (\<open>undefined\<close>) becomes the empty
  string; \<open>city.toLowerCase()\<close> throws a TypeError on every value that is not a
  string (\<open>null\<close> has no properties, and no other parsed value has a callable
  \<open>toLowerCase\<close>).
\<close>

fun city_arg :: "js \<Rightarrow> js_exn + jstr" where
  "city_arg JUndef = Inr []"
| "city_arg (JStr s) = Inr s"
| "city_arg v = Inl TypeError"

definition getWeatherDetails_v1 :: "js \<Rightarrow> js_exn + js" where
  "getWeatherDetails_v1 arg =
     (case city_arg arg of
        Inl e \<Rightarrow> Inl e
      | Inr city \<Rightarrow>
          (if js_to_lower city = ''patiala'' then Inr (JStr (''10'' @ deg_C))
           else if js_to_lower city = ''mohali'' then Inr (JStr (''10'' @ deg_C))
           else if js_to_lower city = ''banglore'' then Inr (JStr (''10'' @ deg_C))
           else if js_to_lower city = ''chandigarh'' then Inr (JStr (''10'' @ deg_C))
           else if js_to_lower city = ''delhi'' then Inr (JStr (''10'' @ deg_C))
           else Inr JUndef))"

definition not_available_msg :: jstr where
  "not_available_msg = ''Weather data not available for this city.''"

definition getWeatherDetails_v2 :: "js \<Rightarrow> js_exn + js" where
  "getWeatherDetails_v2 arg =
     (case city_arg arg of
        Inl e \<Rightarrow> Inl e
      | Inr city \<Rightarrow>
          (if js_to_lower city = ''patiala'' then Inr (JStr (''10'' @ deg_C))
           else if js_to_lower city = ''mohali'' then Inr (JStr (''12'' @ deg_C))
           else if js_to_lower city = ''bangalore'' then Inr (JStr (''15'' @ deg_C))
           else if js_to_lower city = ''chandigarh'' then Inr (JStr (''11'' @ deg_C))
           else if js_to_lower city = ''delhi'' then Inr (JStr (''13'' @ deg_C))
           else Inr (JStr not_available_msg)))"

subsection \<open>The registry \<open>tools\<close> and \<open>Object.prototype\<close>\<close>

datatype proto_fn =
    PF_constructor | PF_toString | PF_toLocaleString | PF_valueOf | PF_hasOwnProperty
  | PF_isPrototypeOf | PF_propertyIsEnumerable | PF_defineGetter | PF_defineSetter
  | PF_lookupGetter | PF_lookupSetter

text \<open>What \<open>tools[k]\<close> yields: the tool, an inherited function, the inherited
  \<open>__proto__\<close> object, or \<open>undefined\<close>.\<close>

datatype tool_val = Tool_Weather | Tool_Proto proto_fn | Proto_Object | Tool_Undefined

definition proto_members :: "(jstr \<times> proto_fn) list" where
  "proto_members =
     [(''constructor'', PF_constructor), (''toString'', PF_toString),
      (''toLocaleString'', PF_toLocaleString), (''valueOf'', PF_valueOf),
      (''hasOwnProperty'', PF_hasOwnProperty), (''isPrototypeOf'', PF_isPrototypeOf),
      (''propertyIsEnumerable'', PF_propertyIsEnumerable),
      (''__defineGetter__'', PF_defineGetter), (''__defineSetter__'', PF_defineSetter),
      (''__lookupGetter__'', PF_lookupGetter), (''__lookupSetter__'', PF_lookupSetter)]"

text \<open>The own properties of the object literal \<open>tools\<close>, a table read through
  \<open>map_of\<close>. index.js (lines 21-23) and index2.js (lines 18-20) write
  \<open>{"getWeatherDetails": getWeatherDetails}\<close>, the earlier version (index2.js
  lines 140-142) the shorthand \<open>{getWeatherDetails}\<close>; each maps the name to the
  \<open>getWeatherDetails\<close> of its own file, \<open>Tool_Weather\<close>.\<close>

type_synonym registry = "(jstr \<times> tool_val) list"

definition tools_v1 :: registry where
  "tools_v1 = [(''getWeatherDetails'', Tool_Weather)]"

definition tools_v2 :: registry where
  "tools_v2 = [(''getWeatherDetails'', Tool_Weather)]"

definition tools_v0 :: registry where
  "tools_v0 = [(''getWeatherDetails'', Tool_Weather)]"

text \<open>\<open>tools[k]\<close> for a string key: an own property, else a member inherited from
  \<open>Object.prototype\<close>, else \<open>undefined\<close>.\<close>

definition tools_get :: "registry \<Rightarrow> jstr \<Rightarrow> tool_val" where
  "tools_get own k =
     (case map_of own k of
        Some f \<Rightarrow> f
      | None \<Rightarrow>
          (case map_of proto_members k of
             Some p \<Rightarrow> Tool_Proto p
           | None \<Rightarrow> (if k = ''__proto__'' then Proto_Object else Tool_Undefined)))"

text \<open>\<open>tools[v]\<close>: the key is \<open>ToPropertyKey v\<close>, which for a parsed value is its
  ToString and may throw.\<close>

definition tools_lookup :: "registry \<Rightarrow> js \<Rightarrow> js_exn + tool_val" where
  "tools_lookup own v = (case js_to_string v of Inl e \<Rightarrow> Inl e | Inr k \<Rightarrow> Inr (tools_get own k))"

fun is_function :: "tool_val \<Rightarrow> bool" where
  "is_function Tool_Weather = True"
| "is_function (Tool_Proto p) = True"
| "is_function Proto_Object = False"
| "is_function Tool_Undefined = False"

text \<open>
  An inherited member called with \<open>this\<close> undefined and one argument. Every member
  but three begins with \<open>ToObject(this)\<close>, or reaches it before using its argument,
  and throws. \<open>Object.prototype.toString\<close> answers \<open>[object Undefined]\<close>;
  \<open>isPrototypeOf\<close> answers \<open>false\<close> for a primitive argument before it looks at
  \<open>this\<close>; \<open>Object\<close> (the \<open>constructor\<close>) wraps a primitive, which the model
  represents by the primitive itself, since the program only passes the result to
  \<open>JSON.stringify\<close>, which serialises a wrapper as its primitive, and turns
  \<open>undefined\<close> and \<open>null\<close> into a fresh empty object.
\<close>

fun is_object :: "js \<Rightarrow> bool" where
  "is_object (JArr vs) = True"
| "is_object (JObj kvs) = True"
| "is_object v = False"

fun call_proto :: "proto_fn \<Rightarrow> js \<Rightarrow> js_exn + js" where
  "call_proto PF_constructor v =
     (if v = JUndef \<or> v = JNull then Inr (JObj []) else Inr v)"
| "call_proto PF_toString v = Inr (JStr ''[object Undefined]'')"
| "call_proto PF_isPrototypeOf v = (if is_object v then Inl TypeError else Inr (JBool False))"
| "call_proto p v = Inl TypeError"

text \<open>\<open>fn(call.input)\<close> for the value \<open>fn\<close> found in the registry, with the
  program's own \<open>getWeatherDetails\<close> as \<open>weather\<close>; a value that is not a function
  throws \<open>fn is not a function\<close>.\<close>

fun call_tool :: "(js \<Rightarrow> js_exn + js) \<Rightarrow> tool_val \<Rightarrow> js \<Rightarrow> js_exn + js" where
  "call_tool weather Tool_Weather v = weather v"
| "call_tool weather (Tool_Proto p) v = call_proto p v"
| "call_tool weather Proto_Object v = Inl TypeError"
| "call_tool weather Tool_Undefined v = Inl TypeError"

subsection \<open>The tool's contract\<close>

text \<open>The contract of the tool as the spec states it: a case-insensitive exact match of
  the city against a fixed table, one constant answer per city. The two programs have
  different tables; index.js spells the third city \<open>banglore\<close>.\<close>

definition weather_table_v1 :: "(jstr \<times> jstr) list" where
  "weather_table_v1 =
     [(''patiala'', ''10'' @ deg_C), (''mohali'', ''10'' @ deg_C), (''banglore'', ''10'' @ deg_C),
      (''chandigarh'', ''10'' @ deg_C), (''delhi'', ''10'' @ deg_C)]"

definition weather_table_v2 :: "(jstr \<times> jstr) list" where
  "weather_table_v2 =
     [(''patiala'', ''10'' @ deg_C), (''mohali'', ''12'' @ deg_C), (''bangalore'', ''15'' @ deg_C),
      (''chandigarh'', ''11'' @ deg_C), (''delhi'', ''13'' @ deg_C)]"

definition ci_lookup :: "(jstr \<times> jstr) list \<Rightarrow> jstr \<Rightarrow> jstr option" where
  "ci_lookup tbl s = map_option snd (find (\<lambda>(c, t). list_all2 ci_char s c) tbl)"

subsection \<open>Lemmas: the tool\<close>

lemma getWeatherDetails_v2_str:
  "getWeatherDetails_v2 (JStr s) =
     Inr (JStr (case ci_lookup weather_table_v2 s of Some t \<Rightarrow> t | None \<Rightarrow> not_available_msg))"
  by (simp add: getWeatherDetails_v2_def ci_lookup_def weather_table_v2_def js_to_lower_eq_word
      lower_word_def)

lemma getWeatherDetails_v1_str:
  "getWeatherDetails_v1 (JStr s) =
     Inr (case ci_lookup weather_table_v1 s of Some t \<Rightarrow> JStr t | None \<Rightarrow> JUndef)"
  by (simp add: getWeatherDetails_v1_def ci_lookup_def weather_table_v1_def js_to_lower_eq_word
      lower_word_def)

text \<open>C3: getWeatherDetails of index2.js implements the table lookup: on a string, or on
  no argument (the default empty string), it answers the table's temperature for the first
  city the string spells in any mix of ASCII cases and the not-available message
  otherwise; every other argument throws.\<close>

theorem getWeatherDetails_v2_table:
  "getWeatherDetails_v2 v =
     (case city_arg v of
        Inl e \<Rightarrow> Inl e
      | Inr c \<Rightarrow> Inr (JStr (case ci_lookup weather_table_v2 c of Some t \<Rightarrow> t | None \<Rightarrow> not_available_msg)))"
proof (cases "city_arg v")
  case (Inr c)
  then consider "v = JStr c" | "v = JUndef" "c = []" by (cases v) auto
  then show ?thesis
  proof cases
    case 1
    with Inr show ?thesis by (simp add: getWeatherDetails_v2_str)
  next
    case 2
    then show ?thesis
      by (simp add: getWeatherDetails_v2_def weather_table_v2_def ci_lookup_def js_to_lower_def)
  qed
qed (simp add: getWeatherDetails_v2_def)

text \<open>C11: getWeatherDetails of index.js implements its table lookup, answers undefined for
  every string that spells none of its cities and for no argument, and throws on every
  other argument.\<close>

theorem getWeatherDetails_v1_table:
  "getWeatherDetails_v1 v =
     (case city_arg v of
        Inl e \<Rightarrow> Inl e
      | Inr c \<Rightarrow> Inr (case ci_lookup weather_table_v1 c of Some t \<Rightarrow> JStr t | None \<Rightarrow> JUndef))"
proof (cases "city_arg v")
  case (Inr c)
  then consider "v = JStr c" | "v = JUndef" "c = []" by (cases v) auto
  then show ?thesis
  proof cases
    case 1
    with Inr show ?thesis by (simp add: getWeatherDetails_v1_str)
  next
    case 2
    then show ?thesis
      by (simp add: getWeatherDetails_v1_def weather_table_v1_def ci_lookup_def js_to_lower_def)
  qed
qed (simp add: getWeatherDetails_v1_def)

text \<open>getWeatherDetails throws a TypeError exactly on the arguments that are
  neither a string nor absent; an absent argument is the default empty string, which
  matches no city.\<close>

theorem getWeatherDetails_v2_type_error:
  "getWeatherDetails_v2 v = Inl TypeError \<longleftrightarrow> v \<noteq> JUndef \<and> (\<forall>s. v \<noteq> JStr s)"
  by (cases v) (simp_all add: getWeatherDetails_v2_def)

lemma getWeatherDetails_v2_default: "getWeatherDetails_v2 JUndef = Inr (JStr not_available_msg)"
  by (simp add: getWeatherDetails_v2_def js_to_lower_def)

text \<open>Index.js misspells Bangalore: its tool finds no temperature for
  \<open>Bangalore\<close>, which index2.js's tool answers with 15 degrees.\<close>

lemma bangalore_misspelt_v1:
  "getWeatherDetails_v1 (JStr ''Bangalore'') = Inr JUndef \<and>
   getWeatherDetails_v2 (JStr ''Bangalore'') = Inr (JStr (''15'' @ deg_C))"
  by (simp add: getWeatherDetails_v1_str getWeatherDetails_v2_str ci_lookup_def
      weather_table_v1_def weather_table_v2_def ci_char_def)

subsection \<open>Lemmas: the registry\<close>

lemma tools_same [simp]: "tools_v1 = tools_v2" "tools_v0 = tools_v2"
  by (simp_all add: tools_v1_def tools_v2_def tools_v0_def)

lemma tools_get_registered [simp]: "tools_get tools_v2 ''getWeatherDetails'' = Tool_Weather"
  by (simp add: tools_get_def tools_v2_def)

lemma tools_get_weather [simp]: "tools_get tools_v2 k = Tool_Weather \<longleftrightarrow> k = ''getWeatherDetails''"
  by (auto simp: tools_get_def tools_v2_def split: option.splits)

text \<open>C12: the guard \<open>typeof fn !== "function"\<close> of index2.js accepts exactly the
  registered name and the names of the eleven functions every object inherits from
  Object.prototype: a reply naming toString or constructor passes the guard.\<close>

theorem tools_get_is_function:
  "is_function (tools_get tools_v2 k) \<longleftrightarrow> k = ''getWeatherDetails'' \<or> k \<in> fst ` set proto_members"
  by (auto simp: tools_get_def tools_v2_def proto_members_def split: option.splits if_splits)

end
