(* ===== verification/Json.thy ===== *)
theory Json
  imports Js_Value
begin

text \<open>
  \<open>JSON.stringify\<close> and \<open>JSON.parse\<close>, modelled from ECMA-262 (sections 25.5.1 and
  25.5.2) for the values of \<open>Js_Value\<close>. Both programs serialise the envelopes they
  append to the history (\<open>JSON.stringify(q)\<close>, \<open>JSON.stringify(obs)\<close>) and parse
  every assistant reply (\<open>JSON.parse(result)\<close>).

  The parser is a recursive descent over the text with a fuel argument; the lemmas
  show that the fuel \<open>json_parse\<close> provides never runs out and that more fuel never
  changes a result. A \<open>\u\<close> escape of a code unit above 255 decodes to a string the
  model cannot represent and yields \<open>J_Unrepresentable\<close>, kept apart from a syntax
  error. A parsed object is built as the engine builds it: a repeated key keeps its
  first position and takes its last value, and array-index keys come first in
  ascending order.
\<close>

subsection \<open>Serialisation\<close>

fun comma_join :: "string list \<Rightarrow> string" where
  "comma_join [] = []"
| "comma_join [s] = s"
| "comma_join (s # t # ts) = s @ '','' @ comma_join (t # ts)"

definition bsl :: char where "bsl = CHR 0x5C"
definition dq :: char where "dq = CHR 0x22"

definition hex_digit :: "nat \<Rightarrow> char" where
  "hex_digit n = (if n < 10 then char_of (48 + n) else char_of (87 + n))"

text \<open>QuoteJSONString: the two-character escapes, \<open>\u00xx\<close> (lower-case hex) for
  the other control characters, every other code unit as it is.\<close>

definition json_escape_char :: "char \<Rightarrow> string" where
  "json_escape_char c =
     (let n = (of_char c :: nat) in
      if n = 8 then [bsl, CHR ''b'']
      else if n = 9 then [bsl, CHR ''t'']
      else if n = 10 then [bsl, CHR ''n'']
      else if n = 12 then [bsl, CHR ''f'']
      else if n = 13 then [bsl, CHR ''r'']
      else if c = dq then [bsl, dq]
      else if c = bsl then [bsl, bsl]
      else if n < 32 then [bsl, CHR ''u'', CHR ''0'', CHR ''0'', hex_digit (n div 16), hex_digit (n mod 16)]
      else [c])"

definition json_quote :: "jstr \<Rightarrow> string" where
  "json_quote s = dq # concat (map json_escape_char s) @ [dq]"

text \<open>SerializeJSONProperty: \<open>undefined\<close> has no serialisation (\<open>None\<close>); an object
  property whose value has none is left out; an array element that has none is
  written \<open>null\<close>.\<close>

fun json_ser :: "js \<Rightarrow> string option"
  and json_ser_elems :: "js list \<Rightarrow> string"
  and json_ser_props :: "(jstr \<times> js) list \<Rightarrow> string list" where
  "json_ser JUndef = None"
| "json_ser JNull = Some ''null''"
| "json_ser (JBool b) = Some (if b then ''true'' else ''false'')"
| "json_ser (JNum l) = Some (number_to_string l)"
| "json_ser (JStr s) = Some (json_quote s)"
| "json_ser (JArr vs) = Some (CHR ''['' # json_ser_elems vs @ '']'')"
| "json_ser (JObj kvs) = Some (CHR ''{'' # comma_join (json_ser_props kvs) @ ''}'')"
| "json_ser_elems [] = []"
| "json_ser_elems [v] = (case json_ser v of None \<Rightarrow> ''null'' | Some s \<Rightarrow> s)"
| "json_ser_elems (v # w # vs) =
     (case json_ser v of None \<Rightarrow> ''null'' | Some s \<Rightarrow> s) @ '','' @ json_ser_elems (w # vs)"
| "json_ser_props [] = []"
| "json_ser_props ((k, v) # kvs) =
     (case json_ser v of
        None \<Rightarrow> json_ser_props kvs
      | Some s \<Rightarrow> (json_quote k @ '':'' @ s) # json_ser_props kvs)"

text \<open>\<open>JSON.stringify\<close> of an object, which always has a serialisation.\<close>

definition json_stringify_obj :: "(jstr \<times> js) list \<Rightarrow> jstr" where
  "json_stringify_obj kvs = CHR ''{'' # comma_join (json_ser_props kvs) @ ''}''"

subsection \<open>Objects as the engine builds them\<close>

definition is_array_index :: "jstr \<Rightarrow> bool" where
  "is_array_index k \<longleftrightarrow>
     k \<noteq> [] \<and> list_all is_digit k \<and> (k = ''0'' \<or> hd k \<noteq> CHR ''0'') \<and>
     digits_to_nat k < 4294967295"

text \<open>CreateDataProperty on an object under construction: a new key is appended, an
  existing key keeps its place and takes the new value.\<close>

fun obj_insert :: "(jstr \<times> js) list \<Rightarrow> jstr \<times> js \<Rightarrow> (jstr \<times> js) list" where
  "obj_insert [] kv = [kv]"
| "obj_insert ((k', v') # kvs) (k, v) =
     (if k = k' then (k, v) # kvs else (k', v') # obj_insert kvs (k, v))"

text \<open>OrdinaryOwnPropertyKeys: array indices in ascending order, then the other
  keys in the order they were created.\<close>

definition js_object :: "(jstr \<times> js) list \<Rightarrow> (jstr \<times> js) list" where
  "js_object kvs =
     (let ps = foldl obj_insert [] kvs in
      sort_key (\<lambda>kv. digits_to_nat (fst kv)) (filter (\<lambda>kv. is_array_index (fst kv)) ps) @
      filter (\<lambda>kv. \<not> is_array_index (fst kv)) ps)"

subsection \<open>Parsing\<close>

datatype json_err = J_Syntax | J_Fuel | J_Unrepresentable

definition json_ws :: "char \<Rightarrow> bool" where
  "json_ws c \<longleftrightarrow> c = CHR 0x20 \<or> c = CHR 0x09 \<or> c = CHR 0x0A \<or> c = CHR 0x0D"

definition skip_ws :: "string \<Rightarrow> string" where
  "skip_ws cs = dropWhile json_ws cs"

definition hex_val :: "char \<Rightarrow> nat option" where
  "hex_val c =
     (let n = (of_char c :: nat) in
      if 48 \<le> n \<and> n \<le> 57 then Some (n - 48)
      else if 97 \<le> n \<and> n \<le> 102 then Some (n - 87)
      else if 65 \<le> n \<and> n \<le> 70 then Some (n - 55)
      else None)"

definition hex4_val :: "char \<Rightarrow> char \<Rightarrow> char \<Rightarrow> char \<Rightarrow> nat option" where
  "hex4_val a b c d =
     (case (hex_val a, hex_val b, hex_val c, hex_val d) of
        (Some w, Some x, Some y, Some z) \<Rightarrow> Some (((w * 16 + x) * 16 + y) * 16 + z)
      | _ \<Rightarrow> None)"

definition prepend_char :: "char \<Rightarrow> json_err + (jstr \<times> string) \<Rightarrow> json_err + (jstr \<times> string)" where
  "prepend_char c r = (case r of Inl e \<Rightarrow> Inl e | Inr (s, rest) \<Rightarrow> Inr (c # s, rest))"

text \<open>The body of a string literal after its opening quote, up to and including the
  closing quote. Control characters must be escaped.\<close>

fun escape_value :: "char \<Rightarrow> char option" where
  "escape_value e =
     (if e = dq \<or> e = bsl \<or> e = CHR ''/'' then Some e
      else if e = CHR ''b'' then Some (CHR 0x08)
      else if e = CHR ''f'' then Some (CHR 0x0C)
      else if e = CHR ''n'' then Some (CHR 0x0A)
      else if e = CHR ''r'' then Some (CHR 0x0D)
      else if e = CHR ''t'' then Some (CHR 0x09)
      else None)"

fun parse_str_body :: "string \<Rightarrow> json_err + (jstr \<times> string)" where
  "parse_str_body [] = Inl J_Syntax"
| "parse_str_body (c # cs) =
     (if c = dq then Inr ([], cs)
      else if c = bsl then
        (case cs of
           [] \<Rightarrow> Inl J_Syntax
         | e # r \<Rightarrow>
             (if e = CHR ''u'' then
                (case r of
                   h1 # h2 # h3 # h4 # r' \<Rightarrow>
                     (case hex4_val h1 h2 h3 h4 of
                        None \<Rightarrow> Inl J_Syntax
                      | Some n \<Rightarrow>
                          (if n < 256 then prepend_char (char_of n) (parse_str_body r')
                           else Inl J_Unrepresentable))
                 | _ \<Rightarrow> Inl J_Syntax)
              else
                (case escape_value e of
                   None \<Rightarrow> Inl J_Syntax
                 | Some x \<Rightarrow> prepend_char x (parse_str_body r))))
      else if (of_char c :: nat) < 32 then Inl J_Syntax
      else prepend_char c (parse_str_body cs))"

text \<open>A number: the longest run of characters that can occur in a number, checked
  against the grammar \<open>-?(0|[1-9][0-9]*)(.[0-9]+)?([eE][+-]?[0-9]+)?\<close>. A valid number
  is never followed by such a character in a valid text, so this agrees with the
  grammar's own tokenisation on the outcome.\<close>

definition num_char :: "char \<Rightarrow> bool" where
  "num_char c \<longleftrightarrow>
     is_digit c \<or> c = CHR ''-'' \<or> c = CHR ''+'' \<or> c = CHR ''.'' \<or> c = CHR ''e'' \<or> c = CHR ''E''"

definition valid_int_part :: "string \<Rightarrow> bool" where
  "valid_int_part s \<longleftrightarrow> s = ''0'' \<or> (s \<noteq> [] \<and> hd s \<noteq> CHR ''0'' \<and> list_all is_digit s)"

definition valid_exp_part :: "string \<Rightarrow> bool" where
  "valid_exp_part r \<longleftrightarrow>
     r = [] \<or>
     ((hd r = CHR ''e'' \<or> hd r = CHR ''E'') \<and>
      (let r3 = tl r;
           r4 = (if r3 \<noteq> [] \<and> (hd r3 = CHR ''+'' \<or> hd r3 = CHR ''-'') then tl r3 else r3)
       in r4 \<noteq> [] \<and> list_all is_digit r4))"

definition valid_number_lexeme :: "string \<Rightarrow> bool" where
  "valid_number_lexeme l \<longleftrightarrow>
     (let body = (if l \<noteq> [] \<and> hd l = CHR ''-'' then tl l else l);
          ip = takeWhile is_digit body;
          r1 = dropWhile is_digit body
      in valid_int_part ip \<and>
         (if r1 \<noteq> [] \<and> hd r1 = CHR ''.'' then
            takeWhile is_digit (tl r1) \<noteq> [] \<and> valid_exp_part (dropWhile is_digit (tl r1))
          else valid_exp_part r1))"

definition parse_number :: "string \<Rightarrow> json_err + (js \<times> string)" where
  "parse_number cs =
     (let l = takeWhile num_char cs in
      if valid_number_lexeme l then Inr (JNum l, dropWhile num_char cs) else Inl J_Syntax)"

text \<open>Values, arrays after their \<open>[\<close>, elements, objects after their \<open>{\<close>, and
  members. Each call spends one unit of fuel.\<close>

fun parse_value :: "nat \<Rightarrow> string \<Rightarrow> json_err + (js \<times> string)"
  and parse_array :: "nat \<Rightarrow> string \<Rightarrow> json_err + (js list \<times> string)"
  and parse_elems :: "nat \<Rightarrow> string \<Rightarrow> json_err + (js list \<times> string)"
  and parse_object :: "nat \<Rightarrow> string \<Rightarrow> json_err + ((jstr \<times> js) list \<times> string)"
  and parse_members :: "nat \<Rightarrow> string \<Rightarrow> json_err + ((jstr \<times> js) list \<times> string)" where
  "parse_value 0 cs = Inl J_Fuel"
| "parse_value (Suc n) cs =
     (case skip_ws cs of
        [] \<Rightarrow> Inl J_Syntax
      | c # r \<Rightarrow>
          (if c = CHR ''{'' then
             (case parse_object n r of Inl e \<Rightarrow> Inl e | Inr (kvs, r') \<Rightarrow> Inr (JObj (js_object kvs), r'))
           else if c = CHR ''['' then
             (case parse_array n r of Inl e \<Rightarrow> Inl e | Inr (vs, r') \<Rightarrow> Inr (JArr vs, r'))
           else if c = dq then
             (case parse_str_body r of Inl e \<Rightarrow> Inl e | Inr (s, r') \<Rightarrow> Inr (JStr s, r'))
           else if c = CHR ''-'' \<or> is_digit c then parse_number (c # r)
           else if take 4 (c # r) = ''true'' then Inr (JBool True, drop 4 (c # r))
           else if take 5 (c # r) = ''false'' then Inr (JBool False, drop 5 (c # r))
           else if take 4 (c # r) = ''null'' then Inr (JNull, drop 4 (c # r))
           else Inl J_Syntax))"
| "parse_array 0 cs = Inl J_Fuel"
| "parse_array (Suc n) cs =
     (case skip_ws cs of
        c # r \<Rightarrow> (if c = CHR '']'' then Inr ([], r) else parse_elems n cs)
      | [] \<Rightarrow> Inl J_Syntax)"
| "parse_elems 0 cs = Inl J_Fuel"
| "parse_elems (Suc n) cs =
     (case parse_value n cs of
        Inl e \<Rightarrow> Inl e
      | Inr (v, r) \<Rightarrow>
          (case skip_ws r of
             c # r' \<Rightarrow>
               (if c = CHR '','' then
                  (case parse_elems n r' of Inl e \<Rightarrow> Inl e | Inr (vs, r'') \<Rightarrow> Inr (v # vs, r''))
                else if c = CHR '']'' then Inr ([v], r')
                else Inl J_Syntax)
           | [] \<Rightarrow> Inl J_Syntax))"
| "parse_object 0 cs = Inl J_Fuel"
| "parse_object (Suc n) cs =
     (case skip_ws cs of
        c # r \<Rightarrow> (if c = CHR ''}'' then Inr ([], r) else parse_members n cs)
      | [] \<Rightarrow> Inl J_Syntax)"
| "parse_members 0 cs = Inl J_Fuel"
| "parse_members (Suc n) cs =
     (case skip_ws cs of
        c # r \<Rightarrow>
          (if c \<noteq> dq then Inl J_Syntax
           else case parse_str_body r of
             Inl e \<Rightarrow> Inl e
           | Inr (k, r1) \<Rightarrow>
               (case skip_ws r1 of
                  c1 # r2 \<Rightarrow>
                    (if c1 \<noteq> CHR '':'' then Inl J_Syntax
                     else case parse_value n r2 of
                       Inl e \<Rightarrow> Inl e
                     | Inr (v, r3) \<Rightarrow>
                         (case skip_ws r3 of
                            c3 # r4 \<Rightarrow>
                              (if c3 = CHR '','' then
                                 (case parse_members n r4 of
                                    Inl e \<Rightarrow> Inl e
                                  | Inr (kvs, r5) \<Rightarrow> Inr ((k, v) # kvs, r5))
                               else if c3 = CHR ''}'' then Inr ([(k, v)], r4)
                               else Inl J_Syntax)
                          | [] \<Rightarrow> Inl J_Syntax))
                | [] \<Rightarrow> Inl J_Syntax))
      | [] \<Rightarrow> Inl J_Syntax)"

text \<open>\<open>JSON.parse(text)\<close>: one value, surrounded by white space only. The fuel
  \<open>3 * length + 3\<close> is enough (lemma \<open>json_parse_never_out_of_fuel\<close>).\<close>

definition json_fuel :: "string \<Rightarrow> nat" where
  "json_fuel s = 3 * length s + 3"

definition json_parse :: "string \<Rightarrow> json_err + js" where
  "json_parse s =
     (case parse_value (json_fuel s) s of
        Inl e \<Rightarrow> Inl e
      | Inr (v, r) \<Rightarrow> (if skip_ws r = [] then Inr v else Inl J_Syntax))"

text \<open>The values \<open>JSON.parse\<close> can return, in the form it returns them: no
  \<open>undefined\<close> anywhere, numbers as the canonical lexeme \<open>Number::toString\<close>
  prints, objects with the key order the engine gives them.\<close>

fun json_wf :: "js \<Rightarrow> bool"
  and json_wf_elems :: "js list \<Rightarrow> bool"
  and json_wf_props :: "(jstr \<times> js) list \<Rightarrow> bool" where
  "json_wf JUndef = False"
| "json_wf JNull = True"
| "json_wf (JBool b) = True"
| "json_wf (JNum l) = (valid_number_lexeme l \<and> number_to_string l = l)"
| "json_wf (JStr s) = True"
| "json_wf (JArr vs) = json_wf_elems vs"
| "json_wf (JObj kvs) = (js_object kvs = kvs \<and> json_wf_props kvs)"
| "json_wf_elems [] = True"
| "json_wf_elems (v # vs) = (json_wf v \<and> json_wf_elems vs)"
| "json_wf_props [] = True"
| "json_wf_props ((k, v) # kvs) = (json_wf v \<and> json_wf_props kvs)"

subsection \<open>Lemmas: parsing\<close>

lemma json_parse_Nil [simp]: "json_parse [] = Inl J_Syntax"
  by (simp add: json_parse_def json_fuel_def skip_ws_def eval_nat_numeral)


text \<open>Every successful parse leaves a strictly shorter rest of the text.\<close>

lemma skip_ws_length: "length (skip_ws cs) \<le> length cs"
  by (simp add: skip_ws_def length_dropWhile_le)

lemma skip_ws_Cons_length: "skip_ws cs = c # r \<Longrightarrow> length r < length cs"
  using skip_ws_length[of cs] by simp

lemma prepend_char_Inr:
  "prepend_char c res = Inr (s, r) \<longleftrightarrow> (\<exists>s'. res = Inr (s', r) \<and> s = c # s')"
  by (auto simp: prepend_char_def split: sum.splits)

lemma parse_str_body_consumes: "parse_str_body cs = Inr (s, r) \<Longrightarrow> length r < length cs"
proof (induction cs arbitrary: s rule: parse_str_body.induct)
  case 1
  then show ?case by simp
next
  case (2 c cs)
  consider (q) "c = dq" | (b) "c \<noteq> dq" "c = bsl" | (o) "c \<noteq> dq" "c \<noteq> bsl" by blast
  then show ?case
  proof cases
    case q
    with "2.prems" show ?thesis by simp
  next
    case b
    then obtain e r0 where cs: "cs = e # r0" using "2.prems" by (cases cs) auto
    show ?thesis
    proof (cases "e = CHR ''u''")
      case True
      then obtain h1 h2 h3 h4 r' n where r0: "r0 = h1 # h2 # h3 # h4 # r'"
        and h: "hex4_val h1 h2 h3 h4 = Some n" and n: "n < 256"
        and p: "prepend_char (char_of n) (parse_str_body r') = Inr (s, r)"
        using "2.prems" b cs
        by (auto split: list.splits option.splits if_splits)
      from p obtain s' where "parse_str_body r' = Inr (s', r)" by (auto simp: prepend_char_Inr)
      from "2.IH"(1)[OF b cs True r0 refl refl refl h n this] cs r0 show ?thesis by simp
    next
      case False
      then obtain x where x: "escape_value e = Some x"
        and p: "prepend_char x (parse_str_body r0) = Inr (s, r)"
        using "2.prems" b cs by (auto split: option.splits)
      from p obtain s' where "parse_str_body r0 = Inr (s', r)" by (auto simp: prepend_char_Inr)
      from "2.IH"(2)[OF b cs False x this] cs show ?thesis by simp
    qed
  next
    case o
    with "2.prems" have lt: "\<not> (of_char c :: nat) < 32"
      and p: "prepend_char c (parse_str_body cs) = Inr (s, r)"
      by (auto split: if_splits sum.splits prod.splits)
    from p obtain s' where "parse_str_body cs = Inr (s', r)" by (auto simp: prepend_char_Inr)
    from "2.IH"(3)[OF o lt this] show ?thesis by simp
  qed
qed


lemma dropWhile_shorter:
  assumes "takeWhile P cs \<noteq> []" shows "length (dropWhile P cs) < length cs"
  using assms by (cases cs) (auto simp: length_dropWhile_le le_imp_less_Suc split: if_splits)

lemma valid_number_lexeme_nonempty: "valid_number_lexeme l \<Longrightarrow> l \<noteq> []"
  by (auto simp: valid_number_lexeme_def valid_int_part_def)

lemma parse_number_consumes: "parse_number cs = Inr (v, r) \<Longrightarrow> length r < length cs"
  by (auto simp: parse_number_def Let_def split: if_splits
      dest!: valid_number_lexeme_nonempty intro: dropWhile_shorter)

lemma parse_value_consumes_aux:
  "(\<forall>cs v r. parse_value n cs = Inr (v, r) \<longrightarrow> length r < length cs) \<and>
   (\<forall>cs vs r. parse_array n cs = Inr (vs, r) \<longrightarrow> length r < length cs) \<and>
   (\<forall>cs vs r. parse_elems n cs = Inr (vs, r) \<longrightarrow> length r < length cs) \<and>
   (\<forall>cs kvs r. parse_object n cs = Inr (kvs, r) \<longrightarrow> length r < length cs) \<and>
   (\<forall>cs kvs r. parse_members n cs = Inr (kvs, r) \<longrightarrow> length r < length cs)"
proof (induction n)
  case 0
  then show ?case by simp
next
  case (Suc n)
  note IH = Suc.IH
  have v: "length r < length cs" if "parse_value (Suc n) cs = Inr (v, r)" for cs v r
  proof (cases "skip_ws cs")
    case Nil
    with that show ?thesis by simp
  next
    case (Cons c r0)
    with skip_ws_Cons_length have l: "length r0 < length cs" by blast
    from that Cons have "(if c = CHR ''{'' then
             (case parse_object n r0 of Inl e \<Rightarrow> Inl e | Inr (kvs, r') \<Rightarrow> Inr (JObj (js_object kvs), r'))
           else if c = CHR ''['' then
             (case parse_array n r0 of Inl e \<Rightarrow> Inl e | Inr (vs, r') \<Rightarrow> Inr (JArr vs, r'))
           else if c = dq then
             (case parse_str_body r0 of Inl e \<Rightarrow> Inl e | Inr (s, r') \<Rightarrow> Inr (JStr s, r'))
           else if c = CHR ''-'' \<or> is_digit c then parse_number (c # r0)
           else if take 4 (c # r0) = ''true'' then Inr (JBool True, drop 4 (c # r0))
           else if take 5 (c # r0) = ''false'' then Inr (JBool False, drop 5 (c # r0))
           else if take 4 (c # r0) = ''null'' then Inr (JNull, drop 4 (c # r0))
           else Inl J_Syntax) = Inr (v, r)" by simp
    then show ?thesis using l IH parse_str_body_consumes parse_number_consumes[of "c # r0"]
      by (auto split: if_splits sum.splits prod.splits) fastforce+
  qed
  have a: "length r < length cs" if "parse_array (Suc n) cs = Inr (vs, r)" for cs vs r
    using that IH skip_ws_Cons_length
    by (auto split: list.splits if_splits sum.splits prod.splits)
  have e: "length r < length cs" if "parse_elems (Suc n) cs = Inr (vs, r)" for cs vs r
  proof -
    note prem = that
    obtain v r1 where pv: "parse_value n cs = Inr (v, r1)"
      using prem by (auto split: sum.splits prod.splits)
    then have l1: "length r1 < length cs" using IH by blast
    obtain c r' where sk: "skip_ws r1 = c # r'"
      using prem pv by (auto split: list.splits sum.splits prod.splits)
    then have l2: "length r' < length r1" by (rule skip_ws_Cons_length)
    show ?thesis
    proof (cases "c = CHR '',''")
      case True
      with prem pv sk obtain vs' where "parse_elems n r' = Inr (vs', r)"
        by (auto split: sum.splits prod.splits)
      then have "length r < length r'" using IH by blast
      with l1 l2 show ?thesis by simp
    next
      case False
      with prem pv sk have "r = r'" by (auto split: if_splits sum.splits prod.splits)
      with l1 l2 show ?thesis by simp
    qed
  qed
  have o: "length r < length cs" if "parse_object (Suc n) cs = Inr (kvs, r)" for cs kvs r
    using that IH skip_ws_Cons_length
    by (auto split: list.splits if_splits sum.splits prod.splits)
  have m: "length r < length cs" if "parse_members (Suc n) cs = Inr (kvs, r)" for cs kvs r
  proof -
    note prem = that
    obtain c r0 where sk: "skip_ws cs = c # r0" and c: "c = dq"
      using prem by (auto split: list.splits if_splits sum.splits prod.splits)
    obtain k r1 where ps: "parse_str_body r0 = Inr (k, r1)"
      using prem sk c by (auto split: sum.splits prod.splits)
    obtain c1 r2 where sk1: "skip_ws r1 = c1 # r2" and c1: "c1 = CHR '':''"
      using prem sk c ps by (auto split: list.splits if_splits sum.splits prod.splits)
    obtain v r3 where pv: "parse_value n r2 = Inr (v, r3)"
      using prem sk c ps sk1 c1 by (auto split: sum.splits prod.splits)
    obtain c3 r4 where sk3: "skip_ws r3 = c3 # r4"
      using prem sk c ps sk1 c1 pv by (auto split: list.splits sum.splits prod.splits)
    have l: "length r4 < length cs"
      using skip_ws_Cons_length[OF sk] parse_str_body_consumes[OF ps] skip_ws_Cons_length[OF sk1]
        IH pv skip_ws_Cons_length[OF sk3] by fastforce
    show ?thesis
    proof (cases "c3 = CHR '',''")
      case True
      with prem sk c ps sk1 c1 pv sk3 obtain kvs' where "parse_members n r4 = Inr (kvs', r)"
        by (auto split: sum.splits prod.splits)
      then have "length r < length r4" using IH by blast
      with l show ?thesis by simp
    next
      case False
      with prem sk c ps sk1 c1 pv sk3 have "r = r4" by (auto split: if_splits sum.splits prod.splits)
      with l show ?thesis by simp
    qed
  qed
  show ?case using v a e o m by blast
qed

subsection \<open>Lemmas: the fuel of the parser\<close>

text \<open>Three units of fuel per character of the text are enough: a value needs one more
  than the calls it makes, and each call on the same text (an array's elements, an
  object's members) happens once before a character is consumed.\<close>

lemma parse_str_body_not_fuel: "parse_str_body cs \<noteq> Inl J_Fuel"
  by (induction cs rule: parse_str_body.induct)
     (auto simp: prepend_char_def split: list.splits option.splits sum.splits)

lemma parse_number_not_fuel: "parse_number cs \<noteq> Inl J_Fuel"
  by (simp add: parse_number_def Let_def)

lemmas parse_value_consumes = parse_value_consumes_aux[THEN conjunct1, rule_format]

lemma parse_value_fuel_aux:
  "(\<forall>cs. 3 * length cs + 1 \<le> n \<longrightarrow> parse_value n cs \<noteq> Inl J_Fuel) \<and>
   (\<forall>cs. 3 * length cs + 3 \<le> n \<longrightarrow> parse_array n cs \<noteq> Inl J_Fuel) \<and>
   (\<forall>cs. 3 * length cs + 2 \<le> n \<longrightarrow> parse_elems n cs \<noteq> Inl J_Fuel) \<and>
   (\<forall>cs. 3 * length cs + 3 \<le> n \<longrightarrow> parse_object n cs \<noteq> Inl J_Fuel) \<and>
   (\<forall>cs. 3 * length cs + 2 \<le> n \<longrightarrow> parse_members n cs \<noteq> Inl J_Fuel)"
proof (induction n)
  case 0
  then show ?case by simp
next
  case (Suc n)
  note IH = Suc.IH
  have v: "parse_value (Suc n) cs \<noteq> Inl J_Fuel" if b: "3 * length cs + 1 \<le> Suc n" for cs
  proof (cases "skip_ws cs")
    case Nil
    then show ?thesis by simp
  next
    case (Cons c r)
    with skip_ws_Cons_length have l: "length r < length cs" by blast
    with b have "3 * length r + 3 \<le> n" by simp
    with IH have "parse_object n r \<noteq> Inl J_Fuel" "parse_array n r \<noteq> Inl J_Fuel" by blast+
    with Cons show ?thesis
      using parse_str_body_not_fuel[of r] parse_number_not_fuel[of "c # r"]
      by (auto split: sum.splits prod.splits)
  qed
  have a: "parse_array (Suc n) cs \<noteq> Inl J_Fuel" if b: "3 * length cs + 3 \<le> Suc n" for cs
    using IH b by (auto split: list.splits)
  have e: "parse_elems (Suc n) cs \<noteq> Inl J_Fuel" if b: "3 * length cs + 2 \<le> Suc n" for cs
  proof (cases "parse_value n cs")
    case (Inl x)
    with IH b show ?thesis by auto
  next
    case (Inr p)
    obtain v r where p: "p = (v, r)" by fastforce
    with Inr have "length r < length cs" by (simp add: parse_value_consumes)
    moreover have "length r' < length r" if "skip_ws r = c # r'" for c r'
      using that by (rule skip_ws_Cons_length)
    ultimately have "parse_elems n r' \<noteq> Inl J_Fuel" if "skip_ws r = c # r'" for c r'
      using that IH b by fastforce
    with Inr p show ?thesis by (auto split: list.splits sum.splits prod.splits)
  qed
  have o: "parse_object (Suc n) cs \<noteq> Inl J_Fuel" if b: "3 * length cs + 3 \<le> Suc n" for cs
    using IH b by (auto split: list.splits)
  have m: "parse_members (Suc n) cs \<noteq> Inl J_Fuel" if b: "3 * length cs + 2 \<le> Suc n" for cs
  proof (cases "skip_ws cs")
    case Nil
    then show ?thesis by simp
  next
    case (Cons c r0)
    note l0 = skip_ws_Cons_length[OF Cons]
    show ?thesis
    proof (cases "parse_str_body r0")
      case (Inl x)
      with Cons parse_str_body_not_fuel[of r0] show ?thesis by auto
    next
      case (Inr p)
      obtain k r1 where p: "p = (k, r1)" by fastforce
      with Inr have l1: "length r1 < length r0" by (simp add: parse_str_body_consumes)
      have pv: "parse_value n r2 \<noteq> Inl J_Fuel" if "skip_ws r1 = c1 # r2" for c1 r2
        using skip_ws_Cons_length[OF that] l0 l1 IH b by fastforce
      have pm: "parse_members n r4 \<noteq> Inl J_Fuel"
        if "skip_ws r1 = c1 # r2" "parse_value n r2 = Inr (v, r3)" "skip_ws r3 = c3 # r4"
        for c1 r2 v r3 c3 r4
        using skip_ws_Cons_length[OF that(1)] parse_value_consumes[OF that(2)]
          skip_ws_Cons_length[OF that(3)] l0 l1 IH b by fastforce
      show ?thesis using Cons Inr p pv pm
        by (auto split: list.splits sum.splits prod.splits)
    qed
  qed
  show ?case using v a e o m by blast
qed

lemma json_parse_not_fuel: "json_parse s \<noteq> Inl J_Fuel"
  using parse_value_fuel_aux[THEN conjunct1, rule_format, of s "json_fuel s"]
  by (auto simp: json_parse_def json_fuel_def split: sum.splits prod.splits)

text \<open>A result other than running out of fuel does not change with more fuel.\<close>

lemma parse_value_mono_aux:
  "\<forall>m. n \<le> m \<longrightarrow>
   (\<forall>cs. parse_value n cs \<noteq> Inl J_Fuel \<longrightarrow> parse_value m cs = parse_value n cs) \<and>
   (\<forall>cs. parse_array n cs \<noteq> Inl J_Fuel \<longrightarrow> parse_array m cs = parse_array n cs) \<and>
   (\<forall>cs. parse_elems n cs \<noteq> Inl J_Fuel \<longrightarrow> parse_elems m cs = parse_elems n cs) \<and>
   (\<forall>cs. parse_object n cs \<noteq> Inl J_Fuel \<longrightarrow> parse_object m cs = parse_object n cs) \<and>
   (\<forall>cs. parse_members n cs \<noteq> Inl J_Fuel \<longrightarrow> parse_members m cs = parse_members n cs)"
proof (induction n)
  case 0
  then show ?case by simp
next
  case (Suc n)
  show ?case
  proof (intro allI impI)
    fix m assume "Suc n \<le> m"
    then obtain m' where m: "m = Suc m'" and nm: "n \<le> m'" by (cases m) auto
    from Suc.IH nm have IH:
      "\<And>cs. parse_value n cs \<noteq> Inl J_Fuel \<Longrightarrow> parse_value m' cs = parse_value n cs"
      "\<And>cs. parse_array n cs \<noteq> Inl J_Fuel \<Longrightarrow> parse_array m' cs = parse_array n cs"
      "\<And>cs. parse_elems n cs \<noteq> Inl J_Fuel \<Longrightarrow> parse_elems m' cs = parse_elems n cs"
      "\<And>cs. parse_object n cs \<noteq> Inl J_Fuel \<Longrightarrow> parse_object m' cs = parse_object n cs"
      "\<And>cs. parse_members n cs \<noteq> Inl J_Fuel \<Longrightarrow> parse_members m' cs = parse_members n cs"
      by blast+
    have v: "parse_value (Suc m') cs = parse_value (Suc n) cs"
      if "parse_value (Suc n) cs \<noteq> Inl J_Fuel" for cs
      using that IH(1,2,4)
      by (auto split: list.splits sum.splits prod.splits) 
    have a: "parse_array (Suc m') cs = parse_array (Suc n) cs"
      if "parse_array (Suc n) cs \<noteq> Inl J_Fuel" for cs
      using that IH(3) by (auto split: list.splits)
    have e: "parse_elems (Suc m') cs = parse_elems (Suc n) cs"
      if "parse_elems (Suc n) cs \<noteq> Inl J_Fuel" for cs
      using that IH(1,3) by (auto split: list.splits sum.splits prod.splits)
    have o: "parse_object (Suc m') cs = parse_object (Suc n) cs"
      if "parse_object (Suc n) cs \<noteq> Inl J_Fuel" for cs
      using that IH(5) by (auto split: list.splits)
    have mm: "parse_members (Suc m') cs = parse_members (Suc n) cs"
      if "parse_members (Suc n) cs \<noteq> Inl J_Fuel" for cs
      using that IH(1,5) by (auto split: list.splits sum.splits prod.splits)
    show "(\<forall>cs. parse_value (Suc n) cs \<noteq> Inl J_Fuel \<longrightarrow> parse_value m cs = parse_value (Suc n) cs) \<and>
      (\<forall>cs. parse_array (Suc n) cs \<noteq> Inl J_Fuel \<longrightarrow> parse_array m cs = parse_array (Suc n) cs) \<and>
      (\<forall>cs. parse_elems (Suc n) cs \<noteq> Inl J_Fuel \<longrightarrow> parse_elems m cs = parse_elems (Suc n) cs) \<and>
      (\<forall>cs. parse_object (Suc n) cs \<noteq> Inl J_Fuel \<longrightarrow> parse_object m cs = parse_object (Suc n) cs) \<and>
      (\<forall>cs. parse_members (Suc n) cs \<noteq> Inl J_Fuel \<longrightarrow> parse_members m cs = parse_members (Suc n) cs)"
      unfolding m using v a e o mm by blast
  qed
qed

subsection \<open>Lemmas: \<open>JSON.parse\<close> inverts \<open>JSON.stringify\<close>\<close>

lemma hex_val_hex_digit: "k < 16 \<Longrightarrow> hex_val (hex_digit k) = Some k"
  by (auto simp: hex_val_def hex_digit_def Let_def)

lemma skip_ws_Cons [simp]: "\<not> json_ws c \<Longrightarrow> skip_ws (c # cs) = c # cs"
  by (simp add: skip_ws_def)

lemma parse_str_body_escape:
  "parse_str_body (json_escape_char c @ cs) = prepend_char c (parse_str_body cs)"
proof -
  have lt: "(of_char c :: nat) < 256" by (rule of_char_less_256)
  consider "(of_char c :: nat) \<in> {8, 9, 10, 12, 13}" | "c = dq" | "c = bsl"
    | "(of_char c :: nat) \<notin> {8, 9, 10, 12, 13}" "c \<noteq> dq" "c \<noteq> bsl" "(of_char c :: nat) < 32"
    | "c \<noteq> dq" "c \<noteq> bsl" "\<not> (of_char c :: nat) < 32"
    by fastforce
  then show ?thesis
  proof cases
    case 1
    then have "c = CHR 0x08 \<or> c = CHR 0x09 \<or> c = CHR 0x0A \<or> c = CHR 0x0C \<or> c = CHR 0x0D"
      by (auto simp: char_eq_iff_of_char[of c])
    then show ?thesis by (elim disjE) (simp_all add: json_escape_char_def bsl_def dq_def)
  next
    case 2
    then show ?thesis by (simp add: json_escape_char_def bsl_def dq_def)
  next
    case 3
    then show ?thesis by (simp add: json_escape_char_def bsl_def dq_def)
  next
    case 4
    have h: "hex4_val (CHR ''0'') (CHR ''0'') (hex_digit (of_char c div 16)) (hex_digit (of_char c mod 16))
             = Some (of_char c)"
      using 4(4) by (simp add: hex4_val_def hex_val_hex_digit) (simp add: hex_val_def)
    have "json_escape_char c = [bsl, CHR ''u'', CHR ''0'', CHR ''0'',
            hex_digit (of_char c div 16), hex_digit (of_char c mod 16)]"
      using 4 by (auto simp: json_escape_char_def Let_def dq_def bsl_def)
    with h 4(4) show ?thesis by (simp add: bsl_def dq_def)
  next
    case 5
    then have "json_escape_char c = [c]"
      by (auto simp: json_escape_char_def Let_def dq_def bsl_def)
    with 5 show ?thesis by simp
  qed
qed

lemma parse_str_body_quote:
  "parse_str_body (concat (map json_escape_char s) @ dq # rest) = Inr (s, rest)"
  by (induction s) (simp_all add: parse_str_body_escape prepend_char_def)

lemma valid_exp_part_chars: "valid_exp_part r \<Longrightarrow> list_all num_char r"
proof (cases r)
  case (Cons c r3)
  assume v: "valid_exp_part r"
  with Cons have c: "c = CHR ''e'' \<or> c = CHR ''E''" by (simp add: valid_exp_part_def)
  show ?thesis
  proof (cases "r3 \<noteq> [] \<and> (hd r3 = CHR ''+'' \<or> hd r3 = CHR ''-'')")
    case True
    then obtain s r4 where "r3 = s # r4" "s = CHR ''+'' \<or> s = CHR ''-''" by (cases r3) auto
    with v Cons c show ?thesis
      by (auto simp: valid_exp_part_def num_char_def list.pred_set)
  next
    case False
    with v Cons c show ?thesis
      by (auto simp: valid_exp_part_def num_char_def list.pred_set)
  qed
qed simp

lemma takeWhile_digits_chars: "list_all num_char (takeWhile is_digit xs)"
  by (auto simp: list.pred_set num_char_def dest: set_takeWhileD)

lemma valid_number_lexeme_chars:
  assumes v: "valid_number_lexeme l"
  shows "list_all num_char l \<and> (\<exists>c r. l = c # r \<and> (c = CHR ''-'' \<or> is_digit c))"
proof -
  define body where "body = (if l \<noteq> [] \<and> hd l = CHR ''-'' then tl l else l)"
  define r1 where "r1 = dropWhile is_digit body"
  have l: "l = (if l \<noteq> [] \<and> hd l = CHR ''-'' then CHR ''-'' # body else body)"
    by (cases l) (auto simp: body_def)
  from v have ip: "valid_int_part (takeWhile is_digit body)" 
    by (simp add: valid_number_lexeme_def body_def Let_def)
  then obtain d where d: "takeWhile is_digit body \<noteq> []" "hd (takeWhile is_digit body) = d" by (auto simp: valid_int_part_def)
  then have hb: "body \<noteq> [] \<and> is_digit (hd body)" by (cases body) (auto split: if_splits)
  have r1: "list_all num_char r1"
  proof (cases "r1 \<noteq> [] \<and> hd r1 = CHR ''.''")
    case True
    with v have "valid_exp_part (dropWhile is_digit (tl r1))"
      by (simp add: valid_number_lexeme_def body_def r1_def Let_def)
    then have "list_all num_char (tl r1)"
      using valid_exp_part_chars takeWhile_digits_chars[of "tl r1"]
      by (metis takeWhile_dropWhile_id list_all_append)
    with True show ?thesis by (cases r1) (simp_all add: num_char_def)
  next
    case False
    with v have "valid_exp_part r1"
      by (simp add: valid_number_lexeme_def body_def r1_def Let_def)
    then show ?thesis by (rule valid_exp_part_chars)
  qed
  have "list_all num_char body"
    using r1 takeWhile_digits_chars[of body] takeWhile_dropWhile_id[of is_digit body]
    unfolding r1_def by (metis list_all_append)
  with hb l show ?thesis by (cases body) (auto simp: num_char_def split: if_splits)
qed

lemma parse_number_lexeme:
  assumes "valid_number_lexeme l" "rest = [] \<or> \<not> num_char (hd rest)"
  shows "parse_number (l @ rest) = Inr (JNum l, rest)"
proof -
  have "list_all num_char l" using valid_number_lexeme_chars[OF assms(1)] by blast
  then have "takeWhile num_char (l @ rest) = l" "dropWhile num_char (l @ rest) = rest"
    using assms(2) by (cases rest; simp add: list.pred_set)+
  with assms(1) show ?thesis by (simp add: parse_number_def)
qed

lemma parse_fuel_mono:
  assumes "n \<le> m"
  shows "parse_value n cs = Inr x \<Longrightarrow> parse_value m cs = Inr x"
    and "parse_elems n cs = Inr y \<Longrightarrow> parse_elems m cs = Inr y"
    and "parse_members n cs = Inr z \<Longrightarrow> parse_members m cs = Inr z"
proof -
  note mono = parse_value_mono_aux[of n, rule_format, OF assms]
  show "parse_value m cs = Inr x" if "parse_value n cs = Inr x"
    using mono[THEN conjunct1, rule_format, of cs] that by simp
  show "parse_elems m cs = Inr y" if "parse_elems n cs = Inr y"
    using mono[THEN conjunct2, THEN conjunct2, THEN conjunct1, rule_format, of cs] that by simp
  show "parse_members m cs = Inr z" if "parse_members n cs = Inr z"
    using mono[THEN conjunct2, THEN conjunct2, THEN conjunct2, THEN conjunct2, rule_format, of cs]
      that by simp
qed

lemma dq_facts [simp]:
  "\<not> json_ws dq" "dq \<noteq> CHR ''{''" "dq \<noteq> CHR ''[''" "dq \<noteq> CHR '']''" "dq \<noteq> CHR ''}''"
  by (simp_all add: dq_def json_ws_def)

lemma lexeme_start:
  "c = CHR ''-'' \<or> is_digit c \<Longrightarrow>
   \<not> json_ws c \<and> c \<noteq> CHR ''{'' \<and> c \<noteq> CHR ''['' \<and> c \<noteq> dq \<and> c \<noteq> CHR '']'' \<and> c \<noteq> CHR ''}''"
  by (auto simp: is_digit_def json_ws_def dq_def)

lemma json_ser_None_iff: "json_ser v = None \<longleftrightarrow> v = JUndef"
  by (cases v) simp_all

lemma json_ser_start:
  assumes "json_wf v" "json_ser v = Some t"
  shows "\<exists>c t'. t = c # t' \<and> \<not> json_ws c \<and> c \<noteq> CHR '']'' \<and> c \<noteq> CHR ''}''"
proof (cases v)
  case (JNum l)
  with assms have t: "t = l" and v: "valid_number_lexeme l" by simp_all
  from valid_number_lexeme_chars[OF v] obtain c r where "l = c # r" "c = CHR ''-'' \<or> is_digit c"
    by blast
  with t lexeme_start[of c] show ?thesis by blast
next
  case (JStr s)
  with assms show ?thesis by (auto simp: json_quote_def)
qed (use assms in \<open>auto simp: json_ws_def\<close>)

lemma comma_join_Cons: "comma_join (s # ss) = s @ (if ss = [] then [] else CHR '','' # comma_join ss)"
  by (cases ss) simp_all

lemma json_ser_props_wf:
  "json_wf_props kvs \<Longrightarrow> json_ser_props kvs =
     map (\<lambda>(k, v). json_quote k @ '':'' @ the (json_ser v)) kvs"
proof (induction kvs)
  case (Cons kv kvs)
  then show ?case by (cases kv) (auto simp: json_ser_None_iff split: option.splits)
qed simp

lemma json_ws_punct [simp]:
  "\<not> json_ws CHR '':''" "\<not> json_ws CHR '',''" "\<not> json_ws CHR '']''" "\<not> json_ws CHR ''}''"
  "\<not> json_ws CHR ''[''" "\<not> json_ws CHR ''{''"
  by (simp_all add: json_ws_def)

lemma json_ser_elems_start:
  "json_wf_elems vs \<Longrightarrow> vs \<noteq> [] \<Longrightarrow>
   \<exists>c e. json_ser_elems vs = c # e \<and> \<not> json_ws c \<and> c \<noteq> CHR '']''"
proof (cases vs)
  case (Cons v ws)
  assume "json_wf_elems vs"
  with Cons obtain s where s: "json_ser v = Some s" and wf: "json_wf v"
    by (cases "json_ser v") (auto simp: json_ser_None_iff)
  from json_ser_start[OF wf s] obtain c t' where "s = c # t'" "\<not> json_ws c" "c \<noteq> CHR '']''" by blast
  with Cons s show ?thesis by (cases ws) auto
qed simp

lemma json_roundtrip_aux:
  "json_wf v \<Longrightarrow> json_ser v = Some t \<Longrightarrow> rest = [] \<or> \<not> num_char (hd rest) \<Longrightarrow>
     \<exists>n. parse_value n (t @ rest) = Inr (v, rest)"
  "json_wf_elems vs \<Longrightarrow> vs \<noteq> [] \<Longrightarrow>
     \<exists>n. parse_elems n (json_ser_elems vs @ CHR '']'' # rest) = Inr (vs, rest)"
  "json_wf_props kvs \<Longrightarrow> kvs \<noteq> [] \<Longrightarrow>
     \<exists>n. parse_members n (comma_join (json_ser_props kvs) @ CHR ''}'' # rest) = Inr (kvs, rest)"
proof (induction v and vs and kvs arbitrary: t rest and rest and rest
       rule: json_ser_json_ser_elems_json_ser_props.induct)
  case 1
  then show ?case by simp
next
  case 2
  then have "t = ''null''" by simp
  then have "parse_value 1 (t @ rest) = Inr (JNull, rest)" by (simp add: json_ws_def is_digit_def dq_def)
  then show ?case by blast
next
  case (3 b)
  then have "t = (if b then ''true'' else ''false'')" by simp
  then have "parse_value 1 (t @ rest) = Inr (JBool b, rest)" by (cases b) (simp_all add: json_ws_def is_digit_def dq_def)
  then show ?case by blast
next
  case (4 l)
  then have t: "t = l" and v: "valid_number_lexeme l" by simp_all
  from valid_number_lexeme_chars[OF v] obtain c r where l: "l = c # r" "c = CHR ''-'' \<or> is_digit c"
    by blast
  have "parse_value 1 (t @ rest) = Inr (JNum l, rest)"
    using t l lexeme_start[OF l(2)] parse_number_lexeme[OF v "4.prems"(3)] by simp
  then show ?case by blast
next
  case (5 s)
  then have "t = json_quote s" by simp
  then have "parse_value 1 (t @ rest) = Inr (JStr s, rest)"
    by (simp add: json_quote_def parse_str_body_quote)
  then show ?case by blast
next
  case (6 vs)
  then have t: "t = CHR ''['' # json_ser_elems vs @ '']''" and wf: "json_wf_elems vs" by simp_all
  show ?case
  proof (cases "vs = []")
    case True
    with t have "parse_value (Suc (Suc 0)) (t @ rest) = Inr (JArr vs, rest)" by (simp add: json_ws_def)
    then show ?thesis by blast
  next
    case False
    from "6.IH"[OF wf False] obtain n where n: "parse_elems n (json_ser_elems vs @ CHR '']'' # rest) = Inr (vs, rest)"
      by blast
    from json_ser_elems_start[OF wf False] obtain c e where e: "json_ser_elems vs = c # e"
      "\<not> json_ws c" "c \<noteq> CHR '']''" by blast
    have "parse_value (Suc (Suc n)) (t @ rest) = Inr (JArr vs, rest)"
      using t n e by (simp add: json_ws_def)
    then show ?thesis by blast
  qed
next
  case (7 kvs)
  then have t: "t = CHR ''{'' # comma_join (json_ser_props kvs) @ ''}''" and wf: "json_wf_props kvs"
    and obj: "js_object kvs = kvs" by simp_all
  show ?case
  proof (cases "kvs = []")
    case True
    with t obj have "parse_value (Suc (Suc 0)) (t @ rest) = Inr (JObj kvs, rest)" by (simp add: json_ws_def)
    then show ?thesis by blast
  next
    case False
    from "7.IH"[OF wf False] obtain n where n: "parse_members n (comma_join (json_ser_props kvs) @ CHR ''}'' # rest) = Inr (kvs, rest)"
      by blast
    from False obtain k v kvs' where "kvs = (k, v) # kvs'" by (cases kvs) auto
    with wf have "\<exists>e. comma_join (json_ser_props kvs) = dq # e"
      by (cases "json_ser v") (auto simp: json_ser_None_iff comma_join_Cons json_quote_def)
    then obtain e where e: "comma_join (json_ser_props kvs) = dq # e" by blast
    have "parse_value (Suc (Suc n)) (t @ rest) = Inr (JObj kvs, rest)"
      using t n e obj by (simp add: json_ws_def dq_def)
    then show ?thesis by blast
  qed
next
  case 8
  then show ?case by simp
next
  case (9 v)
  then obtain s where s: "json_ser v = Some s" and wf: "json_wf v"
    by (cases "json_ser v") (auto simp: json_ser_None_iff)
  from "9.IH"[OF wf s, of "CHR '']'' # rest"] obtain n where
    n: "parse_value n (s @ CHR '']'' # rest) = Inr (v, CHR '']'' # rest)" by (auto simp: num_char_def is_digit_def)
  have "parse_elems (Suc n) (json_ser_elems [v] @ CHR '']'' # rest) = Inr ([v], rest)"
    using s n by (simp add: json_ws_def)
  then show ?case by blast
next
  case (10 v w vs)
  then obtain s where s: "json_ser v = Some s" and wf: "json_wf v" and wf': "json_wf_elems (w # vs)"
    by (cases "json_ser v") (auto simp: json_ser_None_iff)
  define more where "more = json_ser_elems (w # vs) @ CHR '']'' # rest"
  from "10.IH"(1)[OF wf s, of "CHR '','' # more"] obtain n1 where
    n1: "parse_value n1 (s @ CHR '','' # more) = Inr (v, CHR '','' # more)" by (auto simp: num_char_def is_digit_def)
  from "10.IH"(2)[OF wf', of rest] obtain n2 where
    n2: "parse_elems n2 more = Inr (w # vs, rest)" by (auto simp: more_def)
  have "parse_elems (Suc (max n1 n2)) (json_ser_elems (v # w # vs) @ CHR '']'' # rest) = Inr (v # w # vs, rest)"
    using s parse_fuel_mono(1)[OF _ n1] parse_fuel_mono(2)[OF _ n2]
    by (simp add: json_ws_def more_def)
  then show ?case by blast
next
  case 11
  then show ?case by simp
next
  case (12 k v kvs)
  then obtain s where s: "json_ser v = Some s" and wf: "json_wf v" and wf': "json_wf_props kvs"
    by (cases "json_ser v") (auto simp: json_ser_None_iff)
  have q: "json_quote k @ '':'' @ s @ more = dq # concat (map json_escape_char k) @ dq # CHR '':'' # s @ more"
    for more by (simp add: json_quote_def)
  show ?case
  proof (cases "kvs = []")
    case True
    from "12.IH"(1)[OF wf s, of "CHR ''}'' # rest"] obtain n where
      n: "parse_value n (s @ CHR ''}'' # rest) = Inr (v, CHR ''}'' # rest)"
      by (auto simp: num_char_def is_digit_def)
    have "parse_members (Suc n) (comma_join (json_ser_props [(k, v)]) @ CHR ''}'' # rest) = Inr ([(k, v)], rest)"
      using s n q by (simp add: parse_str_body_quote)
    with True show ?thesis by blast
  next
    case False
    have ne: "json_ser_props kvs \<noteq> []" using False json_ser_props_wf[OF wf'] by simp
    define more where "more = comma_join (json_ser_props kvs) @ CHR ''}'' # rest"
    from "12.IH"(1)[OF wf s, of "CHR '','' # more"] obtain n1 where
      n1: "parse_value n1 (s @ CHR '','' # more) = Inr (v, CHR '','' # more)"
      by (auto simp: num_char_def is_digit_def)
    from "12.IH"(3)[OF s wf' False, of rest] obtain n2 where
      n2: "parse_members n2 more = Inr (kvs, rest)" by (auto simp: more_def)
    have "parse_members (Suc (max n1 n2)) (comma_join (json_ser_props ((k, v) # kvs)) @ CHR ''}'' # rest)
          = Inr ((k, v) # kvs, rest)"
      using s ne q parse_fuel_mono(1)[OF _ n1] parse_fuel_mono(3)[OF _ n2]
      by (simp add: comma_join_Cons parse_str_body_quote more_def)
    then show ?thesis by blast
  qed
qed

lemma json_parse_value:
  assumes "parse_value n t = Inr (v, [])"
  shows "json_parse t = Inr v"
proof -
  have ne: "parse_value (json_fuel t) t \<noteq> Inl J_Fuel"
    using parse_value_fuel_aux[THEN conjunct1, rule_format, of t "json_fuel t"]
    by (simp add: json_fuel_def)
  have "parse_value (json_fuel t) t = Inr (v, [])"
  proof (cases "n \<le> json_fuel t")
    case True
    then show ?thesis using parse_fuel_mono(1)[OF _ assms] by blast
  next
    case False
    then have "json_fuel t \<le> n" by simp
    from parse_value_mono_aux[of "json_fuel t", rule_format, OF this, THEN conjunct1, rule_format, OF ne]
      assms show ?thesis by simp
  qed
  then show ?thesis by (simp add: json_parse_def skip_ws_def)
qed

theorem json_roundtrip: "json_wf v \<Longrightarrow> \<exists>t. json_ser v = Some t \<and> json_parse t = Inr v"
proof -
  assume wf: "json_wf v"
  then obtain t where t: "json_ser v = Some t" by (cases "json_ser v") (auto simp: json_ser_None_iff)
  from json_roundtrip_aux(1)[OF wf t, of "[]"] obtain n where "parse_value n t = Inr (v, [])" by auto
  with t show ?thesis using json_parse_value by blast
qed

theorem json_roundtrip_witness:
  "json_wf (JObj [(''a'', JArr [JNum ''10'', JBool True, JNull]), (''b'', JStr ''x'')]) \<and>
   (\<exists>t. json_ser (JObj [(''a'', JArr [JNum ''10'', JBool True, JNull]), (''b'', JStr ''x'')]) = Some t \<and>
        json_parse t = Inr (JObj [(''a'', JArr [JNum ''10'', JBool True, JNull]), (''b'', JStr ''x'')]))"
proof -
  have wf: "json_wf (JObj [(''a'', JArr [JNum ''10'', JBool True, JNull]), (''b'', JStr ''x'')])"
    by code_simp
  show ?thesis using json_roundtrip[OF wf] wf by blast
qed

lemma json_stringify_obj_parse:
  "json_wf (JObj kvs) \<Longrightarrow> json_parse (json_stringify_obj kvs) = Inr (JObj kvs)"
  using json_roundtrip[of "JObj kvs"] by (simp add: json_stringify_obj_def)

end
