(* ===== verification/Agent_Protocol.thy ===== *)
theory Agent_Protocol
  imports Weather_Tool Json
begin

text \<open>
  The data the conversation loop of both programs works on: the role-tagged messages
  of the history (the array \<open>messages\<close>, index.js lines 54-56, index2.js lines
  60-62), the system prompt that seeds it (\<open>SYSTEM_PROMPT\<close>, index.js 25-50,
  index2.js 22-45), the request each program sends to its chat-completion endpoint,
  the replies the endpoint may give, the envelopes the loop writes
  (\<open>{type: 'user', user: query}\<close>, \<open>{type: "observation", observation}\<close>), and the
  state the loop threads through its steps: the history, the number of completion
  calls made so far, and the trace of what the process printed and which tool it ran.
\<close>

subsection \<open>Messages\<close>

text \<open>index.js appends the observation with the role \<open>developer\<close>; index2.js with
  \<open>assistant\<close>. The content of a message is a string, or \<open>null\<close> (\<open>None\<close>), which
  index.js appends when the endpoint's reply has no content.\<close>

datatype role = System | User | Assistant | Developer

record message =
  role :: role
  content :: "jstr option"

definition msg :: "role \<Rightarrow> jstr \<Rightarrow> message" where
  "msg r t = \<lparr>role = r, content = Some t\<rparr>"

subsection \<open>The system prompts\<close>

definition nl :: char where "nl = CHR 0x0A"

fun join_lines :: "string list \<Rightarrow> string" where
  "join_lines [] = []"
| "join_lines [l] = l"
| "join_lines (l # m # ls) = l @ [nl] @ join_lines (m # ls)"

text \<open>The template literal of index.js, lines 25-50, one list element per source line
  (the first and the last are the empty text after the opening and before the closing
  backquote).\<close>

definition system_prompt_v1 :: jstr where
  \<open>system_prompt_v1 = join_lines
    [[],
     ''You are an AI Assistant with START, PLAN, ACTION, Observation and Output State.'',
     ''Wait for the user prompt and first PLAN using available tools.'',
     ''After Planning, Take the action with appropriate tools and wait for Observation based on Action.'',
     ''Once you get the observations, return the AI response based on START prompt and observations.'',
     [],
     ''strictly follow the json output format as in examples'',
     [],
     ''Available Tools:'',
     ''- function getWeatherDetails(city: string): string'',
     ''getWeatherDetails is a function which takes city name as string and return weather details'',
     [],
     ''EXAMPLE:'',
     [],
     ''START'',
     ''{ "type": "user", "user": "What is the sum of weather of Patiala and Mohali?" }'',
     ''{ "type": "plan", "plan": "I will call the getWeatherDetails for Patiala" }'',
     ''{ "type": "action", "function": "getWeatherDetails", "input": "patiala" }'',
     ''{ "type": "observation", "observation": "10'' @ deg_C @ ''" }'',
     ''{ "type": "plan", "plan": "I will call getWeatherDetails for Mohali" }'',
     ''{ "type": "action", "function": "getWeatherDetails", "input": "mohali" }'',
     ''{ "type": "observation", "observation": "14'' @ deg_C @ ''" }'',
     ''{ "type": "output", "output": "The sum of weather of Patiala and Mohali is 24'' @ deg_C @ ''" }'',
     [],
     [],
     []]\<close>

text \<open>The template literal of index2.js, lines 22-45.\<close>

definition system_prompt_v2 :: jstr where
  \<open>system_prompt_v2 = join_lines
    [[],
     ''You are an AI Assistant with START, PLAN, ACTION, Observation and Output State.'',
     ''Wait for the user prompt and first PLAN using available tools.'',
     ''After Planning, Take the action with appropriate tools and wait for Observation based on Action.'',
     ''Once you get the observations, return the AI response based on START prompt and observations.'',
     [],
     ''Strictly follow the JSON output format as in examples'',
     [],
     ''Available Tools:'',
     ''- function getWeatherDetails(city: string): string'',
     ''getWeatherDetails is a function which takes city name as string and return weather details'',
     [],
     ''EXAMPLE:'',
     [],
     ''START'',
     ''{ "type": "user", "user": "What is the weather in Patiala and Mohali?" }'',
     ''{ "type": "plan", "plan": "I will call getWeatherDetails for Patiala first." }'',
     ''{ "type": "action", "function": "getWeatherDetails", "input": "patiala" }'',
     ''{ "type": "observation", "observation": "10'' @ deg_C @ ''" }'',
     ''{ "type": "plan", "plan": "I will now call getWeatherDetails for Mohali." }'',
     ''{ "type": "action", "function": "getWeatherDetails", "input": "mohali" }'',
     ''{ "type": "observation", "observation": "12'' @ deg_C @ ''" }'',
     ''{ "type": "output", "output": "The weather in Patiala is 10'' @ deg_C @ '', and in Mohali is 12'' @ deg_C @ ''." }'',
     []]\<close>

subsection \<open>Envelopes\<close>

text \<open>\<open>JSON.stringify({type: 'user', user: query})\<close> and
  \<open>JSON.stringify({type: "observation", observation})\<close>; the observation is left out
  when the tool returned \<open>undefined\<close>.\<close>

definition user_envelope :: "jstr \<Rightarrow> jstr" where
  "user_envelope q = json_stringify_obj [(''type'', JStr ''user''), (''user'', JStr q)]"

definition obs_envelope :: "js \<Rightarrow> jstr" where
  "obs_envelope obs = json_stringify_obj [(''type'', JStr ''observation''), (''observation'', obs)]"

subsection \<open>Requests and replies\<close>

text \<open>The fields of the request object. index.js passes its history under the key
  \<open>message\<close> (line 69), index2.js under \<open>messages\<close> (line 50); the
  commented-out request of index.js (lines 99-105) also sets \<open>store\<close>.\<close>

datatype req_field =
    F_Model jstr
  | F_Messages "message list"
  | F_Message "message list"
  | F_Response_Format jstr
  | F_Store bool

type_synonym request = "req_field list"

definition request_v1 :: "message list \<Rightarrow> request" where
  "request_v1 ms = [F_Model ''gpt-3.5-turbo'', F_Message ms, F_Response_Format ''json_object'']"

definition request_v2 :: "message list \<Rightarrow> request" where
  "request_v2 ms = [F_Messages ms, F_Model ''llama-3.3-70b-versatile'']"

text \<open>The history the endpoint receives under the key \<open>messages\<close> that its wire
  contract requires.\<close>

fun req_messages :: "request \<Rightarrow> message list option" where
  "req_messages [] = None"
| "req_messages (F_Messages ms # fs) = Some ms"
| "req_messages (f # fs) = req_messages fs"

text \<open>A reply of the endpoint: a failed call (the awaited promise rejects), or the list
  of choices, each given by the content of its message (\<open>None\<close> for \<open>null\<close>). The
  endpoint is an oracle: the reply to the \<open>n\<close>-th call of the process may depend on
  \<open>n\<close> and on the whole request, which covers every behaviour of the remote model.\<close>

datatype api_reply = Api_Error | Api_Ok "jstr option list"

type_synonym api = "nat \<Rightarrow> request \<Rightarrow> api_reply"

subsection \<open>The loop's state\<close>

text \<open>What the process prints and does, in order: a line read at the prompt
  \<open>>> \<close>, a tool run with its input, a line printed by \<open>console.log\<close>, a report
  printed by \<open>console.error\<close> (index2.js; \<open>E_Uncaught\<close> is the report of the
  handler \<open>main().catch\<close>, line 116).\<close>

datatype err_report =
    E_Api_Call
  | E_No_Content
  | E_Parse jstr
  | E_Fn_Not_Found jstr
  | E_Processing
  | E_Uncaught

datatype event =
    Ev_Read jstr
  | Ev_Tool tool_val js
  | Ev_Log jstr
  | Ev_Err err_report

record agent =
  msgs :: "message list"
  calls :: nat
  trace :: "event list"

definition push :: "message \<Rightarrow> agent \<Rightarrow> agent" where
  "push m s = s\<lparr>msgs := msgs s @ [m]\<rparr>"

definition emit :: "event \<Rightarrow> agent \<Rightarrow> agent" where
  "emit e s = s\<lparr>trace := trace s @ [e]\<rparr>"

definition init_v1 :: agent where
  "init_v1 = \<lparr>msgs = [msg System system_prompt_v1], calls = 0, trace = []\<rparr>"

definition init_v2 :: agent where
  "init_v2 = \<lparr>msgs = [msg System system_prompt_v2], calls = 0, trace = []\<rparr>"

text \<open>How an exchange (the inner \<open>while\<close>) ends: \<open>break\<close> after printing the
  output, \<open>return\<close> from \<open>main\<close> (index2.js), an uncaught exception that ends the
  process (index.js), \<open>break\<close> after reporting an error (the earlier version
  commented out in index2.js, theory \<open>Legacy\<close>), or a reply whose parse result the
  model cannot represent.\<close>

datatype crash_cause = C_Api_Rejected | C_Exn js_exn

datatype outcome = Done | Main_Return | Crash crash_cause | Turn_Abandoned | Unmodelled

datatype step_res = Continue agent | Stop outcome agent


subsection \<open>Lemmas: envelopes\<close>

lemma role_msg [simp]: "role (msg r t) = r" and content_msg [simp]: "content (msg r t) = Some t"
  by (simp_all add: msg_def)

lemma js_object_plain_keys:
  "\<not> is_array_index k1 \<Longrightarrow> \<not> is_array_index k2 \<Longrightarrow> k1 \<noteq> k2 \<Longrightarrow>
   js_object [(k1, v1), (k2, v2)] = [(k1, v1), (k2, v2)]"
  by (simp add: js_object_def)

lemma type_key_plain [simp]:
  "\<not> is_array_index ''type''" "\<not> is_array_index ''user''" "\<not> is_array_index ''observation''"
  by (simp_all add: is_array_index_def is_digit_def)

text \<open>The content of every user message the loop appends decodes back to the
  object \<open>{type: 'user', user: query}\<close> with the query unchanged, whatever characters it
  holds.\<close>

lemma user_envelope_parse:
  "json_parse (user_envelope q) = Inr (JObj [(''type'', JStr ''user''), (''user'', JStr q)])"
  by (simp add: user_envelope_def json_stringify_obj_parse js_object_plain_keys)

text \<open>An observation that is a string decodes back to the object
  \<open>{type: "observation", observation}\<close>; an undefined observation, which the tool of
  index.js returns for an unknown city, loses its key: the model reads
  \<open>{"type":"observation"}\<close>.\<close>

lemma obs_envelope_parse:
  "json_parse (obs_envelope (JStr w)) =
     Inr (JObj [(''type'', JStr ''observation''), (''observation'', JStr w)]) \<and>
   json_parse (obs_envelope JUndef) = Inr (JObj [(''type'', JStr ''observation'')])"
proof -
  have "json_wf (JObj [(''type'', JStr ''observation'')])"
    by (simp add: js_object_def)
  moreover have "obs_envelope JUndef = json_stringify_obj [(''type'', JStr ''observation'')]"
    by (simp add: obs_envelope_def json_stringify_obj_def)
  ultimately show ?thesis
    by (simp add: obs_envelope_def json_stringify_obj_parse js_object_plain_keys)
qed

end
