(* ===== verification/Agent_Loop.thy ===== *)
theory Agent_Loop
  imports Agent_Protocol
begin

text \<open>
  The conversation loops of the two programs. One step is one iteration of the inner
  \<open>while (true)\<close>: a completion call, the reply appended to the history, the reply
  parsed and dispatched on its \<open>type\<close> (index.js lines 66-87, index2.js lines
  72-111). \<open>exchange\<close> iterates a step until it stops; it is a
  \<open>partial_function (option)\<close> because nothing bounds the iterations: \<open>None\<close> is an
  exchange that never ends. \<open>session_v1\<close> and \<open>session_v2\<close> are the outer loops over
  the lines the operator types (index.js 58-88, index2.js 64-113).

  A step that throws inside index2.js's \<open>try\<close> keeps what it did before the throw,
  so the dispatch functions return the exception with the state at the throw.
\<close>

subsection \<open>Dispatch on the parsed reply\<close>

text \<open>index2.js lines 93-106: strict comparison of \<open>call.type\<close>, the
  \<open>typeof fn !== "function"\<close> guard, the observation appended as an assistant
  message.\<close>

definition act_v2 :: "js \<Rightarrow> agent \<Rightarrow> (js_exn \<times> agent) + step_res" where
  "act_v2 call s =
     (case js_get_field call ''type'' of
        Inl e \<Rightarrow> Inl (e, s)
      | Inr ty \<Rightarrow>
          (if js_strict_eq_str ty ''output'' then
             (case js_get_field call ''output'' of
                Inl e \<Rightarrow> Inl (e, s)
              | Inr out \<Rightarrow>
                  (case js_to_string out of
                     Inl e \<Rightarrow> Inl (e, s)
                   | Inr txt \<Rightarrow> Inr (Stop Done (emit (Ev_Log (''Bot: '' @ txt)) s))))
           else if js_strict_eq_str ty ''action'' then
             (case js_get_field call ''function'' of
                Inl e \<Rightarrow> Inl (e, s)
              | Inr f \<Rightarrow>
                  (case tools_lookup tools_v2 f of
                     Inl e \<Rightarrow> Inl (e, s)
                   | Inr fn \<Rightarrow>
                       (if \<not> is_function fn then
                          (case js_to_string f of
                             Inl e \<Rightarrow> Inl (e, s)
                           | Inr name \<Rightarrow> Inr (Stop Main_Return (emit (Ev_Err (E_Fn_Not_Found name)) s)))
                        else
                          (case js_get_field call ''input'' of
                             Inl e \<Rightarrow> Inl (e, s)
                           | Inr inp \<Rightarrow>
                               (let s' = emit (Ev_Tool fn inp) s in
                                case call_tool getWeatherDetails_v2 fn inp of
                                  Inl e \<Rightarrow> Inl (e, s')
                                | Inr obs \<Rightarrow> Inr (Continue (push (msg Assistant (obs_envelope obs)) s')))))))
           else Inr (Continue s)))"

text \<open>index.js lines 78-86: loose comparison of \<open>call.type\<close>, no guard on \<open>fn\<close>
  (calling a value that is not a function throws a TypeError), the observation
  appended with the role \<open>developer\<close>.\<close>

definition act_v1 :: "js \<Rightarrow> agent \<Rightarrow> (js_exn \<times> agent) + step_res" where
  "act_v1 call s =
     (case js_get_field call ''type'' of
        Inl e \<Rightarrow> Inl (e, s)
      | Inr ty \<Rightarrow>
          (case js_loose_eq_str ty ''output'' of
             Inl e \<Rightarrow> Inl (e, s)
           | Inr is_out \<Rightarrow>
               (if is_out then
                  (case js_get_field call ''output'' of
                     Inl e \<Rightarrow> Inl (e, s)
                   | Inr out \<Rightarrow>
                       (case js_to_string out of
                          Inl e \<Rightarrow> Inl (e, s)
                        | Inr txt \<Rightarrow> Inr (Stop Done (emit (Ev_Log (''bot: '' @ txt)) s))))
                else
                  (case js_loose_eq_str ty ''action'' of
                     Inl e \<Rightarrow> Inl (e, s)
                   | Inr is_act \<Rightarrow>
                       (if is_act then
                          (case js_get_field call ''function'' of
                             Inl e \<Rightarrow> Inl (e, s)
                           | Inr f \<Rightarrow>
                               (case tools_lookup tools_v1 f of
                                  Inl e \<Rightarrow> Inl (e, s)
                                | Inr fn \<Rightarrow>
                                    (case js_get_field call ''input'' of
                                       Inl e \<Rightarrow> Inl (e, s)
                                     | Inr inp \<Rightarrow>
                                         (if \<not> is_function fn then Inl (TypeError, s)
                                          else
                                            (let s' = emit (Ev_Tool fn inp) s in
                                             case call_tool getWeatherDetails_v1 fn inp of
                                               Inl e \<Rightarrow> Inl (e, s')
                                             | Inr obs \<Rightarrow>
                                                 Inr (Continue (push (msg Developer (obs_envelope obs)) s')))))))
                        else Inr (Continue s))))))"

subsection \<open>One iteration of the inner loop\<close>

text \<open>\<open>chat.choices[0]?.message?.content\<close>.\<close>

definition first_content :: "jstr option list \<Rightarrow> jstr option" where
  "first_content chs = (case chs of [] \<Rightarrow> None | c # _ \<Rightarrow> c)"

text \<open>The \<open>catch\<close> of index2.js (lines 107-110): an exception thrown while a reply
  is dispatched is reported and ends \<open>main\<close>. In index.js nothing catches it and the
  process ends.\<close>

definition catch_v2 :: "(js_exn \<times> agent) + step_res \<Rightarrow> step_res" where
  "catch_v2 a = (case a of Inl (e, s) \<Rightarrow> Stop Main_Return (emit (Ev_Err E_Processing) s) | Inr r \<Rightarrow> r)"

definition uncaught_v1 :: "(js_exn \<times> agent) + step_res \<Rightarrow> step_res" where
  "uncaught_v1 a = (case a of Inl (e, s) \<Rightarrow> Stop (Crash (C_Exn e)) s | Inr r \<Rightarrow> r)"

text \<open>index2.js lines 73-110. A failed call is reported by \<open>getGroqChatCompletion\<close>
  and again by the outer \<open>catch\<close>; an absent or empty content (\<open>!result\<close>) and a
  reply that does not parse end \<open>main\<close> with a report; every exception of the
  dispatch is caught and ends \<open>main\<close>.\<close>

definition step_v2 :: "api \<Rightarrow> agent \<Rightarrow> step_res" where
  "step_v2 api s =
     (let s1 = s\<lparr>calls := Suc (calls s)\<rparr> in
      case api (calls s) (request_v2 (msgs s)) of
        Api_Error \<Rightarrow> Stop Main_Return (emit (Ev_Err E_Processing) (emit (Ev_Err E_Api_Call) s1))
      | Api_Ok chs \<Rightarrow>
          (case first_content chs of
             None \<Rightarrow> Stop Main_Return (emit (Ev_Err E_No_Content) s1)
           | Some result \<Rightarrow>
               (if result = [] then Stop Main_Return (emit (Ev_Err E_No_Content) s1)
                else
                  (let s2 = push (msg Assistant result) s1 in
                   case json_parse result of
                     Inl err \<Rightarrow>
                       (if err = J_Unrepresentable then Stop Unmodelled s2
                        else Stop Main_Return (emit (Ev_Err (E_Parse result)) s2))
                   | Inr call \<Rightarrow> catch_v2 (act_v2 call s2)))))"

text \<open>index.js lines 67-86. Nothing is caught: a rejected call, a reply without
  choices (\<open>chat.choices[0].message\<close>), a reply that does not parse and every
  exception of the dispatch end the process. A \<open>null\<close> content is appended as it
  is and parsed as the text \<open>null\<close>.\<close>

definition step_v1 :: "api \<Rightarrow> agent \<Rightarrow> step_res" where
  "step_v1 api s =
     (let s1 = s\<lparr>calls := Suc (calls s)\<rparr> in
      case api (calls s) (request_v1 (msgs s)) of
        Api_Error \<Rightarrow> Stop (Crash C_Api_Rejected) s1
      | Api_Ok chs \<Rightarrow>
          (case chs of
             [] \<Rightarrow> Stop (Crash (C_Exn TypeError)) s1
           | c # _ \<Rightarrow>
               (let s2 = push \<lparr>role = Assistant, content = c\<rparr> s1 in
                case json_parse (case c of None \<Rightarrow> ''null'' | Some t \<Rightarrow> t) of
                  Inl err \<Rightarrow>
                    (if err = J_Unrepresentable then Stop Unmodelled s2
                     else Stop (Crash (C_Exn SyntaxError)) s2)
                | Inr call \<Rightarrow> uncaught_v1 (act_v1 call s2))))"

subsection \<open>The inner loop\<close>

partial_function (option) exchange :: "(agent \<Rightarrow> step_res) \<Rightarrow> agent \<Rightarrow> (outcome \<times> agent) option" where
  "exchange step s = (case step s of Continue s' \<Rightarrow> exchange step s' | Stop r s' \<Rightarrow> Some (r, s'))"

declare exchange.simps [code]

text \<open>The same loop with a bound on its iterations, for reasoning about termination.\<close>

fun exchange_fuel :: "nat \<Rightarrow> (agent \<Rightarrow> step_res) \<Rightarrow> agent \<Rightarrow> (outcome \<times> agent) option" where
  "exchange_fuel 0 step s = None"
| "exchange_fuel (Suc n) step s =
     (case step s of Continue s' \<Rightarrow> exchange_fuel n step s' | Stop r s' \<Rightarrow> Some (r, s'))"

subsection \<open>The outer loop\<close>

text \<open>Reading a line at the prompt and appending it as a user envelope
  (index.js 59-64, index2.js 65-70); index2.js's reset of the history to its first
  message after an exchange that printed an output (line 112).\<close>

definition begin_turn :: "jstr \<Rightarrow> agent \<Rightarrow> agent" where
  "begin_turn q s = push (msg User (user_envelope q)) (emit (Ev_Read q) s)"

definition reset_history :: "agent \<Rightarrow> agent" where
  "reset_history s = s\<lparr>msgs := take 1 (msgs s)\<rparr>"

datatype session_end = Waiting | Ended outcome

text \<open>The outer loop over the lines the operator types: after the last one the
  process waits at the prompt.\<close>

fun session_v1 :: "api \<Rightarrow> jstr list \<Rightarrow> agent \<Rightarrow> (session_end \<times> agent) option" where
  "session_v1 api [] s = Some (Waiting, s)"
| "session_v1 api (q # qs) s =
     (case exchange (step_v1 api) (begin_turn q s) of
        None \<Rightarrow> None
      | Some (r, s') \<Rightarrow> (if r = Done then session_v1 api qs s' else Some (Ended r, s')))"

fun session_v2 :: "api \<Rightarrow> jstr list \<Rightarrow> agent \<Rightarrow> (session_end \<times> agent) option" where
  "session_v2 api [] s = Some (Waiting, s)"
| "session_v2 api (q # qs) s =
     (case exchange (step_v2 api) (begin_turn q s) of
        None \<Rightarrow> None
      | Some (r, s') \<Rightarrow> (if r = Done then session_v2 api qs (reset_history s') else Some (Ended r, s')))"

text \<open>index2.js line 116: \<open>main().catch((error) => console.error("Error:", error))\<close>.
  \<open>main\<close> starts from the history of lines 60-62. Its promise stays pending while
  the process waits at the prompt and resolves when \<open>main\<close> returns; when an
  exception escapes \<open>main\<close> the promise rejects and the handler reports it.\<close>

definition main_v2 :: "api \<Rightarrow> jstr list \<Rightarrow> (session_end \<times> agent) option" where
  "main_v2 api qs =
     (case session_v2 api qs init_v2 of
        Some (Ended (Crash c), s) \<Rightarrow> Some (Ended (Crash c), emit (Ev_Err E_Uncaught) s)
      | r \<Rightarrow> r)"

subsection \<open>Frame predicates\<close>

text \<open>\<open>grows s s'\<close>: \<open>s'\<close> only appended to the history and to the trace of
  \<open>s\<close> and made no completion call; \<open>extends\<close> allows calls.\<close>

definition grows :: "agent \<Rightarrow> agent \<Rightarrow> bool" where
  "grows s s' \<longleftrightarrow> (\<exists>ms. msgs s' = msgs s @ ms) \<and> (\<exists>es. trace s' = trace s @ es) \<and> calls s' = calls s"

definition extends :: "agent \<Rightarrow> agent \<Rightarrow> bool" where
  "extends s s' \<longleftrightarrow> (\<exists>ms. msgs s' = msgs s @ ms) \<and> (\<exists>es. trace s' = trace s @ es) \<and> calls s \<le> calls s'"

fun res_agent :: "step_res \<Rightarrow> agent" where
  "res_agent (Continue s) = s"
| "res_agent (Stop r s) = s"

fun act_agent :: "(js_exn \<times> agent) + step_res \<Rightarrow> agent" where
  "act_agent (Inl (e, s)) = s"
| "act_agent (Inr r) = res_agent r"

text \<open>\<open>appends P Q s t\<close>: \<open>t\<close> only appended to the history of \<open>s\<close> messages that
  satisfy \<open>P\<close> and to its trace events that satisfy \<open>Q\<close>.\<close>

definition appends :: "(message \<Rightarrow> bool) \<Rightarrow> (event \<Rightarrow> bool) \<Rightarrow> agent \<Rightarrow> agent \<Rightarrow> bool" where
  "appends P Q s t \<longleftrightarrow>
     (\<exists>ms. msgs t = msgs s @ ms \<and> list_all P ms) \<and> (\<exists>es. trace t = trace s @ es \<and> list_all Q es)"

fun is_read :: "event \<Rightarrow> bool" where
  "is_read (Ev_Read q) = True"
| "is_read e = False"

text \<open>What a step may append: no user message and no line read at the prompt.\<close>

abbreviation step_appends :: "agent \<Rightarrow> agent \<Rightarrow> bool" where
  "step_appends \<equiv> appends (\<lambda>m. role m \<noteq> User) (\<lambda>e. \<not> is_read e)"

subsection \<open>Lemmas: the exchange loop and its fuelled version\<close>

lemma exchange_fuel_sound:
  "exchange_fuel n step s = Some r \<Longrightarrow> exchange step s = Some r"
proof (induction n arbitrary: s)
  case 0
  then show ?case by simp
next
  case (Suc n)
  show ?case
  proof (cases "step s")
    case (Continue s')
    with Suc show ?thesis by (simp add: exchange.simps)
  next
    case (Stop r' s')
    with Suc.prems show ?thesis by (simp add: exchange.simps)
  qed
qed

lemma exchange_fuel_complete:
  assumes "exchange step s = Some r"
  shows "\<exists>n. exchange_fuel n step s = Some r"
proof (rule exchange.raw_induct [where P = "\<lambda>step s r. \<exists>n. exchange_fuel n step s = Some r", OF _ assms])
  fix ex :: "(agent \<Rightarrow> step_res) \<Rightarrow> agent \<Rightarrow> (outcome \<times> agent) option" and step s r
  assume IH: "\<And>step s r. ex step s = Some r \<Longrightarrow> \<exists>n. exchange_fuel n step s = Some r"
    and eq: "(case step s of Continue s' \<Rightarrow> ex step s' | Stop r s' \<Rightarrow> Some (r, s')) = Some r"
  show "\<exists>n. exchange_fuel n step s = Some r"
  proof (cases "step s")
    case (Continue s')
    with eq have "ex step s' = Some r" by simp
    then obtain n where "exchange_fuel n step s' = Some r" using IH by blast
    with Continue have "exchange_fuel (Suc n) step s = Some r" by simp
    then show ?thesis ..
  next
    case (Stop r' s')
    with eq have "exchange_fuel 1 step s = Some r" by simp
    then show ?thesis ..
  qed
qed

lemma exchange_Some_iff: "exchange step s = Some r \<longleftrightarrow> (\<exists>n. exchange_fuel n step s = Some r)"
  using exchange_fuel_sound exchange_fuel_complete by blast

text \<open>An invariant under which every step continues makes the loop run forever.\<close>

lemma exchange_fuel_None_inv:
  assumes "P s" and "\<And>s. P s \<Longrightarrow> \<exists>s'. step s = Continue s' \<and> P s'"
  shows "exchange_fuel n step s = None"
  using assms(1)
proof (induction n arbitrary: s)
  case 0
  then show ?case by simp
next
  case (Suc n)
  from assms(2)[OF Suc.prems] obtain s' where "step s = Continue s'" "P s'" by blast
  with Suc.IH show ?case by simp
qed

lemma exchange_None_inv:
  assumes "P s" and "\<And>s. P s \<Longrightarrow> \<exists>s'. step s = Continue s' \<and> P s'"
  shows "exchange step s = None"
proof (rule ccontr)
  assume "exchange step s \<noteq> None"
  then obtain r where "exchange step s = Some r" by blast
  then obtain n where "exchange_fuel n step s = Some r" using exchange_fuel_complete by blast
  with exchange_fuel_None_inv[OF assms] show False by simp
qed

text \<open>A relation that every step establishes between a state and its successor, and
  that composes, holds between the start and the end of a finished exchange (which
  made at least one step, so the relation need not be reflexive).\<close>

lemma exchange_fuel_rel:
  assumes step: "\<And>s. R s (res_agent (step s))"
    and trans: "\<And>s t u. R s t \<Longrightarrow> R t u \<Longrightarrow> R s u"
  shows "exchange_fuel n step s = Some (r, s') \<Longrightarrow> R s s'"
proof (induction n arbitrary: s)
  case 0
  then show ?case by simp
next
  case (Suc n)
  show ?case
  proof (cases "step s")
    case (Continue t)
    with Suc.prems have "exchange_fuel n step t = Some (r, s')" by simp
    then have "R t s'" by (rule Suc.IH)
    moreover from step[of s] Continue have "R s t" by simp
    ultimately show ?thesis using trans by blast
  next
    case (Stop r' t)
    with Suc.prems step[of s] show ?thesis by simp
  qed
qed

lemma exchange_rel:
  assumes "\<And>s. R s (res_agent (step s))"
    and "\<And>s t u. R s t \<Longrightarrow> R t u \<Longrightarrow> R s u"
    and "exchange step s = Some (r, s')"
  shows "R s s'"
proof -
  obtain n where "exchange_fuel n step s = Some (r, s')"
    using assms(3) exchange_fuel_complete by blast
  then show ?thesis
    using assms(1-2) by (rule exchange_fuel_rel[rotated 2])
qed

text \<open>A property of every outcome with which a step stops holds of the outcome of a
  finished exchange.\<close>

lemma exchange_outcome:
  assumes "\<And>s r s'. step s = Stop r s' \<Longrightarrow> P r" and "exchange step s = Some (r, s')"
  shows "P r"
proof -
  obtain n where "exchange_fuel n step s = Some (r, s')"
    using assms(2) exchange_fuel_complete by blast
  then show ?thesis
  proof (induction n arbitrary: s)
    case (Suc n)
    then show ?case using assms(1) by (auto split: step_res.splits)
  qed simp
qed

subsection \<open>Lemmas: what one step changes\<close>

lemma grows_refl [simp]: "grows s s"
  by (auto simp: grows_def)

lemma grows_push [simp]: "grows s t \<Longrightarrow> grows s (push m t)"
  by (auto simp: grows_def push_def)

lemma grows_emit [simp]: "grows s t \<Longrightarrow> grows s (emit e t)"
  by (auto simp: grows_def emit_def)

lemma grows_push_left: "grows (push m s) t \<Longrightarrow> grows s t"
  by (auto simp: grows_def push_def)

lemma extends_refl [simp]: "extends s s"
  by (auto simp: extends_def)

lemma extends_trans: "extends s t \<Longrightarrow> extends t u \<Longrightarrow> extends s u"
  by (fastforce simp: extends_def)

lemma act_v2_grows: "grows s (act_agent (act_v2 call s))"
  by (auto simp: act_v2_def Let_def split: sum.splits)

lemma act_v1_grows: "grows s (act_agent (act_v1 call s))"
  by (auto simp: act_v1_def Let_def split: sum.splits)

lemma catch_v2_grows: "grows s (act_agent a) \<Longrightarrow> grows s (res_agent (catch_v2 a))"
  by (auto simp: catch_v2_def split: sum.splits)

lemma uncaught_v1_grows: "grows s (act_agent a) \<Longrightarrow> grows s (res_agent (uncaught_v1 a))"
  by (auto simp: uncaught_v1_def split: sum.splits)

lemma step_v2_grows: "grows (s\<lparr>calls := Suc (calls s)\<rparr>) (res_agent (step_v2 api s))"
proof -
  have act: "grows s1 (res_agent (catch_v2 (act_v2 call (push m s1))))" for s1 call m
    using act_v2_grows[of "push m s1" call] by (auto dest: grows_push_left intro: catch_v2_grows)
  show ?thesis
    by (auto simp: step_v2_def Let_def act split: api_reply.splits option.splits sum.splits)
qed

lemma step_v1_grows: "grows (s\<lparr>calls := Suc (calls s)\<rparr>) (res_agent (step_v1 api s))"
proof -
  have act: "grows s1 (res_agent (uncaught_v1 (act_v1 call (push m s1))))" for s1 call m
    using act_v1_grows[of "push m s1" call] by (auto dest: grows_push_left intro: uncaught_v1_grows)
  show ?thesis
    by (auto simp: step_v1_def Let_def act split: api_reply.splits list.splits sum.splits)
qed

lemma grows_calls_extends: "grows (s\<lparr>calls := Suc (calls s)\<rparr>) t \<Longrightarrow> extends s t"
  by (auto simp: grows_def extends_def)

lemma step_v2_extends: "extends s (res_agent (step_v2 api s))"
  by (rule grows_calls_extends[OF step_v2_grows])

lemma step_v1_extends: "extends s (res_agent (step_v1 api s))"
  by (rule grows_calls_extends[OF step_v1_grows])

lemma step_v2_calls [simp]: "calls (res_agent (step_v2 api s)) = Suc (calls s)"
  using step_v2_grows[of s api] by (simp add: grows_def)

lemma step_v1_calls [simp]: "calls (res_agent (step_v1 api s)) = Suc (calls s)"
  using step_v1_grows[of s api] by (simp add: grows_def)


subsection \<open>Lemmas: what a step appends\<close>

lemma appends_refl [simp]: "appends P Q s s"
  by (auto simp: appends_def)

lemma appends_trans: "appends P Q s t \<Longrightarrow> appends P Q t u \<Longrightarrow> appends P Q s u"
  by (fastforce simp: appends_def)

lemma appends_push [simp]: "P m \<Longrightarrow> appends P Q s t \<Longrightarrow> appends P Q s (push m t)"
  by (auto simp: appends_def push_def)

lemma appends_emit [simp]: "Q e \<Longrightarrow> appends P Q s t \<Longrightarrow> appends P Q s (emit e t)"
  by (auto simp: appends_def emit_def)

lemma appends_calls [simp]: "appends P Q (s\<lparr>calls := n\<rparr>) t \<longleftrightarrow> appends P Q s t"
  by (simp add: appends_def)

lemma appends_calls_right [simp]: "appends P Q s (s\<lparr>calls := n\<rparr>)"
  by (simp add: appends_def)

lemma appends_push_left: "appends P Q (push m s) t \<Longrightarrow> P m \<Longrightarrow> appends P Q s t"
  using appends_trans[of P Q s "push m s" t] by simp

text \<open>index2.js appends only assistant messages with a content; the lemmas on it are
  stated for every property \<open>P\<close> such messages have.\<close>

lemma act_v2_appends:
  "(\<And>t. P (msg Assistant t)) \<Longrightarrow> appends P (\<lambda>e. \<not> is_read e) s (act_agent (act_v2 call s))"
  by (auto simp: act_v2_def Let_def split: sum.splits)

lemma act_v1_appends: "step_appends s (act_agent (act_v1 call s))"
  by (auto simp: act_v1_def Let_def msg_def split: sum.splits)

lemma catch_v2_appends:
  "appends P (\<lambda>e. \<not> is_read e) s (act_agent a) \<Longrightarrow> appends P (\<lambda>e. \<not> is_read e) s (res_agent (catch_v2 a))"
  by (auto simp: catch_v2_def split: sum.splits)

lemma uncaught_v1_appends: "step_appends s (act_agent a) \<Longrightarrow> step_appends s (res_agent (uncaught_v1 a))"
  by (auto simp: uncaught_v1_def split: sum.splits)

lemma step_v2_appends_msgs:
  assumes P: "\<And>t. P (msg Assistant t)"
  shows "appends P (\<lambda>e. \<not> is_read e) s (res_agent (step_v2 api s))"
proof -
  have act: "appends P (\<lambda>e. \<not> is_read e) s
               (res_agent (catch_v2 (act_v2 call (push (msg Assistant t) (s\<lparr>calls := n\<rparr>)))))"
    for call t n
    using catch_v2_appends[OF appends_push_left[OF act_v2_appends[of P "push (msg Assistant t) (s\<lparr>calls := n\<rparr>)" call, OF P]]]
      P by simp
  show ?thesis
    using P by (auto simp: step_v2_def Let_def act split: api_reply.splits option.splits sum.splits)
qed

lemma step_v2_appends: "step_appends s (res_agent (step_v2 api s))"
  by (rule step_v2_appends_msgs) simp

lemma step_v1_appends: "step_appends s (res_agent (step_v1 api s))"
proof -
  have act: "step_appends s (res_agent (uncaught_v1 (act_v1 call (push \<lparr>role = Assistant, content = c\<rparr> (s\<lparr>calls := n\<rparr>)))))"
    for call c n
    using uncaught_v1_appends[OF appends_push_left[OF
        act_v1_appends[of "push \<lparr>role = Assistant, content = c\<rparr> (s\<lparr>calls := n\<rparr>)" call]]]
    by simp
  show ?thesis
    by (auto simp: step_v1_def Let_def act split: api_reply.splits list.splits sum.splits)
qed

lemma exchange_appends:
  "(\<And>s. appends P Q s (res_agent (step s))) \<Longrightarrow> exchange step s = Some (r, s') \<Longrightarrow> appends P Q s s'"
  by (rule exchange_rel[where R = "appends P Q"]) (auto intro: appends_trans)

lemmas exchange_v2_appends = exchange_appends[OF step_v2_appends]
lemmas exchange_v1_appends = exchange_appends[OF step_v1_appends]

subsection \<open>Lemmas: how index2.js's exchange ends\<close>

text \<open>Every exception of the dispatch is caught (lines 107-110), so a step of
  index2.js stops only by printing the output, by returning from \<open>main\<close>, or on a
  reply the model cannot represent.\<close>

lemma act_v2_stops: "act_v2 call s = Inr (Stop r s') \<Longrightarrow> r = Done \<or> r = Main_Return"
  by (auto simp: act_v2_def Let_def split: sum.splits if_splits)

lemma step_v2_stops: "step_v2 api s = Stop r s' \<Longrightarrow> r = Done \<or> r = Main_Return \<or> r = Unmodelled"
  by (auto simp: step_v2_def Let_def catch_v2_def dest: act_v2_stops
      split: api_reply.splits option.splits sum.splits if_splits)

lemma exchange_v2_stops:
  "exchange (step_v2 api) s = Some (r, s') \<Longrightarrow> r = Done \<or> r = Main_Return \<or> r = Unmodelled"
  by (rule exchange_outcome[OF step_v2_stops])

lemma session_v2_ends:
  "session_v2 api qs s = Some (Ended r, s') \<Longrightarrow> r = Main_Return \<or> r = Unmodelled"
proof (induction qs arbitrary: s)
  case (Cons q qs)
  then show ?case
    by (auto dest: exchange_v2_stops split: option.splits if_splits)
qed simp

subsection \<open>Lemmas: how index.js's history grows\<close>

text \<open>A step of index.js that prints the output has appended the reply, and a step
  that asks again only appended: an exchange that prints an output leaves a longer
  history.\<close>

lemma act_v1_Done: "act_v1 call s = Inr (Stop Done s') \<Longrightarrow> msgs s' = msgs s"
  by (auto simp: act_v1_def Let_def emit_def split: sum.splits if_splits)

lemma step_v1_Done: "step_v1 api s = Stop Done s' \<Longrightarrow> length (msgs s') = Suc (length (msgs s))"
  by (auto simp: step_v1_def Let_def uncaught_v1_def push_def dest!: act_v1_Done
      split: api_reply.splits list.splits sum.splits if_splits)

lemma step_v1_Continue_msgs: "step_v1 api s = Continue s' \<Longrightarrow> length (msgs s) \<le> length (msgs s')"
  using step_v1_extends[of s api] by (auto simp: extends_def)

lemma exchange_v1_Done_grows:
  assumes "exchange (step_v1 api) s = Some (Done, s')"
  shows "length (msgs s) < length (msgs s')"
proof -
  obtain n where "exchange_fuel n (step_v1 api) s = Some (Done, s')"
    using assms exchange_fuel_complete by blast
  then show ?thesis
  proof (induction n arbitrary: s)
    case (Suc n)
    then show ?case
      by (fastforce dest: step_v1_Done step_v1_Continue_msgs split: step_res.splits)
  qed simp
qed

lemma begin_turn_length [simp]: "length (msgs (begin_turn q s)) = Suc (length (msgs s))"
  by (simp add: begin_turn_def push_def emit_def)

end
