(* ===== verification/Agent_Spec.thy ===== *)
theory Agent_Spec
  imports Agent_Loop
begin

text \<open>
  The protocol the conversation loop is meant to follow (spec sections 3 and 4.3), as
  an abstract specification, and the theorems that relate the two programs to it.

  An assistant reply is meant to be one envelope of the tagged union \<open>envelope\<close>
  (\<open>user\<close>, \<open>plan\<close>, \<open>action\<close>, \<open>observation\<close>, \<open>output\<close>); \<open>decode_envelope\<close>
  reads a parsed reply as such an envelope when it has the \<open>type\<close> tag and the
  string fields the variant needs. \<open>spec_dispatch_v2\<close> and \<open>spec_dispatch_v1\<close> say
  what each program promises for a decoded envelope: print the output and stop, run
  the tool and append its observation, report an unknown tool (index2.js) or crash
  (index.js), and otherwise go on asking the model. The refinement theorems show that
  one step of each loop is exactly that dispatch after the reply has been appended,
  whenever the named tool is the registered one or no member of the registry at all.
  The other theorems are the error paths (a reply that is not JSON), the termination
  of an exchange once the model gives a final reply, the exchange that never ends when
  the model only plans, and the request of index.js that lacks the field the
  endpoint's wire contract requires.
\<close>

subsection \<open>Envelopes\<close>

datatype envelope =
    Env_User jstr
  | Env_Plan jstr
  | Env_Action jstr jstr
  | Env_Observation jstr
  | Env_Output jstr

definition str_field :: "(jstr \<times> js) list \<Rightarrow> jstr \<Rightarrow> jstr option" where
  "str_field kvs k = (case map_of kvs k of Some (JStr x) \<Rightarrow> Some x | _ \<Rightarrow> None)"

fun decode_envelope :: "js \<Rightarrow> envelope option" where
  "decode_envelope (JObj kvs) =
     (case str_field kvs ''type'' of
        None \<Rightarrow> None
      | Some ty \<Rightarrow>
          (if ty = ''user'' then map_option Env_User (str_field kvs ''user'')
           else if ty = ''plan'' then map_option Env_Plan (str_field kvs ''plan'')
           else if ty = ''action'' then
             (case (str_field kvs ''function'', str_field kvs ''input'') of
                (Some f, Some i) \<Rightarrow> Some (Env_Action f i)
              | _ \<Rightarrow> None)
           else if ty = ''observation'' then map_option Env_Observation (str_field kvs ''observation'')
           else if ty = ''output'' then map_option Env_Output (str_field kvs ''output'')
           else None))"
| "decode_envelope v = None"

text \<open>The envelope a reply text carries: JSON.parse, then the decoder.\<close>

definition reply_env :: "jstr \<Rightarrow> envelope option" where
  "reply_env t = (case json_parse t of Inl e \<Rightarrow> None | Inr v \<Rightarrow> decode_envelope v)"

text \<open>The fields an object must carry to decode as a given envelope.\<close>

fun env_fields :: "envelope \<Rightarrow> (jstr \<times> js) list \<Rightarrow> bool" where
  "env_fields (Env_User u) kvs \<longleftrightarrow> str_field kvs ''type'' = Some ''user'' \<and> str_field kvs ''user'' = Some u"
| "env_fields (Env_Plan p) kvs \<longleftrightarrow> str_field kvs ''type'' = Some ''plan'' \<and> str_field kvs ''plan'' = Some p"
| "env_fields (Env_Action f i) kvs \<longleftrightarrow>
     str_field kvs ''type'' = Some ''action'' \<and> str_field kvs ''function'' = Some f \<and> str_field kvs ''input'' = Some i"
| "env_fields (Env_Observation ob) kvs \<longleftrightarrow>
     str_field kvs ''type'' = Some ''observation'' \<and> str_field kvs ''observation'' = Some ob"
| "env_fields (Env_Output ob) kvs \<longleftrightarrow> str_field kvs ''type'' = Some ''output'' \<and> str_field kvs ''output'' = Some ob"

subsection \<open>The abstract dispatch\<close>

text \<open>The tool's answer as its contract gives it (theory \<open>Weather_Tool\<close>).\<close>

definition weather_answer_v2 :: "jstr \<Rightarrow> jstr" where
  "weather_answer_v2 i = (case ci_lookup weather_table_v2 i of Some t \<Rightarrow> t | None \<Rightarrow> not_available_msg)"

definition weather_answer_v1 :: "jstr \<Rightarrow> js" where
  "weather_answer_v1 i = (case ci_lookup weather_table_v1 i of Some t \<Rightarrow> JStr t | None \<Rightarrow> JUndef)"

text \<open>An action names the registered tool, or a name that is no member of the registry
  (neither the tool nor an inherited member of \<open>Object.prototype\<close>).\<close>

fun registry_closed :: "envelope \<Rightarrow> bool" where
  "registry_closed (Env_Action f i) \<longleftrightarrow> f = ''getWeatherDetails'' \<or> tools_get tools_v2 f = Tool_Undefined"
| "registry_closed env \<longleftrightarrow> True"

text \<open>index2.js's promise for one decoded reply, after the reply is appended.\<close>

definition spec_dispatch_v2 :: "envelope \<Rightarrow> agent \<Rightarrow> step_res" where
  "spec_dispatch_v2 env s =
     (case env of
        Env_Output out \<Rightarrow> Stop Done (emit (Ev_Log (''Bot: '' @ out)) s)
      | Env_Action f i \<Rightarrow>
          (if f = ''getWeatherDetails'' then
             Continue (push (msg Assistant (obs_envelope (JStr (weather_answer_v2 i))))
                        (emit (Ev_Tool Tool_Weather (JStr i)) s))
           else Stop Main_Return (emit (Ev_Err (E_Fn_Not_Found f)) s))
      | _ \<Rightarrow> Continue s)"

text \<open>index.js's promise: the same protocol, printed with \<open>bot:\<close>, the observation
  appended as a \<open>developer\<close> message, an unknown tool ending the process.\<close>

definition spec_dispatch_v1 :: "envelope \<Rightarrow> agent \<Rightarrow> step_res" where
  "spec_dispatch_v1 env s =
     (case env of
        Env_Output out \<Rightarrow> Stop Done (emit (Ev_Log (''bot: '' @ out)) s)
      | Env_Action f i \<Rightarrow>
          (if f = ''getWeatherDetails'' then
             Continue (push (msg Developer (obs_envelope (weather_answer_v1 i)))
                        (emit (Ev_Tool Tool_Weather (JStr i)) s))
           else Stop (Crash (C_Exn TypeError)) s)
      | _ \<Rightarrow> Continue s)"

subsection \<open>Replies that end or stall an exchange\<close>

text \<open>A reply after which index2.js's loop stops whatever the state: a failed call, no
  or empty content, a text that does not parse, an output envelope.\<close>

definition final_reply_v2 :: "api_reply \<Rightarrow> bool" where
  "final_reply_v2 r =
     (case r of
        Api_Error \<Rightarrow> True
      | Api_Ok chs \<Rightarrow>
          (case first_content chs of
             None \<Rightarrow> True
           | Some t \<Rightarrow>
               t = [] \<or>
               (case json_parse t of
                  Inl e \<Rightarrow> True
                | Inr v \<Rightarrow> (case decode_envelope v of Some (Env_Output out) \<Rightarrow> True | _ \<Rightarrow> False))))"

text \<open>The same for index.js: a failed call, a reply without choices, a \<open>null\<close>
  content (parsed as the text \<open>null\<close>, whose \<open>type\<close> cannot be read), a text that
  does not parse, an output envelope.\<close>

definition final_reply_v1 :: "api_reply \<Rightarrow> bool" where
  "final_reply_v1 r =
     (case r of
        Api_Error \<Rightarrow> True
      | Api_Ok [] \<Rightarrow> True
      | Api_Ok (None # _) \<Rightarrow> True
      | Api_Ok (Some t # _) \<Rightarrow>
          (case json_parse t of
             Inl e \<Rightarrow> True
           | Inr v \<Rightarrow> (case decode_envelope v of Some (Env_Output out) \<Rightarrow> True | _ \<Rightarrow> False)))"

text \<open>A text that parses to an envelope on which the loop only asks again.\<close>

definition stalling_text :: "jstr \<Rightarrow> bool" where
  "stalling_text t =
     (case json_parse t of
        Inl e \<Rightarrow> False
      | Inr v \<Rightarrow>
          (case decode_envelope v of
             Some (Env_Plan p) \<Rightarrow> True
           | Some (Env_User u) \<Rightarrow> True
           | Some (Env_Observation ob) \<Rightarrow> True
           | _ \<Rightarrow> False))"

text \<open>An endpoint that enforces its wire contract: a request without the field
  \<open>messages\<close> fails.\<close>

definition enforces_messages :: "api \<Rightarrow> bool" where
  "enforces_messages api \<longleftrightarrow> (\<forall>n req. req_messages req = None \<longrightarrow> api n req = Api_Error)"

subsection \<open>Sample replies\<close>

definition sample_action :: jstr where
  \<open>sample_action = ''{"type": "action", "function": "getWeatherDetails", "input": "Delhi"}''\<close>

definition sample_plan :: jstr where
  \<open>sample_plan = ''{ "type": "plan", "plan": "I will call getWeatherDetails for Delhi." }''\<close>

definition sample_output :: jstr where
  \<open>sample_output = ''{"type": "output", "output": "It is 13 degrees in Delhi."}''\<close>

definition sample_prose :: jstr where
  "sample_prose = ''Sure, let me check the weather for you.''"

definition sample_state :: agent where
  "sample_state = \<lparr>msgs = [msg User (user_envelope ''Weather in Delhi?'')], calls = 0, trace = []\<rparr>"

subsection \<open>Lemmas\<close>

lemma str_field_Some_iff [simp]: "str_field kvs k = Some x \<longleftrightarrow> map_of kvs k = Some (JStr x)"
  by (auto simp: str_field_def split: option.splits js.splits)

lemma decode_envelope_SomeD:
  "decode_envelope v = Some env \<Longrightarrow> \<exists>kvs. v = JObj kvs \<and> env_fields env kvs"
  by (cases v rule: decode_envelope.cases) (auto split: option.splits if_splits simp del: str_field_Some_iff)

lemma act_v2_envelope:
  assumes "decode_envelope v = Some env" "registry_closed env"
  shows "catch_v2 (act_v2 v s) = spec_dispatch_v2 env s"
proof -
  from decode_envelope_SomeD[OF assms(1)] obtain kvs where
    v: "v = JObj kvs" and fs: "env_fields env kvs" by blast
  show ?thesis
  proof (cases env)
    case (Env_Action f i)
    with fs v assms(2) show ?thesis
      by (auto simp: act_v2_def catch_v2_def spec_dispatch_v2_def tools_lookup_def
          getWeatherDetails_v2_str weather_answer_v2_def)
  qed (use fs v in \<open>auto simp: act_v2_def catch_v2_def spec_dispatch_v2_def\<close>)
qed

lemma act_v1_envelope:
  assumes "decode_envelope v = Some env" "registry_closed env"
  shows "uncaught_v1 (act_v1 v s) = spec_dispatch_v1 env s"
proof -
  from decode_envelope_SomeD[OF assms(1)] obtain kvs where
    v: "v = JObj kvs" and fs: "env_fields env kvs" by blast
  show ?thesis
  proof (cases env)
    case (Env_Action f i)
    with fs v assms(2) show ?thesis
      by (auto simp: act_v1_def uncaught_v1_def spec_dispatch_v1_def tools_lookup_def
          getWeatherDetails_v1_str weather_answer_v1_def)
  qed (use fs v in \<open>auto simp: act_v1_def uncaught_v1_def spec_dispatch_v1_def\<close>)
qed

lemma reply_envE:
  assumes "reply_env t = Some env"
  obtains v where "json_parse t = Inr v" "decode_envelope v = Some env" "t \<noteq> []"
proof (cases "json_parse t")
  case (Inr v)
  with assms have "decode_envelope v = Some env" by (simp add: reply_env_def)
  moreover from Inr have "t \<noteq> []" by auto
  ultimately show ?thesis using Inr that by blast
qed (use assms in \<open>simp add: reply_env_def\<close>)

text \<open>One step of each program on a reply whose text carries an envelope.\<close>

lemma step_v2_reply:
  assumes "api (calls s) (request_v2 (msgs s)) = Api_Ok (Some t # chs)"
    and "reply_env t = Some env" and "registry_closed env"
  shows "step_v2 api s = spec_dispatch_v2 env (push (msg Assistant t) (s\<lparr>calls := Suc (calls s)\<rparr>))"
  using assms(2) by (rule reply_envE) (use assms in \<open>simp add: step_v2_def first_content_def act_v2_envelope\<close>)

lemma step_v1_reply:
  assumes "api (calls s) (request_v1 (msgs s)) = Api_Ok (Some t # chs)"
    and "reply_env t = Some env" and "registry_closed env"
  shows "step_v1 api s = spec_dispatch_v1 env (push (msg Assistant t) (s\<lparr>calls := Suc (calls s)\<rparr>))"
  using assms(2) by (rule reply_envE) (use assms in \<open>simp add: step_v1_def act_v1_envelope msg_def\<close>)

lemma exchange_terminates_at:
  assumes stop: "\<And>s. P (calls s) \<Longrightarrow> \<exists>r s'. step s = Stop r s'"
    and count: "\<And>s s'. step s = Continue s' \<Longrightarrow> calls s' = Suc (calls s)"
    and at: "P (calls s + k)"
  shows "\<exists>r. exchange step s = Some r"
  using at
proof (induction k arbitrary: s)
  case 0
  then obtain r s' where "step s = Stop r s'" using stop by fastforce
  then show ?case by (simp add: exchange.simps)
next
  case (Suc k)
  show ?case
  proof (cases "step s")
    case (Continue s')
    with count have "calls s' + k = calls s + Suc k" by simp
    with Suc.prems have "P (calls s' + k)" by simp
    then obtain r where "exchange step s' = Some r" using Suc.IH by blast
    with Continue show ?thesis by (simp add: exchange.simps)
  next
    case (Stop r s')
    then show ?thesis by (simp add: exchange.simps)
  qed
qed

text \<open>If replies that make a step stop come for ever more calls, the loop returns.\<close>

lemma exchange_returns_often_final:
  assumes stop: "\<And>s. \<forall>req. F (api (calls s) req) \<Longrightarrow> \<exists>r s'. step s = Stop r s'"
    and count: "\<And>s s'. step s = Continue s' \<Longrightarrow> calls s' = Suc (calls s)"
    and often: "\<forall>n. \<exists>k. \<forall>req. F (api (n + k) req)"
  shows "\<exists>r. exchange step s = Some r"
proof -
  from often obtain k where k: "\<forall>req. F (api (calls s + k) req)" by blast
  show ?thesis
    by (rule exchange_terminates_at[where P = "\<lambda>n. \<forall>req. F (api n req)"])
      (use stop count k in auto)
qed

lemma step_v2_Continue_calls: "step_v2 api s = Continue s' \<Longrightarrow> calls s' = Suc (calls s)"
  using step_v2_calls[of api s] by simp

lemma step_v2_final_stops:
  assumes "final_reply_v2 (api (calls s) (request_v2 (msgs s)))"
  shows "\<exists>r s'. step_v2 api s = Stop r s'"
proof (cases "api (calls s) (request_v2 (msgs s))")
  case (Api_Ok chs)
  show ?thesis
  proof (cases "\<exists>t v. first_content chs = Some t \<and> t \<noteq> [] \<and> json_parse t = Inr v")
    case True
    then obtain t v where t: "first_content chs = Some t" "t \<noteq> []" "json_parse t = Inr v" by blast
    with assms Api_Ok obtain out where "decode_envelope v = Some (Env_Output out)"
      by (auto simp: final_reply_v2_def split: option.splits envelope.splits)
    then have "catch_v2 (act_v2 v s2) = spec_dispatch_v2 (Env_Output out) s2" for s2
      by (simp add: act_v2_envelope)
    with Api_Ok t show ?thesis by (simp add: step_v2_def spec_dispatch_v2_def)
  next
    case False
    with Api_Ok show ?thesis by (auto simp: step_v2_def Let_def split: option.splits sum.splits)
  qed
qed (simp add: step_v2_def)

lemma null_parse: "json_parse ''null'' = Inr JNull"
  by code_simp

lemma step_v1_Continue_calls: "step_v1 api s = Continue s' \<Longrightarrow> calls s' = Suc (calls s)"
  using step_v1_calls[of api s] by simp

lemma step_v1_final_stops:
  assumes "final_reply_v1 (api (calls s) (request_v1 (msgs s)))"
  shows "\<exists>r s'. step_v1 api s = Stop r s'"
proof (cases "api (calls s) (request_v1 (msgs s))")
  case Api_Error
  then show ?thesis by (simp add: step_v1_def)
next
  case (Api_Ok chs)
  show ?thesis
  proof (cases chs)
    case Nil
    with Api_Ok show ?thesis by (simp add: step_v1_def)
  next
    case (Cons c cs)
    show ?thesis
    proof (cases c)
      case None
      with Api_Ok Cons show ?thesis
        by (simp add: step_v1_def null_parse act_v1_def uncaught_v1_def)
    next
      case (Some t)
      show ?thesis
      proof (cases "json_parse t")
        case (Inl e)
        with Api_Ok Cons Some show ?thesis by (simp add: step_v1_def Let_def)
      next
        case (Inr v)
        with assms Api_Ok Cons Some obtain out where "decode_envelope v = Some (Env_Output out)"
          by (auto simp: final_reply_v1_def split: option.splits envelope.splits)
        then have "uncaught_v1 (act_v1 v s2) = spec_dispatch_v1 (Env_Output out) s2" for s2
          by (simp add: act_v1_envelope)
        with Api_Ok Cons Some Inr show ?thesis by (simp add: step_v1_def spec_dispatch_v1_def)
      qed
    qed
  qed
qed

lemma sample_action_parse:
  "json_parse sample_action =
     Inr (JObj [(''type'', JStr ''action''), (''function'', JStr ''getWeatherDetails''), (''input'', JStr ''Delhi'')])"
  by (simp add: sample_action_def) code_simp

lemma sample_prose_parse: "json_parse sample_prose = Inl J_Syntax"
  by (simp add: sample_prose_def) code_simp

subsection \<open>Refinement\<close>

text \<open>C1: One step of index2.js's loop on a reply that decodes to an envelope, and whose
  action (if any) names the registered tool or no registry member, is the abstract dispatch of
  that envelope after the reply has been appended to the history.\<close>

theorem step_v2_refines:
  assumes "api (calls s) (request_v2 (msgs s)) = Api_Ok (Some t # chs)" and "t \<noteq> []"
    and "json_parse t = Inr v" and "decode_envelope v = Some env" and "registry_closed env"
  shows "step_v2 api s = spec_dispatch_v2 env (push (msg Assistant t) (s\<lparr>calls := Suc (calls s)\<rparr>))"
  using assms by (simp add: step_v2_def first_content_def act_v2_envelope)

theorem step_v2_refines_witness:
  "(\<lambda>n req. Api_Ok [Some sample_action]) (calls sample_state) (request_v2 (msgs sample_state)) =
      Api_Ok (Some sample_action # []) \<and> sample_action \<noteq> [] \<and>
   json_parse sample_action =
     Inr (JObj [(''type'', JStr ''action''), (''function'', JStr ''getWeatherDetails''), (''input'', JStr ''Delhi'')]) \<and>
   decode_envelope (JObj [(''type'', JStr ''action''), (''function'', JStr ''getWeatherDetails''), (''input'', JStr ''Delhi'')])
     = Some (Env_Action ''getWeatherDetails'' ''Delhi'') \<and>
   registry_closed (Env_Action ''getWeatherDetails'' ''Delhi'') \<and>
   step_v2 (\<lambda>n req. Api_Ok [Some sample_action]) sample_state =
     spec_dispatch_v2 (Env_Action ''getWeatherDetails'' ''Delhi'')
       (push (msg Assistant sample_action) (sample_state\<lparr>calls := Suc (calls sample_state)\<rparr>))"
proof -
  have d: "decode_envelope (JObj [(''type'', JStr ''action''), (''function'', JStr ''getWeatherDetails''), (''input'', JStr ''Delhi'')])
     = Some (Env_Action ''getWeatherDetails'' ''Delhi'')"
    by (simp add: str_field_def)
  have ne: "sample_action \<noteq> []" by (simp add: sample_action_def)
  show ?thesis
    using step_v2_refines[OF _ ne sample_action_parse d] d ne sample_action_parse by simp
qed

text \<open>C7: The same for index.js: one step on a decodable reply is index.js's abstract
  dispatch after the reply has been appended.\<close>

theorem step_v1_refines:
  assumes "api (calls s) (request_v1 (msgs s)) = Api_Ok (Some t # chs)"
    and "json_parse t = Inr v" and "decode_envelope v = Some env" and "registry_closed env"
  shows "step_v1 api s = spec_dispatch_v1 env (push (msg Assistant t) (s\<lparr>calls := Suc (calls s)\<rparr>))"
  using assms by (simp add: step_v1_def act_v1_envelope msg_def)

theorem step_v1_refines_witness:
  "(\<lambda>n req. Api_Ok [Some sample_action]) (calls sample_state) (request_v1 (msgs sample_state)) =
      Api_Ok (Some sample_action # []) \<and>
   json_parse sample_action =
     Inr (JObj [(''type'', JStr ''action''), (''function'', JStr ''getWeatherDetails''), (''input'', JStr ''Delhi'')]) \<and>
   decode_envelope (JObj [(''type'', JStr ''action''), (''function'', JStr ''getWeatherDetails''), (''input'', JStr ''Delhi'')])
     = Some (Env_Action ''getWeatherDetails'' ''Delhi'') \<and>
   registry_closed (Env_Action ''getWeatherDetails'' ''Delhi'') \<and>
   step_v1 (\<lambda>n req. Api_Ok [Some sample_action]) sample_state =
     spec_dispatch_v1 (Env_Action ''getWeatherDetails'' ''Delhi'')
       (push (msg Assistant sample_action) (sample_state\<lparr>calls := Suc (calls sample_state)\<rparr>))"
proof -
  have d: "decode_envelope (JObj [(''type'', JStr ''action''), (''function'', JStr ''getWeatherDetails''), (''input'', JStr ''Delhi'')])
     = Some (Env_Action ''getWeatherDetails'' ''Delhi'')"
    by (simp add: str_field_def)
  show ?thesis
    using step_v1_refines[OF _ sample_action_parse d] d sample_action_parse by simp
qed

subsection \<open>Error paths\<close>

text \<open>C14: A reply of index2.js's endpoint that is not JSON is appended, reported, and ends
  main; no tool runs and nothing is printed on the console log.\<close>

theorem step_v2_parse_error:
  assumes "api (calls s) (request_v2 (msgs s)) = Api_Ok (Some t # chs)" and "t \<noteq> []"
    and "json_parse t = Inl e" and "e \<noteq> J_Unrepresentable"
  shows "step_v2 api s =
    Stop Main_Return (emit (Ev_Err (E_Parse t)) (push (msg Assistant t) (s\<lparr>calls := Suc (calls s)\<rparr>)))"
  using assms by (simp add: step_v2_def first_content_def)

theorem step_v2_parse_error_witness:
  "(\<lambda>n req. Api_Ok [Some sample_prose]) (calls sample_state) (request_v2 (msgs sample_state)) =
      Api_Ok (Some sample_prose # []) \<and> sample_prose \<noteq> [] \<and>
   json_parse sample_prose = Inl J_Syntax \<and> J_Syntax \<noteq> J_Unrepresentable \<and>
   step_v2 (\<lambda>n req. Api_Ok [Some sample_prose]) sample_state =
     Stop Main_Return (emit (Ev_Err (E_Parse sample_prose))
       (push (msg Assistant sample_prose) (sample_state\<lparr>calls := Suc (calls sample_state)\<rparr>)))"
proof -
  have ne: "sample_prose \<noteq> []" by (simp add: sample_prose_def)
  show ?thesis using step_v2_parse_error[OF _ ne sample_prose_parse] ne sample_prose_parse by simp
qed

text \<open>C15: A reply of index.js's endpoint that is not JSON is appended and the uncaught
  SyntaxError ends the process; no tool runs and nothing is printed.\<close>

theorem step_v1_parse_error:
  assumes "api (calls s) (request_v1 (msgs s)) = Api_Ok (Some t # chs)"
    and "json_parse t = Inl e" and "e \<noteq> J_Unrepresentable"
  shows "step_v1 api s =
    Stop (Crash (C_Exn SyntaxError)) (push (msg Assistant t) (s\<lparr>calls := Suc (calls s)\<rparr>))"
  using assms by (simp add: step_v1_def msg_def)

theorem step_v1_parse_error_witness:
  "(\<lambda>n req. Api_Ok [Some sample_prose]) (calls sample_state) (request_v1 (msgs sample_state)) =
      Api_Ok (Some sample_prose # []) \<and>
   json_parse sample_prose = Inl J_Syntax \<and> J_Syntax \<noteq> J_Unrepresentable \<and>
   step_v1 (\<lambda>n req. Api_Ok [Some sample_prose]) sample_state =
     Stop (Crash (C_Exn SyntaxError))
       (push (msg Assistant sample_prose) (sample_state\<lparr>calls := Suc (calls sample_state)\<rparr>))"
  using step_v1_parse_error[OF _ sample_prose_parse] sample_prose_parse by simp

text \<open>Index.js sends its history under the key message, so its request has no
  messages field; index2.js's request carries exactly the history.\<close>

lemma request_messages_field:
  "req_messages (request_v1 ms) = None \<and> req_messages (request_v2 ms) = Some ms"
  by (simp add: request_v1_def request_v2_def)

text \<open>C16: Against an endpoint that enforces its wire contract, the first completion call of
  index.js is rejected and the uncaught rejection ends the process.\<close>

theorem exchange_v1_rejected:
  assumes "enforces_messages api"
  shows "exchange (step_v1 api) s = Some (Crash C_Api_Rejected, s\<lparr>calls := Suc (calls s)\<rparr>)"
proof -
  have "api (calls s) (request_v1 (msgs s)) = Api_Error"
    using assms by (simp add: enforces_messages_def request_v1_def)
  then show ?thesis by (simp add: exchange.simps step_v1_def)
qed

theorem exchange_v1_rejected_witness:
  "enforces_messages (\<lambda>n req. case req_messages req of None \<Rightarrow> Api_Error | Some ms \<Rightarrow> Api_Ok [Some sample_output]) \<and>
   exchange (step_v1 (\<lambda>n req. case req_messages req of None \<Rightarrow> Api_Error | Some ms \<Rightarrow> Api_Ok [Some sample_output]))
     sample_state = Some (Crash C_Api_Rejected, sample_state\<lparr>calls := Suc (calls sample_state)\<rparr>)"
proof -
  have h: "enforces_messages (\<lambda>n req. case req_messages req of None \<Rightarrow> Api_Error | Some ms \<Rightarrow> Api_Ok [Some sample_output])"
    by (simp add: enforces_messages_def)
  show ?thesis using h exchange_v1_rejected[OF h] by simp
qed

subsection \<open>Termination\<close>

text \<open>C17: If the reply to the k-th completion call from now is final, whatever the
  request, then index2.js's exchange returns.\<close>

theorem exchange_v2_terminates:
  assumes "\<forall>req. final_reply_v2 (api (calls s + k) req)"
  shows "\<exists>r. exchange (step_v2 api) s = Some r"
  by (rule exchange_terminates_at[where P = "\<lambda>n. \<forall>req. final_reply_v2 (api n req)"])
    (use assms step_v2_final_stops step_v2_Continue_calls in auto)

theorem exchange_v2_terminates_witness:
  "(\<forall>req. final_reply_v2 ((\<lambda>n req. Api_Ok [Some sample_output]) (calls sample_state + 0) req)) \<and>
   (\<exists>r. exchange (step_v2 (\<lambda>n req. Api_Ok [Some sample_output])) sample_state = Some r)"
proof -
  have h: "\<forall>req. final_reply_v2 ((\<lambda>n req. Api_Ok [Some sample_output]) (calls sample_state + 0) req)"
    by (simp add: final_reply_v2_def first_content_def sample_output_def) code_simp
  show ?thesis using h exchange_v2_terminates[OF h] by simp
qed

text \<open>C18: If the reply to the k-th completion call from now is final for index.js,
  whatever the request, then index.js's exchange returns (with an output printed or
  an uncaught error).\<close>

theorem exchange_v1_terminates:
  assumes "\<forall>req. final_reply_v1 (api (calls s + k) req)"
  shows "\<exists>r. exchange (step_v1 api) s = Some r"
  by (rule exchange_terminates_at[where P = "\<lambda>n. \<forall>req. final_reply_v1 (api n req)"])
    (use assms step_v1_final_stops step_v1_Continue_calls in auto)

theorem exchange_v1_terminates_witness:
  "(\<forall>req. final_reply_v1 ((\<lambda>n req. Api_Ok [None]) (calls sample_state + 0) req)) \<and>
   (\<exists>r. exchange (step_v1 (\<lambda>n req. Api_Ok [None])) sample_state = Some r)"
proof -
  have h: "\<forall>req. final_reply_v1 ((\<lambda>n req. Api_Ok [None]) (calls sample_state + 0) req)"
    by (simp add: final_reply_v1_def)
  show ?thesis using h exchange_v1_terminates[OF h] by simp
qed

text \<open>C19: If every reply parses to a plan, user or observation envelope, index2.js's
  exchange never returns: nothing bounds the inner loop.\<close>

theorem exchange_v2_stalls:
  assumes "\<forall>n req. \<exists>t chs. api n req = Api_Ok (Some t # chs) \<and> stalling_text t"
  shows "exchange (step_v2 api) s = None"
proof (rule exchange_None_inv[where P = "\<lambda>_. True"])
  fix s :: agent
  obtain t chs where r: "api (calls s) (request_v2 (msgs s)) = Api_Ok (Some t # chs)" and st: "stalling_text t"
    using assms by blast
  then obtain v env where "json_parse t = Inr v" "decode_envelope v = Some env"
    and "env \<in> range Env_Plan \<union> range Env_User \<union> range Env_Observation"
    by (auto simp: stalling_text_def split: sum.splits option.splits envelope.splits)
  moreover have "t \<noteq> []" using st by (auto simp: stalling_text_def json_parse_Nil)
  ultimately show "\<exists>s'. step_v2 api s = Continue s' \<and> True"
    using r by (auto simp: step_v2_def first_content_def act_v2_envelope spec_dispatch_v2_def)
qed simp

theorem exchange_v2_stalls_witness:
  "(\<forall>n req. \<exists>t chs. (\<lambda>n req. Api_Ok [Some sample_plan]) n req = Api_Ok (Some t # chs) \<and> stalling_text t) \<and>
   exchange (step_v2 (\<lambda>n req. Api_Ok [Some sample_plan])) sample_state = None"
proof -
  have st: "stalling_text sample_plan"
    by (simp add: stalling_text_def sample_plan_def) code_simp
  then have h: "\<forall>n req. \<exists>t chs. (\<lambda>n req. Api_Ok [Some sample_plan]) n req = Api_Ok (Some t # chs) \<and> stalling_text t"
    by blast
  show ?thesis using h exchange_v2_stalls[OF h] by simp
qed

end
