(* ===== verification/Legacy.thy ===== *)
theory Legacy
  imports Agent_Spec
begin

text \<open>
  The earlier version of index2.js, kept commented out in lines 119-234 of that file.
  It is not run; it is modelled because it is the code from which the spec's remark
  that one variant leaves the loop silently broken and the other aborts reads most
  directly, and because it shows how the three versions differ.

  Its tool looks the lower-cased city up in an object literal, \<open>weatherData\<close>,
  and answers with \<open>weatherData[key] || "Weather data not available for this city."\<close>
  (lines 129-138). The lookup also finds the members every object inherits from
  \<open>Object.prototype\<close>; since the key is lower-cased, only the two all-lower-case
  names \<open>constructor\<close> and \<open>__proto__\<close> can reach one. Its loop (lines 183-232) parses
  a reply before it appends it, appends observations with the role \<open>developer\<close>,
  leaves the exchange with \<open>break\<close> on every error instead of ending \<open>main\<close>, and
  never cuts its history.
\<close>

subsection \<open>The tool\<close>

text \<open>A value a property lookup can yield: a value of \<open>Js_Value\<close>, or a member
  inherited from \<open>Object.prototype\<close> (theory \<open>Weather_Tool\<close>).\<close>

datatype prop_val = PV_Js js | PV_Member tool_val

definition weatherData :: "(jstr \<times> jstr) list" where
  "weatherData =
     [(''patiala'', ''10'' @ deg_C), (''mohali'', ''12'' @ deg_C), (''bangalore'', ''15'' @ deg_C),
      (''chandigarh'', ''11'' @ deg_C), (''delhi'', ''13'' @ deg_C)]"

text \<open>\<open>obj[k]\<close> on an object literal with the own string properties \<open>own\<close>.\<close>

definition literal_get :: "(jstr \<times> jstr) list \<Rightarrow> jstr \<Rightarrow> prop_val" where
  "literal_get own k =
     (case map_of own k of
        Some t \<Rightarrow> PV_Js (JStr t)
      | None \<Rightarrow>
          (case map_of proto_members k of
             Some p \<Rightarrow> PV_Member (Tool_Proto p)
           | None \<Rightarrow> (if k = ''__proto__'' then PV_Member Proto_Object else PV_Js JUndef)))"

text \<open>ToBoolean: a function and an object are true.\<close>

fun js_truthy :: "js \<Rightarrow> bool" where
  "js_truthy JUndef = False"
| "js_truthy JNull = False"
| "js_truthy (JBool b) = b"
| "js_truthy (JNum l) = (number_to_string l \<noteq> ''0'')"
| "js_truthy (JStr s) = (s \<noteq> [])"
| "js_truthy (JArr vs) = True"
| "js_truthy (JObj kvs) = True"

fun truthy :: "prop_val \<Rightarrow> bool" where
  "truthy (PV_Js v) = js_truthy v"
| "truthy (PV_Member m) = True"

definition getWeatherDetails_v0 :: "js \<Rightarrow> js_exn + prop_val" where
  "getWeatherDetails_v0 arg =
     (case city_arg arg of
        Inl e \<Rightarrow> Inl e
      | Inr city \<Rightarrow>
          (let v = literal_get weatherData (js_to_lower city) in
           Inr (if truthy v then v else PV_Js (JStr not_available_msg))))"

text \<open>\<open>fn(call.input)\<close> for a member of \<open>tools = {getWeatherDetails}\<close>, which is
  the registry of theory \<open>Weather_Tool\<close>.\<close>

fun call_tool_v0 :: "tool_val \<Rightarrow> js \<Rightarrow> js_exn + prop_val" where
  "call_tool_v0 Tool_Weather v = getWeatherDetails_v0 v"
| "call_tool_v0 (Tool_Proto p) v = (case call_proto p v of Inl e \<Rightarrow> Inl e | Inr r \<Rightarrow> Inr (PV_Js r))"
| "call_tool_v0 Proto_Object v = Inl TypeError"
| "call_tool_v0 Tool_Undefined v = Inl TypeError"

text \<open>The observation as \<open>JSON.stringify\<close> sees it: a function serialises as
  \<open>undefined\<close> (its key is left out), \<open>Object.prototype\<close>, which has no enumerable
  own property, as \<open>{}\<close>.\<close>

fun obs_js :: "prop_val \<Rightarrow> js" where
  "obs_js (PV_Js v) = v"
| "obs_js (PV_Member Proto_Object) = JObj []"
| "obs_js (PV_Member m) = JUndef"

subsection \<open>The system prompt\<close>

definition system_prompt_v0 :: jstr where
  \<open>system_prompt_v0 = join_lines
    [[],
     ''You are an AI Assistant with START, PLAN, ACTION, Observation, and Output states.'',
     ''Wait for the user prompt and first PLAN using available tools.'',
     ''After planning, take the action with appropriate tools and wait for an Observation based on the action.'',
     ''Once you get the observations, return the AI response based on the START prompt and observations.'',
     [],
     ''Strictly follow the JSON output format as shown in the examples below.'',
     [],
     ''Available Tools:'',
     ''- function getWeatherDetails(city: string): string'',
     ''getWeatherDetails is a function that takes a city name as a string and returns weather details.'',
     [],
     ''EXAMPLE:'',
     [],
     ''START'',
     ''{ "type": "user", "user": "What is the weather in Patiala and Mohali?" }'',
     ''{ "type": "plan", "plan": "I will call getWeatherDetails for Patiala first." }'',
     ''{ "type": "action", "function": "getWeatherDetails", "input": "patiala" }'',
     ''{ "type": "observation", "observation": "10'' @ deg_C @ ''" }'',
     ''{ "type": "plan", "plan": "I will now call getWeatherDetails for Mohali." }'',
     ''{ "type": "action", "function": "getWeatherDetails", "input": "mohali" }'',
     ''{ "type": "observation", "observation": "12'' @ deg_C @ ''" }'',
     ''{ "type": "output", "output": "The weather in Patiala is 10'' @ deg_C @ '', and in Mohali is 12'' @ deg_C @ ''." }'',
     []]\<close>

text \<open>Lines 170-180: \<open>getGroqChatCompletion\<close> of the earlier version, which
  builds the request of index2.js.\<close>

definition request_v0 :: "message list \<Rightarrow> request" where
  "request_v0 ms = [F_Messages ms, F_Model ''llama-3.3-70b-versatile'']"

definition init_v0 :: agent where
  "init_v0 = \<lparr>msgs = [msg System system_prompt_v0], calls = 0, trace = []\<rparr>"

subsection \<open>The loop\<close>

text \<open>Lines 212-225: the dispatch; a name that is not a function is reported and
  the exchange is left.\<close>

definition act_v0 :: "js \<Rightarrow> agent \<Rightarrow> (js_exn \<times> agent) + step_res" where
  "act_v0 call s =
     (case js_get_field call ''type'' of
        Inl e \<Rightarrow> Inl (e, s)
      | Inr ty \<Rightarrow>
          (if js_strict_eq_str ty ''output'' then
             (case js_get_field call ''output'' of
                Inl e \<Rightarrow> Inl (e, s)
              | Inr out \<Rightarrow>
                  (case js_to_string out of
                     Inl e \<Rightarrow> Inl (e, s)
                   | Inr txt \<Rightarrow> Inr (Stop Done (emit (Ev_Log (''Bot: '' @ txt)) s))))
           else if js_strict_eq_str ty ''action'' then
             (case js_get_field call ''function'' of
                Inl e \<Rightarrow> Inl (e, s)
              | Inr f \<Rightarrow>
                  (case tools_lookup tools_v0 f of
                     Inl e \<Rightarrow> Inl (e, s)
                   | Inr fn \<Rightarrow>
                       (if \<not> is_function fn then
                          (case js_to_string f of
                             Inl e \<Rightarrow> Inl (e, s)
                           | Inr name \<Rightarrow> Inr (Stop Turn_Abandoned (emit (Ev_Err (E_Fn_Not_Found name)) s)))
                        else
                          (case js_get_field call ''input'' of
                             Inl e \<Rightarrow> Inl (e, s)
                           | Inr inp \<Rightarrow>
                               (let s' = emit (Ev_Tool fn inp) s in
                                case call_tool_v0 fn inp of
                                  Inl e \<Rightarrow> Inl (e, s')
                                | Inr obs \<Rightarrow>
                                    Inr (Continue (push (msg Developer (obs_envelope (obs_js obs))) s')))))))
           else Inr (Continue s)))"

text \<open>Lines 226-229: an exception is reported and the exchange is left.\<close>

definition catch_v0 :: "(js_exn \<times> agent) + step_res \<Rightarrow> step_res" where
  "catch_v0 a = (case a of Inl (e, s) \<Rightarrow> Stop Turn_Abandoned (emit (Ev_Err E_Processing) s) | Inr r \<Rightarrow> r)"

text \<open>Lines 191-229: one iteration of the inner loop. A failed call is reported by
  \<open>getGroqChatCompletion\<close> and again by the \<open>catch\<close>; the reply is parsed
  before it is appended, so a reply that is not JSON leaves the history as it was.\<close>

definition step_v0 :: "api \<Rightarrow> agent \<Rightarrow> step_res" where
  "step_v0 api s =
     (let s1 = s\<lparr>calls := Suc (calls s)\<rparr> in
      case api (calls s) (request_v0 (msgs s)) of
        Api_Error \<Rightarrow> Stop Turn_Abandoned (emit (Ev_Err E_Processing) (emit (Ev_Err E_Api_Call) s1))
      | Api_Ok chs \<Rightarrow>
          (case first_content chs of
             None \<Rightarrow> Stop Turn_Abandoned (emit (Ev_Err E_No_Content) s1)
           | Some result \<Rightarrow>
               (if result = [] then Stop Turn_Abandoned (emit (Ev_Err E_No_Content) s1)
                else
                  (case json_parse result of
                     Inl err \<Rightarrow>
                       (if err = J_Unrepresentable then Stop Unmodelled s1
                        else Stop Turn_Abandoned (emit (Ev_Err (E_Parse result)) s1))
                   | Inr call \<Rightarrow> catch_v0 (act_v0 call (push (msg Assistant result) s1))))))"

text \<open>Lines 183-232: the outer loop. Every exchange that ends, with an output or
  with an error, returns to the prompt; the history is never cut.\<close>

fun session_v0 :: "api \<Rightarrow> jstr list \<Rightarrow> agent \<Rightarrow> (session_end \<times> agent) option" where
  "session_v0 api [] s = Some (Waiting, s)"
| "session_v0 api (q # qs) s =
     (case exchange (step_v0 api) (begin_turn q s) of
        None \<Rightarrow> None
      | Some (r, s') \<Rightarrow>
          (if r = Done \<or> r = Turn_Abandoned then session_v0 api qs s' else Some (Ended r, s')))"


text \<open>A reply whose string holds the code unit 0x100, which the model of
  \<open>JSON.parse\<close> cannot represent.\<close>

definition sample_wide :: jstr where
  "sample_wide = [dq, bsl] @ ''u0100'' @ [dq]"

subsection \<open>The abstract dispatch\<close>

text \<open>What the earlier version promises for a decoded reply, after the reply is
  appended: the protocol of index2.js, with the observation appended as a
  \<open>developer\<close> message and an unknown tool leaving the exchange.\<close>

definition spec_dispatch_v0 :: "envelope \<Rightarrow> agent \<Rightarrow> step_res" where
  "spec_dispatch_v0 env s =
     (case env of
        Env_Output out \<Rightarrow> Stop Done (emit (Ev_Log (''Bot: '' @ out)) s)
      | Env_Action f i \<Rightarrow>
          (if f = ''getWeatherDetails'' then
             Continue (push (msg Developer (obs_envelope (JStr (weather_answer_v2 i))))
                        (emit (Ev_Tool Tool_Weather (JStr i)) s))
           else Stop Turn_Abandoned (emit (Ev_Err (E_Fn_Not_Found f)) s))
      | _ \<Rightarrow> Continue s)"

text \<open>An action whose city does not lower-case to the name of an inherited member.\<close>

fun plain_city :: "envelope \<Rightarrow> bool" where
  "plain_city (Env_Action f i) \<longleftrightarrow> js_to_lower i \<noteq> ''constructor'' \<and> js_to_lower i \<noteq> ''__proto__''"
| "plain_city env \<longleftrightarrow> True"

subsection \<open>Lemmas: the request\<close>

lemma request_v0_eq [simp]: "request_v0 = request_v2"
  by (simp add: fun_eq_iff request_v0_def request_v2_def)

subsection \<open>Lemmas: the tool\<close>

lemma proto_members_not_lower:
  "list_all (\<lambda>(k, p). js_to_lower k = k \<longrightarrow> k = ''constructor'') proto_members"
  by (simp add: proto_members_def) code_simp

lemma proto_members_lower:
  "map_of proto_members (js_to_lower c) =
     (if js_to_lower c = ''constructor'' then Some PF_constructor else None)"
proof (cases "map_of proto_members (js_to_lower c)")
  case (Some p)
  then have "(js_to_lower c, p) \<in> set proto_members" by (rule map_of_SomeD)
  with proto_members_not_lower have "js_to_lower c = ''constructor''"
    by (fastforce simp: list.pred_set)
  with Some show ?thesis by (simp add: proto_members_def)
next
  case None
  then show ?thesis by (auto simp: proto_members_def)
qed

lemma proto_members_keys [simp]:
  "map_of proto_members ''constructor'' = Some PF_constructor" "map_of proto_members ''__proto__'' = None"
  by (simp_all add: proto_members_def)

lemma weatherData_lookup: "map_of weatherData (js_to_lower c) = ci_lookup weather_table_v2 c"
  by (simp add: weatherData_def ci_lookup_def weather_table_v2_def js_to_lower_eq_word lower_word_def)

lemma getWeatherDetails_v0_str:
  "getWeatherDetails_v0 (JStr c) =
     Inr (if js_to_lower c = ''constructor'' then PV_Member (Tool_Proto PF_constructor)
          else if js_to_lower c = ''__proto__'' then PV_Member Proto_Object
          else PV_Js (JStr (case ci_lookup weather_table_v2 c of Some t \<Rightarrow> t | None \<Rightarrow> not_available_msg)))"
proof (cases "js_to_lower c = ''constructor'' \<or> js_to_lower c = ''__proto__''")
  case True
  then have "map_of weatherData (js_to_lower c) = None" by (auto simp: weatherData_def)
  with True show ?thesis
    by (auto simp: getWeatherDetails_v0_def literal_get_def proto_members_lower Let_def)
next
  case False
  have "ci_lookup weather_table_v2 c = Some t \<Longrightarrow> t \<noteq> []" for t
    by (auto simp: ci_lookup_def weather_table_v2_def deg_C_def split: if_splits)
  with False show ?thesis
    by (auto simp: getWeatherDetails_v0_def literal_get_def weatherData_lookup proto_members_lower
        Let_def not_available_msg_def split: option.splits)
qed

text \<open>C8: the dictionary lookup of the earlier version is equivalent to index2.js's chain
  of comparisons on every argument, except on the cities that lower-case to
  \<open>constructor\<close> or \<open>__proto__\<close>, for which it returns the member inherited from
  Object.prototype instead of the not-available message.\<close>

theorem getWeatherDetails_v0_equiv:
  "getWeatherDetails_v0 v =
     (case city_arg v of
        Inl e \<Rightarrow> Inl e
      | Inr c \<Rightarrow>
          (if js_to_lower c = ''constructor'' then Inr (PV_Member (Tool_Proto PF_constructor))
           else if js_to_lower c = ''__proto__'' then Inr (PV_Member Proto_Object)
           else map_sum id PV_Js (getWeatherDetails_v2 v)))"
proof (cases v)
  case (JStr c)
  then show ?thesis by (simp add: getWeatherDetails_v0_str getWeatherDetails_v2_str)
next
  case JUndef
  then show ?thesis
    by (simp add: getWeatherDetails_v0_def getWeatherDetails_v2_def literal_get_def weatherData_def
        js_to_lower_def not_available_msg_def proto_members_def Let_def)
qed (simp_all add: getWeatherDetails_v0_def getWeatherDetails_v2_def)

text \<open>The earlier version answers the city \<open>Constructor\<close> with the function
  \<open>Object\<close>, which JSON.stringify drops from the observation, and \<open>__PROTO__\<close> with
  Object.prototype, serialised as \<open>{}\<close>; index2.js answers both with the
  not-available message.\<close>

lemma legacy_inherited_city:
  "getWeatherDetails_v0 (JStr ''Constructor'') = Inr (PV_Member (Tool_Proto PF_constructor)) \<and>
   obs_js (PV_Member (Tool_Proto PF_constructor)) = JUndef \<and>
   getWeatherDetails_v0 (JStr ''__PROTO__'') = Inr (PV_Member Proto_Object) \<and>
   obs_js (PV_Member Proto_Object) = JObj [] \<and>
   getWeatherDetails_v2 (JStr ''Constructor'') = Inr (JStr not_available_msg)"
  by (simp add: getWeatherDetails_v0_str getWeatherDetails_v2_def js_to_lower_def
      js_lower_char_def upper_unit_def js_simps)


subsection \<open>Lemmas: the loop\<close>

lemma act_v0_stops: "act_v0 call s = Inr (Stop r s') \<Longrightarrow> r = Done \<or> r = Turn_Abandoned"
  by (auto simp: act_v0_def Let_def split: sum.splits if_splits)

lemma step_v0_stops: "step_v0 api s = Stop r s' \<Longrightarrow> r = Done \<or> r = Turn_Abandoned \<or> r = Unmodelled"
  by (auto simp: step_v0_def Let_def catch_v0_def dest: act_v0_stops
      split: api_reply.splits option.splits sum.splits if_splits)

lemma exchange_v0_stops:
  "exchange (step_v0 api) s = Some (r, s') \<Longrightarrow> r = Done \<or> r = Turn_Abandoned \<or> r = Unmodelled"
  by (rule exchange_outcome[OF step_v0_stops])

text \<open>C24: the earlier version never ends its session on an error: a failed call, a
  missing content, a reply that is not JSON, an unknown function and an exception all
  return to the prompt; only a reply the model cannot represent stops a modelled
  session.\<close>

theorem session_v0_ends_only_unmodelled:
  "session_v0 api qs s = Some (Ended r, s') \<Longrightarrow> r = Unmodelled"
proof (induction qs arbitrary: s)
  case (Cons q qs)
  then show ?case
    by (auto dest: exchange_v0_stops split: option.splits if_splits)
qed simp

text \<open>C26: in the earlier version a reply that is not JSON is reported and the exchange
  is left, and the reply is not appended to the history.\<close>

theorem step_v0_parse_error:
  assumes "api (calls s) (request_v0 (msgs s)) = Api_Ok (Some t # chs)" and "t \<noteq> []"
    and "json_parse t = Inl e" and "e \<noteq> J_Unrepresentable"
  shows "step_v0 api s = Stop Turn_Abandoned (emit (Ev_Err (E_Parse t)) (s\<lparr>calls := Suc (calls s)\<rparr>))"
  using assms by (simp add: step_v0_def first_content_def)

lemma act_v0_appends: "step_appends s (act_agent (act_v0 call s))"
  by (auto simp: act_v0_def Let_def split: sum.splits)

lemma catch_v0_appends: "step_appends s (act_agent a) \<Longrightarrow> step_appends s (res_agent (catch_v0 a))"
  by (auto simp: catch_v0_def split: sum.splits)

lemma step_v0_appends: "step_appends s (res_agent (step_v0 api s))"
proof -
  have act: "step_appends s (res_agent (catch_v0 (act_v0 call (push (msg Assistant t) (s\<lparr>calls := n\<rparr>)))))"
    for call t n
    using catch_v0_appends[OF appends_push_left[OF act_v0_appends[of "push (msg Assistant t) (s\<lparr>calls := n\<rparr>)" call]]]
    by simp
  show ?thesis
    by (auto simp: step_v0_def Let_def act split: api_reply.splits option.splits sum.splits)
qed

lemmas exchange_v0_appends = exchange_appends[OF step_v0_appends]

lemma act_v0_envelope:
  assumes "decode_envelope v = Some env" "registry_closed env" "plain_city env"
  shows "catch_v0 (act_v0 v s) = spec_dispatch_v0 env s"
proof -
  from decode_envelope_SomeD[OF assms(1)] obtain kvs where
    v: "v = JObj kvs" and fs: "env_fields env kvs" by blast
  show ?thesis
  proof (cases env)
    case (Env_Action f i)
    with fs v assms(2,3) show ?thesis
      by (auto simp: act_v0_def catch_v0_def spec_dispatch_v0_def tools_lookup_def
          getWeatherDetails_v0_str weather_answer_v2_def)
  qed (use fs v in \<open>auto simp: act_v0_def catch_v0_def spec_dispatch_v0_def\<close>)
qed

lemma act_v0_calls: "calls (act_agent (act_v0 call s)) = calls s"
  by (auto simp: act_v0_def Let_def push_def emit_def split: sum.splits)

lemma act_v0_Continue_calls: "catch_v0 (act_v0 call s) = Continue s' \<Longrightarrow> calls s' = calls s"
  using act_v0_calls[of call s] by (auto simp: catch_v0_def split: sum.splits)

lemma step_v0_Continue_calls: "step_v0 api s = Continue s' \<Longrightarrow> calls s' = Suc (calls s)"
  by (auto simp: step_v0_def Let_def push_def dest!: act_v0_Continue_calls
      split: api_reply.splits option.splits sum.splits if_splits)

lemma step_v0_final_stops:
  assumes "final_reply_v2 (api (calls s) (request_v0 (msgs s)))"
  shows "\<exists>r s'. step_v0 api s = Stop r s'"
proof (cases "api (calls s) (request_v0 (msgs s))")
  case (Api_Ok chs)
  show ?thesis
  proof (cases "\<exists>t v. first_content chs = Some t \<and> t \<noteq> [] \<and> json_parse t = Inr v")
    case True
    then obtain t v where t: "first_content chs = Some t" "t \<noteq> []" "json_parse t = Inr v" by blast
    with assms Api_Ok obtain out where "decode_envelope v = Some (Env_Output out)"
      by (auto simp: final_reply_v2_def split: option.splits envelope.splits)
    then have "catch_v0 (act_v0 v s2) = spec_dispatch_v0 (Env_Output out) s2" for s2
      by (simp add: act_v0_envelope)
    with Api_Ok t show ?thesis by (simp add: step_v0_def spec_dispatch_v0_def)
  next
    case False
    with Api_Ok show ?thesis by (auto simp: step_v0_def Let_def split: option.splits sum.splits)
  qed
qed (simp add: step_v0_def)

text \<open>C25: if final replies (a failed call, no content, a text that does not parse, an
  output) keep coming, whatever the request, then the earlier version's session
  returns for every list of lines, and no error ends it: it reads every line and waits
  at the prompt again, unless a reply the model cannot represent stops it.\<close>

theorem session_v0_terminates:
  assumes "\<forall>n. \<exists>k. \<forall>req. final_reply_v2 (api (n + k) req)"
  shows "\<exists>s'. session_v0 api qs s = Some (Waiting, s') \<or> session_v0 api qs s = Some (Ended Unmodelled, s')"
proof (induction qs arbitrary: s)
  case (Cons q qs)
  have "\<exists>r. exchange (step_v0 api) (begin_turn q s) = Some r"
    using assms
    by (rule exchange_returns_often_final[where F = final_reply_v2 and step = "step_v0 api", rotated 2])
      (use step_v0_final_stops step_v0_Continue_calls in blast)+
  then obtain r s1 where ex: "exchange (step_v0 api) (begin_turn q s) = Some (r, s1)" by auto
  then have "r = Done \<or> r = Turn_Abandoned \<or> r = Unmodelled" by (rule exchange_v0_stops)
  with ex Cons.IH[of s1] show ?case by auto
qed simp

text \<open>C9: one step of the earlier version on a reply that decodes to an envelope, whose
  action names the registered tool or no registry member and a city that is no inherited
  name, is its abstract dispatch after the reply has been appended.\<close>

theorem step_v0_refines:
  assumes "api (calls s) (request_v0 (msgs s)) = Api_Ok (Some t # chs)" and "t \<noteq> []"
    and "json_parse t = Inr v" and "decode_envelope v = Some env" and "registry_closed env"
    and "plain_city env"
  shows "step_v0 api s = spec_dispatch_v0 env (push (msg Assistant t) (s\<lparr>calls := Suc (calls s)\<rparr>))"
  using assms by (simp add: step_v0_def first_content_def act_v0_envelope)

theorem step_v0_refines_witness:
  "(\<lambda>n req. Api_Ok [Some sample_action]) (calls sample_state) (request_v0 (msgs sample_state)) =
      Api_Ok (Some sample_action # []) \<and> sample_action \<noteq> [] \<and>
   json_parse sample_action =
     Inr (JObj [(''type'', JStr ''action''), (''function'', JStr ''getWeatherDetails''), (''input'', JStr ''Delhi'')]) \<and>
   decode_envelope (JObj [(''type'', JStr ''action''), (''function'', JStr ''getWeatherDetails''), (''input'', JStr ''Delhi'')])
     = Some (Env_Action ''getWeatherDetails'' ''Delhi'') \<and>
   registry_closed (Env_Action ''getWeatherDetails'' ''Delhi'') \<and>
   plain_city (Env_Action ''getWeatherDetails'' ''Delhi'') \<and>
   step_v0 (\<lambda>n req. Api_Ok [Some sample_action]) sample_state =
     spec_dispatch_v0 (Env_Action ''getWeatherDetails'' ''Delhi'')
       (push (msg Assistant sample_action) (sample_state\<lparr>calls := Suc (calls sample_state)\<rparr>))"
proof -
  have d: "decode_envelope (JObj [(''type'', JStr ''action''), (''function'', JStr ''getWeatherDetails''), (''input'', JStr ''Delhi'')])
     = Some (Env_Action ''getWeatherDetails'' ''Delhi'')"
    by (simp add: str_field_def)
  have ne: "sample_action \<noteq> []" by (simp add: sample_action_def)
  have pc: "plain_city (Env_Action ''getWeatherDetails'' ''Delhi'')"
    by (simp add: js_to_lower_def js_lower_char_def upper_unit_def js_simps)
  show ?thesis
    using step_v0_refines[OF _ ne sample_action_parse d _ pc] d ne pc sample_action_parse by simp
qed

lemma sample_wide_parse: "json_parse sample_wide = Inl J_Unrepresentable"
  by (simp add: sample_wide_def dq_def bsl_def) code_simp

theorem session_v0_ends_only_unmodelled_witness:
  "\<exists>s'. session_v0 (\<lambda>n req. Api_Ok [Some sample_wide]) [''hi''] init_v0 = Some (Ended Unmodelled, s') \<and>
     Unmodelled = Unmodelled"
proof -
  have ne: "sample_wide \<noteq> []" by (simp add: sample_wide_def)
  have "exchange (step_v0 (\<lambda>n req. Api_Ok [Some sample_wide])) (begin_turn ''hi'' init_v0) =
        Some (Unmodelled, (begin_turn ''hi'' init_v0)\<lparr>calls := 1\<rparr>)"
    by (rule exchange_fuel_sound[of 1])
       (simp add: step_v0_def first_content_def sample_wide_parse ne begin_turn_def push_def emit_def
          init_v0_def)
  then obtain s' where h: "session_v0 (\<lambda>n req. Api_Ok [Some sample_wide]) [''hi''] init_v0 = Some (Ended Unmodelled, s')"
    by simp
  show ?thesis using h session_v0_ends_only_unmodelled[OF h] by blast
qed

theorem step_v0_parse_error_witness:
  "(\<lambda>n req. Api_Ok [Some sample_prose]) (calls sample_state) (request_v0 (msgs sample_state)) =
      Api_Ok (Some sample_prose # []) \<and> sample_prose \<noteq> [] \<and>
   json_parse sample_prose = Inl J_Syntax \<and> J_Syntax \<noteq> J_Unrepresentable \<and>
   step_v0 (\<lambda>n req. Api_Ok [Some sample_prose]) sample_state =
     Stop Turn_Abandoned (emit (Ev_Err (E_Parse sample_prose)) (sample_state\<lparr>calls := Suc (calls sample_state)\<rparr>))"
proof -
  have ne: "sample_prose \<noteq> []" by (simp add: sample_prose_def)
  show ?thesis using step_v0_parse_error[OF _ ne sample_prose_parse] ne sample_prose_parse by simp
qed

theorem session_v0_terminates_witness:
  "(\<forall>n. \<exists>k. \<forall>req. final_reply_v2 ((\<lambda>n req. Api_Error) (n + k) req)) \<and>
   (\<exists>s'. session_v0 (\<lambda>n req. Api_Error) [''hi'', ''bye''] init_v0 = Some (Waiting, s') \<or>
          session_v0 (\<lambda>n req. Api_Error) [''hi'', ''bye''] init_v0 = Some (Ended Unmodelled, s'))"
proof -
  have h: "\<forall>n. \<exists>k. \<forall>req. final_reply_v2 ((\<lambda>n req. Api_Error) (n + k) req)"
    by (simp add: final_reply_v2_def)
  show ?thesis using h session_v0_terminates[OF h] by blast
qed

end
