(* ===== verification/Agent_Machine.thy ===== *)
theory Agent_Machine
  imports Agent_Loop
begin

text \<open>
  index2.js as a state machine with the phases of spec sections 4.2 and 4.3: waiting at
  the prompt, inside an exchange, or halted after \<open>main\<close> returned. \<open>run_v2\<close> is
  its transition relation, with one rule per way the code moves on (a line read at the
  prompt, lines 65-70; a step that asks again, one that prints the output and cuts the
  history, lines 93-96 and 112; a step that ends \<open>main\<close>), and \<open>reach_v2\<close> the
  states reachable from the start of \<open>main\<close> (lines 59-62). The functional model of
  theory \<open>Agent_Loop\<close> is a run of this machine, and every reachable state is well
  formed.
\<close>

datatype phase = At_Prompt | In_Exchange | Halted outcome

inductive run_v2 :: "api \<Rightarrow> phase \<times> agent \<Rightarrow> phase \<times> agent \<Rightarrow> bool" for api where
  read: "run_v2 api (At_Prompt, s) (In_Exchange, begin_turn q s)"
| again: "step_v2 api s = Continue s' \<Longrightarrow> run_v2 api (In_Exchange, s) (In_Exchange, s')"
| print: "step_v2 api s = Stop Done s' \<Longrightarrow> run_v2 api (In_Exchange, s) (At_Prompt, reset_history s')"
| halt: "step_v2 api s = Stop r s' \<Longrightarrow> r \<noteq> Done \<Longrightarrow> run_v2 api (In_Exchange, s) (Halted r, s')"

inductive_cases run_v2_At_PromptE: "run_v2 api (At_Prompt, s) c"
inductive_cases run_v2_In_ExchangeE: "run_v2 api (In_Exchange, s) c"
inductive_cases run_v2_HaltedE: "run_v2 api (Halted r, s) c"

inductive reach_v2 :: "api \<Rightarrow> phase \<times> agent \<Rightarrow> bool" for api where
  start: "reach_v2 api (At_Prompt, init_v2)"
| step: "reach_v2 api c \<Longrightarrow> run_v2 api c c' \<Longrightarrow> reach_v2 api c'"

text \<open>The shape of the history: at the prompt only the system prompt; inside or after an
  exchange the system prompt, one user message with a content, and assistant messages
  with a content.\<close>

fun wf_history_v2 :: "phase \<Rightarrow> message list \<Rightarrow> bool" where
  "wf_history_v2 At_Prompt ms = (ms = [msg System system_prompt_v2])"
| "wf_history_v2 ph ms =
     (case ms of
        m0 # u # rs \<Rightarrow>
          m0 = msg System system_prompt_v2 \<and> role u = User \<and> content u \<noteq> None \<and>
          list_all (\<lambda>m. role m = Assistant \<and> content m \<noteq> None) rs
      | _ \<Rightarrow> False)"

definition wf_v2 :: "phase \<times> agent \<Rightarrow> bool" where
  "wf_v2 c = wf_history_v2 (fst c) (msgs (snd c))"


text \<open>The phase a session of theory \<open>Agent_Loop\<close> ends in.\<close>

fun end_phase :: "session_end \<Rightarrow> phase" where
  "end_phase Waiting = At_Prompt"
| "end_phase (Ended r) = Halted r"

subsection \<open>Lemmas: well-formed histories\<close>

abbreviation assistant_msg :: "message \<Rightarrow> bool" where
  "assistant_msg m \<equiv> role m = Assistant \<and> content m \<noteq> None"

lemma step_v2_assistant: "appends assistant_msg (\<lambda>e. \<not> is_read e) s (res_agent (step_v2 api s))"
  by (rule step_v2_appends_msgs) simp

lemma wf_history_append:
  "ph \<noteq> At_Prompt \<Longrightarrow> wf_history_v2 ph ms \<Longrightarrow> list_all assistant_msg ms' \<Longrightarrow>
   wf_history_v2 ph (ms @ ms')"
  by (cases ph) (auto split: list.splits)

lemma wf_history_phase:
  "ph \<noteq> At_Prompt \<Longrightarrow> ph' \<noteq> At_Prompt \<Longrightarrow> wf_history_v2 ph ms = wf_history_v2 ph' ms"
  by (cases ph; cases ph') simp_all

lemma wf_history_step:
  assumes "wf_history_v2 In_Exchange (msgs s)" "ph \<noteq> At_Prompt"
  shows "wf_history_v2 ph (msgs (res_agent (step_v2 api s)))"
proof -
  from step_v2_assistant[of s api] obtain ms where
    "msgs (res_agent (step_v2 api s)) = msgs s @ ms" "list_all assistant_msg ms"
    by (auto simp: appends_def)
  with assms wf_history_append[of In_Exchange] wf_history_phase[of ph In_Exchange] show ?thesis
    by simp
qed

lemma wf_history_reset:
  "wf_history_v2 In_Exchange ms \<Longrightarrow> take 1 ms = [msg System system_prompt_v2]"
  by (auto split: list.splits)

lemma run_v2_wf: "run_v2 api c c' \<Longrightarrow> wf_v2 c \<Longrightarrow> wf_v2 c'"
proof (induction rule: run_v2.induct)
  case (read s q)
  then show ?case by (simp add: wf_v2_def begin_turn_def push_def emit_def)
next
  case (again s s')
  then show ?case using wf_history_step[of s In_Exchange api] by (simp add: wf_v2_def)
next
  case (print s s')
  then have "wf_history_v2 In_Exchange (msgs s')"
    using wf_history_step[of s In_Exchange api] by (simp add: wf_v2_def)
  then have "take 1 (msgs s') = [msg System system_prompt_v2]" by (rule wf_history_reset)
  then show ?case by (simp add: wf_v2_def reset_history_def)
next
  case (halt s r s')
  then show ?case using wf_history_step[of s "Halted r" api] by (simp add: wf_v2_def)
qed

text \<open>C6: every state index2.js can reach is well formed: at the prompt the history is
  the system prompt alone; inside an exchange, and after \<open>main\<close> returned, it is the
  system prompt, one user message and assistant messages, every content a string.\<close>

theorem reach_v2_wf: "reach_v2 api c \<Longrightarrow> wf_v2 c"
proof (induction rule: reach_v2.induct)
  case start
  then show ?case by (simp add: wf_v2_def init_v2_def)
next
  case (step c c')
  then show ?case by (blast intro: run_v2_wf)
qed

theorem reach_v2_wf_witness:
  "reach_v2 (\<lambda>n req. Api_Error) (In_Exchange, begin_turn ''hi'' init_v2) \<and>
   wf_v2 (In_Exchange, begin_turn ''hi'' init_v2)"
proof -
  have r: "reach_v2 (\<lambda>n req. Api_Error) (In_Exchange, begin_turn ''hi'' init_v2)"
    by (rule reach_v2.step[OF reach_v2.start run_v2.read])
  show ?thesis using r reach_v2_wf[OF r] by blast
qed

subsection \<open>Lemmas: the functional model is a run of the machine\<close>

lemma exchange_v2_run:
  assumes "exchange (step_v2 api) s = Some (r, s')"
  shows "(run_v2 api)\<^sup>*\<^sup>* (In_Exchange, s) (if r = Done then (At_Prompt, reset_history s') else (Halted r, s'))"
proof -
  obtain n where "exchange_fuel n (step_v2 api) s = Some (r, s')"
    using assms exchange_fuel_complete by blast
  then show ?thesis
  proof (induction n arbitrary: s)
    case (Suc n)
    show ?case
    proof (cases "step_v2 api s")
      case (Continue t)
      with Suc.prems have "exchange_fuel n (step_v2 api) t = Some (r, s')" by simp
      from converse_rtranclp_into_rtranclp[OF run_v2.again[OF Continue] Suc.IH[OF this]] show ?thesis .
    next
      case (Stop r' t)
      with Suc.prems have "r' = r" "t = s'" by simp_all
      with Stop show ?thesis by (auto intro: run_v2.print run_v2.halt)
    qed
  qed simp
qed

text \<open>The functional model of index2.js's session refines the state machine: every
  session of \<open>session_v2\<close> from the prompt is a run of \<open>run_v2\<close> that ends in the
  phase the session reports, with the same state.\<close>

lemma session_v2_run:
  "session_v2 api qs s = Some (e, s') \<Longrightarrow> (run_v2 api)\<^sup>*\<^sup>* (At_Prompt, s) (end_phase e, s')"
proof (induction qs arbitrary: s)
  case Nil
  then show ?case by simp
next
  case (Cons q qs)
  then obtain r s1 where ex: "exchange (step_v2 api) (begin_turn q s) = Some (r, s1)"
    by (auto split: option.splits)
  have rd: "run_v2 api (At_Prompt, s) (In_Exchange, begin_turn q s)" by (rule run_v2.read)
  show ?case
  proof (cases "r = Done")
    case True
    with Cons.prems ex have "session_v2 api qs (reset_history s1) = Some (e, s')" by simp
    from converse_rtranclp_into_rtranclp[OF rd
        rtranclp_trans[OF _ Cons.IH[OF this]]] exchange_v2_run[OF ex] True
    show ?thesis by simp
  next
    case False
    with Cons.prems ex have "e = Ended r" "s' = s1" by simp_all
    with converse_rtranclp_into_rtranclp[OF rd exchange_v2_run[OF ex]] False show ?thesis by simp
  qed
qed

text \<open>C5: every session of index2.js from the start of \<open>main\<close> ends in a well-formed
  state: back at the prompt the history is the system prompt alone; after \<open>main\<close>
  returned it is the system prompt, one user message and assistant messages, every
  content a string.\<close>

theorem session_v2_wf:
  assumes "session_v2 api qs init_v2 = Some (e, s')"
  shows "wf_v2 (end_phase e, s')"
proof -
  have "(run_v2 api)\<^sup>*\<^sup>* (At_Prompt, init_v2) (end_phase e, s')"
    using assms by (rule session_v2_run)
  moreover have "wf_v2 (At_Prompt, init_v2)" by (simp add: wf_v2_def init_v2_def)
  ultimately show ?thesis
    by (induction rule: rtranclp_induct) (auto intro: run_v2_wf)
qed

lemma reach_v2_rtranclp: "(run_v2 api)\<^sup>*\<^sup>* c c' \<Longrightarrow> reach_v2 api c \<Longrightarrow> reach_v2 api c'"
  by (erule rtranclp_induct) (auto intro: reach_v2.step)

subsection \<open>Lemmas: bounds\<close>

text \<open>C28: one completion call of index2.js appends at most two messages to the history
  (the reply and an observation), and an exchange that ends made at least one call: the
  history of an exchange grows by at most twice the number of calls it made.\<close>

theorem exchange_v2_length_bound:
  "exchange (step_v2 api) s = Some (r, s') \<Longrightarrow>
   calls s < calls s' \<and> length (msgs s') \<le> length (msgs s) + 2 * (calls s' - calls s)"
proof (rule exchange_rel[where R = "\<lambda>s t. calls s < calls t \<and> length (msgs t) \<le> length (msgs s) + 2 * (calls t - calls s)"])
  fix s
  show "calls s < calls (res_agent (step_v2 api s)) \<and>
        length (msgs (res_agent (step_v2 api s))) \<le> length (msgs s) + 2 * (calls (res_agent (step_v2 api s)) - calls s)"
    by (auto simp: step_v2_def act_v2_def catch_v2_def Let_def push_def emit_def
        split: api_reply.splits option.splits sum.splits)
qed auto

subsection \<open>The promise of main\<close>

text \<open>C10: no exception escapes index2.js's \<open>main\<close>: the promise it returns never
  rejects, so the handler of line 116 never runs and \<open>main\<close> with its handler
  behaves as the bare session; when \<open>main\<close> ends, it returned (or met a reply the
  model cannot represent).\<close>

theorem main_v2_never_rejects:
  "main_v2 api qs = session_v2 api qs init_v2 \<and>
   (case main_v2 api qs of Some (Ended r, s) \<Rightarrow> r = Main_Return \<or> r = Unmodelled | _ \<Rightarrow> True)"
proof -
  have "case session_v2 api qs init_v2 of Some (Ended r, s) \<Rightarrow> r = Main_Return \<or> r = Unmodelled | _ \<Rightarrow> True"
    by (auto dest: session_v2_ends split: option.splits session_end.splits)
  then show ?thesis
    by (auto simp: main_v2_def split: option.splits session_end.splits outcome.splits)
qed

end
