(* ===== verification/Completion_Snippet.thy ===== *)
theory Completion_Snippet
  imports Agent_Protocol
begin

text \<open>
  The commented-out lines 91-107 of index.js: a one-shot chat completion that asks for
  a haiku and logs the first choice's message. The lines run as module code, which
  is strict code. The snippet is modelled for any module scope in which it runs.
  \<^item> Standalone. Read as the body of its own module after the imports of lines 1-3,
    the name \<open>Api_Key\<close> is not declared there.
  \<^item> In place. Uncommented where it stands, \<open>Api_Key\<close> is the \<open>const\<close> of line 7.
    There the snippet would follow the outer \<open>while (true)\<close> of lines 58-88, which
    never completes normally, so it would never run.

  \<open>dotenv.config()\<close> (line 91) and the environment variable are not modelled: the
  value of \<open>process.env.Api_Key\<close> is a parameter. The client construction of line 95
  is assumed to succeed, as for line 9. The completion call is the endpoint oracle
  of theory \<open>Agent_Protocol\<close>; it is the first call of the process.
\<close>

subsection \<open>Module scope\<close>

text \<open>The kind of a declared name: a \<open>let\<close>, \<open>var\<close> or function binding is mutable; a
  \<open>const\<close> and an imported name are immutable.\<close>

datatype binding = Mutable | Immutable

type_synonym scope = "jstr \<Rightarrow> binding option"

text \<open>An assignment \<open>x = v\<close> in strict code (PutValue, ECMA-262 6.2.5.6, and
  SetMutableBinding, 9.1.1.1.5): an undeclared name throws a \<open>ReferenceError\<close>, an
  immutable binding a \<open>TypeError\<close>.\<close>

definition assign_var :: "scope \<Rightarrow> jstr \<Rightarrow> js \<Rightarrow> js_exn + scope" where
  "assign_var sc x v =
     (case sc x of
        None \<Rightarrow> Inl ReferenceError
      | Some Mutable \<Rightarrow> Inr sc
      | Some Immutable \<Rightarrow> Inl TypeError)"

text \<open>The module scope of the imports of index.js (lines 1-3): the scope in which the
  snippet runs as a module of its own.\<close>

definition scope_imports :: scope where
  "scope_imports = map_of [(''OpenAI'', Immutable), (''dotenv'', Immutable), (''readlineSync'', Immutable)]"

text \<open>The module scope of index.js as it stands, with the declarations of lines 1-56.\<close>

definition scope_v1 :: scope where
  "scope_v1 = map_of
     [(''OpenAI'', Immutable), (''dotenv'', Immutable), (''readlineSync'', Immutable),
      (''Api_Key'', Immutable), (''client'', Immutable), (''getWeatherDetails'', Mutable),
      (''tools'', Immutable), (''SYSTEM_PROMPT'', Immutable), (''messages'', Immutable)]"

subsection \<open>The snippet\<close>

text \<open>Lines 99-105: the request, with its history under the key \<open>messages\<close>.\<close>

definition haiku_request :: request where
  "haiku_request =
     [F_Model ''gpt-4o-mini'', F_Store True, F_Messages [msg User ''write a haiku about ai'']]"

text \<open>How the promise of line 107 settles. The \<open>then\<close> handler logs the message of
  the first choice, \<open>{role: 'assistant', content}\<close>. Nothing handles a rejection.
  A failed call rejects it; so does a reply without choices, since
  \<open>result.choices[0].message\<close> then throws a \<open>TypeError\<close> inside the handler. Either
  rejection ends the process.\<close>

datatype settled = Logged message | Unhandled_Rejection crash_cause

text \<open>Lines 91-107 in the scope \<open>sc\<close>, with the key \<open>key\<close> read from the environment.
  The result is the exception that ends the evaluation of the module, or the request
  sent and how its promise settles.\<close>

definition completion_snippet :: "scope \<Rightarrow> js \<Rightarrow> api \<Rightarrow> js_exn + request \<times> settled" where
  "completion_snippet sc key api =
     (case assign_var sc ''Api_Key'' key of
        Inl e \<Rightarrow> Inl e
      | Inr sc' \<Rightarrow>
          Inr (haiku_request,
               (case api 0 haiku_request of
                  Api_Error \<Rightarrow> Unhandled_Rejection C_Api_Rejected
                | Api_Ok [] \<Rightarrow> Unhandled_Rejection (C_Exn TypeError)
                | Api_Ok (c # _) \<Rightarrow> Logged \<lparr>role = Assistant, content = c\<rparr>)))"

subsection \<open>Lemmas\<close>

lemma scope_Api_Key [simp]:
  "scope_imports ''Api_Key'' = None" "scope_v1 ''Api_Key'' = Some Immutable"
  by (simp_all add: scope_imports_def scope_v1_def)

text \<open>Line 93 assigns \<open>Api_Key\<close>, which the snippet never declares. Unless
  the scope holds a mutable binding of that name, the evaluation of the module throws
  there and the snippet sends no request. Standalone this is a \<open>ReferenceError\<close>;
  in index.js, where \<open>Api_Key\<close> is a \<open>const\<close>, a \<open>TypeError\<close>.\<close>

lemma completion_snippet_throws:
  "sc ''Api_Key'' \<noteq> Some Mutable \<Longrightarrow>
   completion_snippet sc key api = Inl (if sc ''Api_Key'' = None then ReferenceError else TypeError)"
  by (auto simp: completion_snippet_def assign_var_def split: option.splits binding.splits)

text \<open>In a scope where \<open>Api_Key\<close> is a mutable binding, the snippet sends
  exactly its request, whose history under \<open>messages\<close> is the single user message.
  It logs a message exactly when the call succeeds with at least one choice, and
  that message is the first choice's. Otherwise the process ends with an unhandled
  rejection.\<close>

lemma completion_snippet_runs:
  "sc ''Api_Key'' = Some Mutable \<Longrightarrow>
   \<exists>settle. completion_snippet sc key api = Inr (haiku_request, settle) \<and>
     req_messages haiku_request = Some [msg User ''write a haiku about ai''] \<and>
     (\<forall>m. settle = Logged m \<longleftrightarrow>
            role m = Assistant \<and> (\<exists>cs. api 0 haiku_request = Api_Ok (content m # cs)))"
  by (auto simp: completion_snippet_def assign_var_def haiku_request_def
      split: api_reply.splits list.splits)

end
