(* ===== verification/Spec2Isabelle.thy ===== *)
theory Spec2Isabelle
  imports Legacy Agent_Machine Completion_Snippet "HOL-Library.Sublist"
begin

text \<open>
  A verification library for the two command-line weather agents of the repository,
  src/index.js (OpenAI client) and src/index2.js (Groq client), and for the earlier
  version of index2.js kept commented out at the end of that file, and for the
  one-shot completion kept commented out at the end of index.js. Each program reads
  a line at the prompt \<open>>> \<close>, appends it to its history as the envelope
  \<open>{type: 'user', user: line}\<close>, and then calls a chat-completion endpoint with the
  whole history until a reply, parsed as JSON, is an \<open>output\<close> envelope; an
  \<open>action\<close> envelope runs the tool named in it from the registry \<open>tools\<close> and
  appends the observation.

  \<^bold>\<open>Theories and what they model.\<close>
  \<^item> \<open>Prelude\<close>: the string type \<open>jstr\<close> (Latin-1 code units as \<open>char\<close>), the
    exceptions the modelled code throws, and the rules on sums that read a sequence
    of steps that may throw.
  \<^item> \<open>Js_Value\<close>: parsed JavaScript values and the ECMAScript operations the programs
    apply to them: \<open>toLowerCase\<close>, ToString, property access, \<open>===\<close> and \<open>==\<close>
    against a string, Number::toString. These are built-ins, modelled from ECMA-262.
  \<^item> \<open>Weather_Tool\<close>: \<open>getWeatherDetails\<close> of index.js (lines 13-19) and index2.js
    (lines 9-16), the object literal \<open>tools\<close> of each file (\<open>tools_v1\<close>,
    \<open>tools_v2\<close>, \<open>tools_v0\<close>, own properties read through \<open>map_of\<close>), the
    lookup \<open>tools_get\<close> that falls back on the members inherited from
    Object.prototype (\<open>call_proto\<close>), and the tool's contract as a case-insensitive
    table lookup.
  \<^item> \<open>Json\<close>: JSON.stringify and JSON.parse (ECMA-262 25.5). The parser is a
    recursive descent with fuel \<open>3 * length + 3\<close>; lemmas show the fuel never runs out
    (\<open>json_parse_not_fuel\<close>), more fuel changes no result, and parsing inverts
    serialisation on every well-formed value (\<open>json_roundtrip\<close>).
  \<^item> \<open>Agent_Protocol\<close>: the messages and their roles, the system prompts (the exact
    template literals), the user and observation envelopes, the requests each program
    sends (index.js under the key \<open>message\<close>, line 69), the endpoint as an oracle
    \<open>api :: nat \<Rightarrow> request \<Rightarrow> api_reply\<close> that may answer the \<open>n\<close>-th call
    arbitrarily, and the loop's state \<open>agent\<close>: history, number of calls, and the
    trace of lines read, tools run, lines logged and errors reported.
  \<^item> \<open>Agent_Loop\<close>: one iteration of each inner loop (\<open>step_v1\<close>, index.js 66-87;
    \<open>step_v2\<close>, index2.js 72-111), with the dispatch \<open>act_v1\<close>/\<open>act_v2\<close> and
    the exception handling (\<open>uncaught_v1\<close>, \<open>catch_v2\<close>); the inner loop
    \<open>exchange\<close> as a \<open>partial_function (option)\<close> (\<open>None\<close> is an exchange that
    never returns) with a fuelled twin proved equal to it; the outer loops
    \<open>session_v1\<close> and \<open>session_v2\<close> over a finite list of input lines, index2.js
    cutting its history back to the system prompt after each output (line 112);
    \<open>main_v2\<close>, index2.js's \<open>main\<close> with the handler \<open>main().catch\<close> of
    line 116. Lemmas: frame properties of a step and an exchange, and the ways an
    exchange of index2.js can end (never an escaping exception).
  \<^item> \<open>Agent_Spec\<close>: the spec's envelope union and decoder, the abstract dispatch each
    program promises, and the refinement of one step to it; error paths, termination
    of each program's exchange once the model gives a final reply, and the exchange
    that never ends.
  \<^item> \<open>Legacy\<close>: the commented-out earlier version (index2.js 119-234): its
    dictionary-based tool, its loop \<open>step_v0\<close>/\<open>session_v0\<close> that parses before it
    appends and leaves an exchange with \<open>break\<close> on every error; its session
    returns for every list of lines as long as final replies keep coming.
  \<^item> \<open>Agent_Machine\<close>: index2.js as an inductive transition relation \<open>run_v2\<close> over
    the phases of spec sections 4.2-4.3, its reachable states \<open>reach_v2\<close>, the
    well-formedness invariant, which every session of \<open>session_v2\<close> from the start
    of \<open>main\<close> satisfies when it ends (a session is a run of the machine); the bound
    on the growth of the history; the promise of \<open>main\<close> never rejects.
  \<^item> \<open>Completion_Snippet\<close>: the commented-out lines 91-107 of index.js, for any
    module scope (\<open>scope\<close>, with mutable and immutable bindings). The assignment
    of line 93 throws in module code unless the scope declares \<open>Api_Key\<close> mutable.
    The request and the handler of the promise are modelled; the module scope
    records only which names are declared and whether they can be reassigned.
  \<^item> this theory: the scenario of spec section 8 for every state, endpoint and
    script whose replies decode to a plan, an action and an output (\<open>reply_env\<close>),
    with the Patiala script as its instance; the findings about null contents and the
    members inherited by \<open>tools\<close>, stated over every reply and every member, with
    lemmas on fixed inputs that document further findings (the prompt example, the
    loose comparison); and the properties of whole sessions (user turns in order,
    index2.js's history reset, index.js's history growing with every turn, and
    index2.js's \<open>main\<close> returning as long as final replies keep coming).

  \<^bold>\<open>Fuel and bounds.\<close> The only fuel in a definition is the parser's: each call
  of the descent spends one unit; a value consumes a character before it calls the
  array or object parser, which passes the same text to the elements or members
  parser, which passes it to a value: at most three calls per character, so three
  units per character suffice (\<open>parse_value_fuel_aux\<close>). The
  inner loop has no bound in the code and none in the model; theorems about it are
  stated over \<open>exchange\<close> itself, and a claim that it returns is proved as such
  (theory \<open>Agent_Spec\<close>). Scenarios evaluate the loop through
  \<open>exchange_fuel\<close> and \<open>exchange_fuel_sound\<close>.

  \<^bold>\<open>Not modelled.\<close> The environment and credentials (dotenv, \<open>process.env\<close>, the
  construction of the SDK clients; index.js lines 5-11, index2.js lines 5-7 and
  123-126) are configuration before the loop starts. They are library calls whose
  behaviour the sources do not define; the loop reads nothing of them but the client
  it calls, so the model assumes the construction succeeds. The
  remote endpoint is the oracle \<open>api\<close>, so every theorem with an arbitrary \<open>api\<close>
  holds for every behaviour of the model; how the SDK turns an HTTP response into
  \<open>chat.choices\<close> is not modelled beyond the list of contents. The console is the
  event trace; reading a line at the prompt is an event that cannot fail. A
  \<open>\u\<close> escape above 255 yields \<open>J_Unrepresentable\<close> and the outcome
  \<open>Unmodelled\<close>. In the completion snippet, \<open>dotenv.config()\<close> and the client
  construction are not modelled, as for the main programs.
\<close>

section \<open>Scenarios and observers\<close>

text \<open>An endpoint that answers the \<open>n\<close>-th completion call with the \<open>n\<close>-th reply
  of a script and fails after the script, whatever the request.\<close>

definition scripted_api :: "jstr list \<Rightarrow> api" where
  "scripted_api rs n req = (if n < length rs then Api_Ok [Some (rs ! n)] else Api_Error)"

definition patiala_query :: jstr where
  "patiala_query = ''What is the weather in Patiala?''"

definition patiala_plan :: jstr where
  \<open>patiala_plan = ''{"type": "plan", "plan": "I will call getWeatherDetails for Patiala."}''\<close>

definition patiala_action :: jstr where
  \<open>patiala_action = ''{"type": "action", "function": "getWeatherDetails", "input": "patiala"}''\<close>

definition patiala_output :: jstr where
  \<open>patiala_output = ''{"type": "output", "output": "The weather in Patiala is 10'' @ deg_C @ ''."}''\<close>

definition patiala_script :: "jstr list" where
  "patiala_script = [patiala_plan, patiala_action, patiala_output]"


text \<open>An endpoint whose first call fails and which then follows the script.\<close>

definition flaky_api :: api where
  "flaky_api n req = (if n = 0 then Api_Error else scripted_api patiala_script (n - 1) req)"

text \<open>What the operator sees and what the history holds: the tools run, the lines
  printed, the content of the user messages in order, the lines read at the prompt.\<close>

definition tool_calls :: "event list \<Rightarrow> event list" where
  "tool_calls es = filter (\<lambda>e. case e of Ev_Tool f v \<Rightarrow> True | _ \<Rightarrow> False) es"

definition printed :: "event list \<Rightarrow> jstr list" where
  "printed es = concat (map (\<lambda>e. case e of Ev_Log l \<Rightarrow> [l] | _ \<Rightarrow> []) es)"

definition user_turns :: "message list \<Rightarrow> jstr option list" where
  "user_turns ms = map content (filter (\<lambda>m. role m = User) ms)"

definition reads :: "event list \<Rightarrow> jstr list" where
  "reads es = concat (map (\<lambda>e. case e of Ev_Read q \<Rightarrow> [q] | _ \<Rightarrow> []) es)"


section \<open>Lemmas: the scripted scenario of the spec\<close>

lemma patiala_plan_parse:
  "json_parse patiala_plan = Inr (JObj [(''type'', JStr ''plan''), (''plan'', JStr ''I will call getWeatherDetails for Patiala.'')])"
  by (simp add: patiala_plan_def) code_simp

lemma patiala_action_parse:
  "json_parse patiala_action = Inr (JObj [(''type'', JStr ''action''), (''function'', JStr ''getWeatherDetails''), (''input'', JStr ''patiala'')])"
  by (simp add: patiala_action_def) code_simp

lemma patiala_output_parse:
  "json_parse patiala_output = Inr (JObj [(''type'', JStr ''output''), (''output'', JStr (''The weather in Patiala is 10'' @ deg_C @ ''.''))])"
  by (simp add: patiala_output_def deg_C_def) code_simp

lemma patiala_script_nonempty [simp]:
  "patiala_plan \<noteq> []" "patiala_action \<noteq> []" "patiala_output \<noteq> []"
  by (simp_all add: patiala_plan_def patiala_action_def patiala_output_def)

lemma gw_patiala: "getWeatherDetails_v2 (JStr ''patiala'') = Inr (JStr (''10'' @ deg_C))"
  by (simp add: getWeatherDetails_v2_def js_to_lower_def js_lower_char_def upper_unit_def)

lemma patiala_v2_step1:
  "step_v2 (scripted_api patiala_script) (begin_turn patiala_query init_v2) =
   Continue \<lparr>msgs = [msg System system_prompt_v2, msg User (user_envelope patiala_query),
                       msg Assistant patiala_plan], calls = 1, trace = [Ev_Read patiala_query]\<rparr>"
  by (simp add: step_v2_def scripted_api_def patiala_script_def first_content_def
      begin_turn_def init_v2_def push_def emit_def Let_def patiala_plan_parse act_v2_def catch_v2_def)


lemma patiala_v2_step2:
  "step_v2 (scripted_api patiala_script) \<lparr>msgs = [msg System system_prompt_v2, msg User (user_envelope patiala_query),
                       msg Assistant patiala_plan], calls = 1, trace = [Ev_Read patiala_query]\<rparr> =
   Continue \<lparr>msgs = [msg System system_prompt_v2, msg User (user_envelope patiala_query),
                       msg Assistant patiala_plan, msg Assistant patiala_action,
                       msg Assistant (obs_envelope (JStr (''10'' @ deg_C)))], calls = 2,
             trace = [Ev_Read patiala_query, Ev_Tool Tool_Weather (JStr ''patiala'')]\<rparr>"
  by (simp add: step_v2_def scripted_api_def patiala_script_def first_content_def
      push_def emit_def Let_def patiala_action_parse act_v2_def tools_lookup_def gw_patiala catch_v2_def)


lemma patiala_v2_step3:
  "step_v2 (scripted_api patiala_script) \<lparr>msgs = [msg System system_prompt_v2, msg User (user_envelope patiala_query),
                       msg Assistant patiala_plan, msg Assistant patiala_action,
                       msg Assistant (obs_envelope (JStr (''10'' @ deg_C)))], calls = 2,
             trace = [Ev_Read patiala_query, Ev_Tool Tool_Weather (JStr ''patiala'')]\<rparr> =
   Stop Done \<lparr>msgs = [msg System system_prompt_v2, msg User (user_envelope patiala_query),
                       msg Assistant patiala_plan, msg Assistant patiala_action,
                       msg Assistant (obs_envelope (JStr (''10'' @ deg_C))), msg Assistant patiala_output],
                calls = 3,
                trace = [Ev_Read patiala_query, Ev_Tool Tool_Weather (JStr ''patiala''),
                         Ev_Log (''Bot: The weather in Patiala is 10'' @ deg_C @ ''.'')]\<rparr>"
  by (simp add: step_v2_def scripted_api_def patiala_script_def first_content_def
      push_def emit_def Let_def patiala_output_parse act_v2_def catch_v2_def)

lemma patiala_exchange_v2:
  "exchange (step_v2 (scripted_api patiala_script)) (begin_turn patiala_query init_v2) =
   Some (Done, \<lparr>msgs = [msg System system_prompt_v2, msg User (user_envelope patiala_query),
                       msg Assistant patiala_plan, msg Assistant patiala_action,
                       msg Assistant (obs_envelope (JStr (''10'' @ deg_C))), msg Assistant patiala_output],
                calls = 3,
                trace = [Ev_Read patiala_query, Ev_Tool Tool_Weather (JStr ''patiala''),
                         Ev_Log (''Bot: The weather in Patiala is 10'' @ deg_C @ ''.'')]\<rparr>)"
  by (rule exchange_fuel_sound[of 3])
     (simp only: numeral_3_eq_3 exchange_fuel.simps patiala_v2_step1 patiala_v2_step2 patiala_v2_step3
        step_res.case)


lemma gw1_patiala: "getWeatherDetails_v1 (JStr ''patiala'') = Inr (JStr (''10'' @ deg_C))"
  by (simp add: getWeatherDetails_v1_def js_to_lower_def js_lower_char_def upper_unit_def)

lemma patiala_v1_step1:
  "step_v1 (scripted_api patiala_script) (begin_turn patiala_query init_v1) =
   Continue \<lparr>msgs = [msg System system_prompt_v1, msg User (user_envelope patiala_query),
                       msg Assistant patiala_plan], calls = 1, trace = [Ev_Read patiala_query]\<rparr>"
  by (simp add: step_v1_def scripted_api_def patiala_script_def begin_turn_def init_v1_def push_def
      emit_def Let_def patiala_plan_parse act_v1_def uncaught_v1_def msg_def)

lemma patiala_v1_step2:
  "step_v1 (scripted_api patiala_script) \<lparr>msgs = [msg System system_prompt_v1, msg User (user_envelope patiala_query),
                       msg Assistant patiala_plan], calls = 1, trace = [Ev_Read patiala_query]\<rparr> =
   Continue \<lparr>msgs = [msg System system_prompt_v1, msg User (user_envelope patiala_query),
                       msg Assistant patiala_plan, msg Assistant patiala_action,
                       msg Developer (obs_envelope (JStr (''10'' @ deg_C)))], calls = 2,
             trace = [Ev_Read patiala_query, Ev_Tool Tool_Weather (JStr ''patiala'')]\<rparr>"
  by (simp add: step_v1_def scripted_api_def patiala_script_def push_def emit_def Let_def
      patiala_action_parse act_v1_def tools_lookup_def gw1_patiala uncaught_v1_def msg_def)

lemma patiala_v1_step3:
  "step_v1 (scripted_api patiala_script) \<lparr>msgs = [msg System system_prompt_v1, msg User (user_envelope patiala_query),
                       msg Assistant patiala_plan, msg Assistant patiala_action,
                       msg Developer (obs_envelope (JStr (''10'' @ deg_C)))], calls = 2,
             trace = [Ev_Read patiala_query, Ev_Tool Tool_Weather (JStr ''patiala'')]\<rparr> =
   Stop Done \<lparr>msgs = [msg System system_prompt_v1, msg User (user_envelope patiala_query),
                       msg Assistant patiala_plan, msg Assistant patiala_action,
                       msg Developer (obs_envelope (JStr (''10'' @ deg_C))), msg Assistant patiala_output],
                calls = 3,
                trace = [Ev_Read patiala_query, Ev_Tool Tool_Weather (JStr ''patiala''),
                         Ev_Log (''bot: The weather in Patiala is 10'' @ deg_C @ ''.'')]\<rparr>"
  by (simp add: step_v1_def scripted_api_def patiala_script_def push_def emit_def Let_def
      patiala_output_parse act_v1_def uncaught_v1_def msg_def)

lemma patiala_exchange_v1:
  "exchange (step_v1 (scripted_api patiala_script)) (begin_turn patiala_query init_v1) =
   Some (Done, \<lparr>msgs = [msg System system_prompt_v1, msg User (user_envelope patiala_query),
                       msg Assistant patiala_plan, msg Assistant patiala_action,
                       msg Developer (obs_envelope (JStr (''10'' @ deg_C))), msg Assistant patiala_output],
                calls = 3,
                trace = [Ev_Read patiala_query, Ev_Tool Tool_Weather (JStr ''patiala''),
                         Ev_Log (''bot: The weather in Patiala is 10'' @ deg_C @ ''.'')]\<rparr>)"
  by (rule exchange_fuel_sound[of 3])
     (simp only: numeral_3_eq_3 exchange_fuel.simps patiala_v1_step1 patiala_v1_step2 patiala_v1_step3
        step_res.case)



text \<open>The earlier version of index2.js (theory \<open>Legacy\<close>) on the flaky endpoint.\<close>

lemma gw0_patiala: "getWeatherDetails_v0 (JStr ''patiala'') = Inr (PV_Js (JStr (''10'' @ deg_C)))"
  by (simp add: getWeatherDetails_v0_def literal_get_def weatherData_def js_to_lower_def js_lower_char_def
      upper_unit_def js_simps)

lemma legacy_flaky_step1:
  "step_v0 flaky_api (begin_turn patiala_query \<lparr>msgs = [msg System system_prompt_v0, msg User (user_envelope ''hi'')], calls = 1, trace = [Ev_Read ''hi'', Ev_Err E_Api_Call, Ev_Err E_Processing]\<rparr>) = Continue \<lparr>msgs = [msg System system_prompt_v0, msg User (user_envelope ''hi''), msg User (user_envelope patiala_query), msg Assistant patiala_plan], calls = 2, trace = [Ev_Read ''hi'', Ev_Err E_Api_Call, Ev_Err E_Processing, Ev_Read patiala_query]\<rparr>"
  by (simp add: step_v0_def flaky_api_def scripted_api_def patiala_script_def first_content_def push_def emit_def Let_def act_v0_def catch_v0_def begin_turn_def patiala_plan_parse)

lemma legacy_flaky_step2:
  "step_v0 flaky_api \<lparr>msgs = [msg System system_prompt_v0, msg User (user_envelope ''hi''), msg User (user_envelope patiala_query), msg Assistant patiala_plan], calls = 2, trace = [Ev_Read ''hi'', Ev_Err E_Api_Call, Ev_Err E_Processing, Ev_Read patiala_query]\<rparr> = Continue \<lparr>msgs = [msg System system_prompt_v0, msg User (user_envelope ''hi''), msg User (user_envelope patiala_query), msg Assistant patiala_plan, msg Assistant patiala_action, msg Developer (obs_envelope (JStr (''10'' @ deg_C)))], calls = 3, trace = [Ev_Read ''hi'', Ev_Err E_Api_Call, Ev_Err E_Processing, Ev_Read patiala_query, Ev_Tool Tool_Weather (JStr ''patiala'')]\<rparr>"
  by (simp add: step_v0_def flaky_api_def scripted_api_def patiala_script_def first_content_def push_def emit_def Let_def act_v0_def catch_v0_def patiala_action_parse tools_lookup_def gw0_patiala)

lemma legacy_flaky_step3:
  "step_v0 flaky_api \<lparr>msgs = [msg System system_prompt_v0, msg User (user_envelope ''hi''), msg User (user_envelope patiala_query), msg Assistant patiala_plan, msg Assistant patiala_action, msg Developer (obs_envelope (JStr (''10'' @ deg_C)))], calls = 3, trace = [Ev_Read ''hi'', Ev_Err E_Api_Call, Ev_Err E_Processing, Ev_Read patiala_query, Ev_Tool Tool_Weather (JStr ''patiala'')]\<rparr> = Stop Done \<lparr>msgs = [msg System system_prompt_v0, msg User (user_envelope ''hi''), msg User (user_envelope patiala_query), msg Assistant patiala_plan, msg Assistant patiala_action, msg Developer (obs_envelope (JStr (''10'' @ deg_C))), msg Assistant patiala_output], calls = 4, trace = [Ev_Read ''hi'', Ev_Err E_Api_Call, Ev_Err E_Processing, Ev_Read patiala_query, Ev_Tool Tool_Weather (JStr ''patiala''), Ev_Log (''Bot: The weather in Patiala is 10'' @ deg_C @ ''.'')]\<rparr>"
  by (simp add: step_v0_def flaky_api_def scripted_api_def patiala_script_def first_content_def push_def emit_def Let_def act_v0_def catch_v0_def patiala_output_parse)

lemma legacy_flaky_session:
  "session_v0 flaky_api [''hi'', patiala_query] init_v0 = Some (Waiting, \<lparr>msgs = [msg System system_prompt_v0, msg User (user_envelope ''hi''), msg User (user_envelope patiala_query), msg Assistant patiala_plan, msg Assistant patiala_action, msg Developer (obs_envelope (JStr (''10'' @ deg_C))), msg Assistant patiala_output], calls = 4, trace = [Ev_Read ''hi'', Ev_Err E_Api_Call, Ev_Err E_Processing, Ev_Read patiala_query, Ev_Tool Tool_Weather (JStr ''patiala''), Ev_Log (''Bot: The weather in Patiala is 10'' @ deg_C @ ''.'')]\<rparr>)"
proof -
  have e1: "exchange (step_v0 flaky_api) (begin_turn ''hi'' init_v0) = Some (Turn_Abandoned, \<lparr>msgs = [msg System system_prompt_v0, msg User (user_envelope ''hi'')], calls = 1, trace = [Ev_Read ''hi'', Ev_Err E_Api_Call, Ev_Err E_Processing]\<rparr>)"
    by (rule exchange_fuel_sound[of 1]) (simp add: step_v0_def flaky_api_def begin_turn_def push_def emit_def init_v0_def)
  have e2: "exchange (step_v0 flaky_api) (begin_turn patiala_query \<lparr>msgs = [msg System system_prompt_v0, msg User (user_envelope ''hi'')], calls = 1, trace = [Ev_Read ''hi'', Ev_Err E_Api_Call, Ev_Err E_Processing]\<rparr>) = Some (Done, \<lparr>msgs = [msg System system_prompt_v0, msg User (user_envelope ''hi''), msg User (user_envelope patiala_query), msg Assistant patiala_plan, msg Assistant patiala_action, msg Developer (obs_envelope (JStr (''10'' @ deg_C))), msg Assistant patiala_output], calls = 4, trace = [Ev_Read ''hi'', Ev_Err E_Api_Call, Ev_Err E_Processing, Ev_Read patiala_query, Ev_Tool Tool_Weather (JStr ''patiala''), Ev_Log (''Bot: The weather in Patiala is 10'' @ deg_C @ ''.'')]\<rparr>)"
    by (rule exchange_fuel_sound[of "Suc (Suc (Suc 0))"])
       (simp only: exchange_fuel.simps legacy_flaky_step1 legacy_flaky_step2 legacy_flaky_step3
          step_res.case)
  show ?thesis by (simp only: session_v0.simps e1 e2 option.case prod.case) simp
qed

section \<open>The scenario of the spec\<close>

lemma patiala_reply_envs:
  "reply_env patiala_plan = Some (Env_Plan ''I will call getWeatherDetails for Patiala.'')"
  "reply_env patiala_action = Some (Env_Action ''getWeatherDetails'' ''patiala'')"
  "reply_env patiala_output = Some (Env_Output (''The weather in Patiala is 10'' @ deg_C @ ''.''))"
  by (simp_all add: reply_env_def patiala_plan_parse patiala_action_parse patiala_output_parse str_field_def)

lemma patiala_answers:
  "weather_answer_v2 ''patiala'' = ''10'' @ deg_C" "weather_answer_v1 ''patiala'' = JStr (''10'' @ deg_C)"
  by (simp_all add: weather_answer_v2_def weather_answer_v1_def ci_lookup_def weather_table_v2_def
      weather_table_v1_def ci_char_def)

lemma scripted_patiala [simp]:
  "scripted_api patiala_script 0 req = Api_Ok [Some patiala_plan]"
  "scripted_api patiala_script (Suc 0) req = Api_Ok [Some patiala_action]"
  "scripted_api patiala_script (Suc (Suc 0)) req = Api_Ok [Some patiala_output]"
  by (simp_all add: scripted_api_def patiala_script_def)

lemma begin_turn_patiala_calls [simp]:
  "calls (begin_turn q init_v2) = 0" "calls (begin_turn q init_v1) = 0"
  by (simp_all add: begin_turn_def push_def emit_def init_v2_def init_v1_def)

text \<open>C2: the scenario of spec section 8 on index2.js, for every state, every endpoint
  and every script: when the model answers a plan, then an action naming
  getWeatherDetails for a city c, then an output, each as a text that JSON.parse and the
  envelope decoder read as such, the exchange ends after exactly three calls. The
  history gains the three replies and, between the action and the output, the one
  observation the tool gives for c; the tool runs exactly once, on c; and the only line
  printed is the output's text after \<open>Bot: \<close>.\<close>

theorem scripted_turn_v2:
  assumes "api (calls s) (request_v2 (msgs s)) = Api_Ok (Some tp # cs1)"
    and "api (Suc (calls s)) (request_v2 (msgs s @ [msg Assistant tp])) = Api_Ok (Some ta # cs2)"
    and "api (Suc (Suc (calls s)))
           (request_v2 (msgs s @ [msg Assistant tp, msg Assistant ta,
                                  msg Assistant (obs_envelope (JStr (weather_answer_v2 c)))]))
         = Api_Ok (Some to # cs3)"
    and "reply_env tp = Some (Env_Plan p)"
    and "reply_env ta = Some (Env_Action ''getWeatherDetails'' c)"
    and "reply_env to = Some (Env_Output out)"
  shows "exchange (step_v2 api) s =
     Some (Done, s\<lparr>msgs := msgs s @ [msg Assistant tp, msg Assistant ta,
                                      msg Assistant (obs_envelope (JStr (weather_answer_v2 c))),
                                      msg Assistant to],
                  calls := Suc (Suc (Suc (calls s))),
                  trace := trace s @ [Ev_Tool Tool_Weather (JStr c), Ev_Log (''Bot: '' @ out)]\<rparr>)"
proof -
  let ?s1 = "push (msg Assistant tp) (s\<lparr>calls := Suc (calls s)\<rparr>)"
  let ?s2 = "push (msg Assistant (obs_envelope (JStr (weather_answer_v2 c))))
               (emit (Ev_Tool Tool_Weather (JStr c)) (push (msg Assistant ta) (?s1\<lparr>calls := Suc (calls ?s1)\<rparr>)))"
  have 1: "step_v2 api s = Continue ?s1"
    using step_v2_reply[of api s tp cs1, OF assms(1) assms(4)] by (simp add: spec_dispatch_v2_def)
  have 2: "step_v2 api ?s1 = Continue ?s2"
    using step_v2_reply[of api ?s1 ta cs2, OF _ assms(5)] assms(2)
    by (simp add: spec_dispatch_v2_def push_def)
  have 3: "step_v2 api ?s2 = Stop Done (emit (Ev_Log (''Bot: '' @ out)) (push (msg Assistant to) (?s2\<lparr>calls := Suc (calls ?s2)\<rparr>)))"
    using step_v2_reply[of api ?s2 to cs3, OF _ assms(6)] assms(3)
    by (simp add: spec_dispatch_v2_def push_def emit_def)
  show ?thesis
    by (rule exchange_fuel_sound[of "Suc (Suc (Suc 0))"])
       (simp only: exchange_fuel.simps 1 2 3 step_res.case, simp add: push_def emit_def)
qed

text \<open>C21: the same scenario on index.js: the observation is appended with the role
  \<open>developer\<close> and carries index.js's answer (undefined for a city it does not
  know), and the line printed starts with \<open>bot: \<close>.\<close>

theorem scripted_turn_v1:
  assumes "api (calls s) (request_v1 (msgs s)) = Api_Ok (Some tp # cs1)"
    and "api (Suc (calls s)) (request_v1 (msgs s @ [msg Assistant tp])) = Api_Ok (Some ta # cs2)"
    and "api (Suc (Suc (calls s)))
           (request_v1 (msgs s @ [msg Assistant tp, msg Assistant ta,
                                  msg Developer (obs_envelope (weather_answer_v1 c))]))
         = Api_Ok (Some to # cs3)"
    and "reply_env tp = Some (Env_Plan p)"
    and "reply_env ta = Some (Env_Action ''getWeatherDetails'' c)"
    and "reply_env to = Some (Env_Output out)"
  shows "exchange (step_v1 api) s =
     Some (Done, s\<lparr>msgs := msgs s @ [msg Assistant tp, msg Assistant ta,
                                      msg Developer (obs_envelope (weather_answer_v1 c)),
                                      msg Assistant to],
                  calls := Suc (Suc (Suc (calls s))),
                  trace := trace s @ [Ev_Tool Tool_Weather (JStr c), Ev_Log (''bot: '' @ out)]\<rparr>)"
proof -
  let ?s1 = "push (msg Assistant tp) (s\<lparr>calls := Suc (calls s)\<rparr>)"
  let ?s2 = "push (msg Developer (obs_envelope (weather_answer_v1 c)))
               (emit (Ev_Tool Tool_Weather (JStr c)) (push (msg Assistant ta) (?s1\<lparr>calls := Suc (calls ?s1)\<rparr>)))"
  have 1: "step_v1 api s = Continue ?s1"
    using step_v1_reply[of api s tp cs1, OF assms(1) assms(4)] by (simp add: spec_dispatch_v1_def)
  have 2: "step_v1 api ?s1 = Continue ?s2"
    using step_v1_reply[of api ?s1 ta cs2, OF _ assms(5)] assms(2)
    by (simp add: spec_dispatch_v1_def push_def)
  have 3: "step_v1 api ?s2 = Stop Done (emit (Ev_Log (''bot: '' @ out)) (push (msg Assistant to) (?s2\<lparr>calls := Suc (calls ?s2)\<rparr>)))"
    using step_v1_reply[of api ?s2 to cs3, OF _ assms(6)] assms(3)
    by (simp add: spec_dispatch_v1_def push_def emit_def)
  show ?thesis
    by (rule exchange_fuel_sound[of "Suc (Suc (Suc 0))"])
       (simp only: exchange_fuel.simps 1 2 3 step_res.case, simp add: push_def emit_def)
qed

section \<open>Findings\<close>

lemma join_lines_sublist: "l \<in> set ls \<Longrightarrow> sublist l (join_lines ls)"
proof (induction ls rule: join_lines.induct)
  case (3 a m ls)
  show ?case
  proof -
    have "sublist (join_lines (m # ls)) (join_lines (a # m # ls))"
      using sublist_append_leftI[of "join_lines (m # ls)" "a @ [nl]"] by simp
    with 3 show ?thesis by (auto intro: sublist_order.order.trans)
  qed
qed auto

text \<open>The worked example in index.js's system prompt shows the observation 14 degrees
  for Mohali, which index.js's tool never gives (it answers 10); the example of
  index2.js's prompt agrees with its tool.\<close>

lemma prompt_examples:
  \<open>sublist (''{ "type": "observation", "observation": "14'' @ deg_C @ ''" }'') system_prompt_v1 \<and>
   getWeatherDetails_v1 (JStr ''mohali'') = Inr (JStr (''10'' @ deg_C)) \<and>
   sublist (''{ "type": "observation", "observation": "12'' @ deg_C @ ''" }'') system_prompt_v2 \<and>
   getWeatherDetails_v2 (JStr ''mohali'') = Inr (JStr (''12'' @ deg_C))\<close>
proof -
  have \<open>sublist (''{ "type": "observation", "observation": "14'' @ deg_C @ ''" }'') system_prompt_v1\<close>
    unfolding system_prompt_v1_def by (rule join_lines_sublist) simp
  moreover have \<open>sublist (''{ "type": "observation", "observation": "12'' @ deg_C @ ''" }'') system_prompt_v2\<close>
    unfolding system_prompt_v2_def by (rule join_lines_sublist) simp
  ultimately show ?thesis
    by (simp add: getWeatherDetails_v1_def getWeatherDetails_v2_def js_to_lower_def js_lower_char_def
        upper_unit_def js_simps)
qed

text \<open>C29: whenever the first choice of index.js's reply has a null content, in any state, index.js appends a
  message whose content is null (the spec's messages carry a string), parses the text
  null, and the field access on it throws an uncaught TypeError.\<close>

theorem step_v1_null_content:
  assumes "api (calls s) (request_v1 (msgs s)) = Api_Ok (None # chs)"
  shows "step_v1 api s =
     Stop (Crash (C_Exn TypeError)) (push \<lparr>role = Assistant, content = None\<rparr> (s\<lparr>calls := Suc (calls s)\<rparr>))"
  using assms by (simp add: step_v1_def null_parse act_v1_def uncaught_v1_def)

text \<open>C13: an action naming any function member inherited from Object.prototype passes
  index2.js's typeof guard: that member runs on the model's input and no "not found"
  report is made. If it answers (toString, isPrototypeOf, the constructor) the answer
  is appended as an observation; if it throws, the catch reports a processing error
  and main returns.\<close>

theorem inherited_member_v2:
  assumes "decode_envelope v = Some (Env_Action f i)" and "map_of proto_members f = Some p"
  shows "catch_v2 (act_v2 v s) =
     (let s' = emit (Ev_Tool (Tool_Proto p) (JStr i)) s in
      case call_proto p (JStr i) of
        Inl e \<Rightarrow> Stop Main_Return (emit (Ev_Err E_Processing) s')
      | Inr obs \<Rightarrow> Continue (push (msg Assistant (obs_envelope obs)) s'))"
proof -
  from decode_envelope_SomeD[OF assms(1)] obtain kvs where
    v: "v = JObj kvs" and fs: "env_fields (Env_Action f i) kvs" by blast
  from assms(2) have "f \<noteq> ''getWeatherDetails''" by (auto simp: proto_members_def)
  with assms(2) have "tools_get tools_v2 f = Tool_Proto p" by (simp add: tools_get_def tools_v2_def)
  with v fs show ?thesis
    by (auto simp: act_v2_def catch_v2_def tools_lookup_def Let_def split: sum.splits)
qed

text \<open>Index.js compares the type with loose equality, so a reply whose type is the
  array ["output"] is printed as an output; index2.js's strict comparison treats it as a
  reply to ignore and asks again.\<close>

lemma loose_type_v1:
  "act_v1 (JObj [(''type'', JArr [JStr ''output'']), (''output'', JStr ''hi'')]) s =
     Inr (Stop Done (emit (Ev_Log ''bot: hi'') s)) \<and>
   act_v2 (JObj [(''type'', JArr [JStr ''output'']), (''output'', JStr ''hi'')]) s = Inr (Continue s)"
  by (simp add: act_v1_def act_v2_def)

text \<open>The observation index2.js appends for any tool answer decodes, through JSON.parse
  and the envelope decoder of the spec, to the observation envelope that carries exactly
  that answer; index.js's observation of an unknown city (undefined) decodes to no
  envelope at all.\<close>

lemma observation_decodes:
  "(case json_parse (obs_envelope (JStr w)) of Inr v \<Rightarrow> decode_envelope v | Inl e \<Rightarrow> None) =
     Some (Env_Observation w) \<and>
   (case json_parse (obs_envelope JUndef) of Inr v \<Rightarrow> decode_envelope v | Inl e \<Rightarrow> None) = None"
proof -
  have "json_wf (JObj [(''type'', JStr ''observation'')])" by (simp add: js_object_def)
  moreover have "obs_envelope JUndef = json_stringify_obj [(''type'', JStr ''observation'')]"
    by (simp add: obs_envelope_def json_stringify_obj_def)
  ultimately show ?thesis
    by (simp add: obs_envelope_def json_stringify_obj_parse js_object_plain_keys str_field_def)
qed

section \<open>Sessions\<close>

lemma step_appends_user_turns: "step_appends s t \<Longrightarrow> user_turns (msgs t) = user_turns (msgs s)"
  by (auto simp: appends_def user_turns_def list.pred_set filter_empty_conv)

lemma step_appends_reads: "step_appends s t \<Longrightarrow> reads (trace t) = reads (trace s)"
proof -
  have "reads es = []" if "list_all (\<lambda>e. \<not> is_read e) es" for es
    using that by (induction es) (auto simp: reads_def split: event.splits)
  then show "step_appends s t \<Longrightarrow> reads (trace t) = reads (trace s)"
    by (auto simp: appends_def reads_def)
qed

lemma begin_turn_user_turns [simp]:
  "user_turns (msgs (begin_turn q s)) = user_turns (msgs s) @ [Some (user_envelope q)]"
  by (simp add: begin_turn_def push_def emit_def user_turns_def)

lemma begin_turn_reads [simp]: "reads (trace (begin_turn q s)) = reads (trace s) @ [q]"
  by (simp add: begin_turn_def push_def emit_def reads_def)

text \<open>C22: index.js never cuts its history: after a session in which every exchange
  printed an output, the user messages of the history are those it began with followed by
  one envelope per line read, in the order read; since a user envelope decodes back to its line (theory
  \<open>Agent_Protocol\<close>), the N-th of them decodes to the N-th line.\<close>

theorem session_v1_user_turns:
  "session_v1 api qs s = Some (Waiting, s') \<Longrightarrow>
   user_turns (msgs s') = user_turns (msgs s) @ map (\<lambda>q. Some (user_envelope q)) qs"
proof (induction qs arbitrary: s)
  case Nil
  then show ?case by simp
next
  case (Cons q qs)
  then obtain s1 where ex: "exchange (step_v1 api) (begin_turn q s) = Some (Done, s1)"
    and rest: "session_v1 api qs s1 = Some (Waiting, s')"
    by (auto split: option.splits if_splits)
  from step_appends_user_turns[OF exchange_v1_appends[OF ex]] Cons.IH[OF rest] show ?case by simp
qed

text \<open>C23: index.js's history grows without bound: a session that returns to the prompt
  leaves at least two more messages per line read (the user envelope and the reply that
  printed the output), since nothing ever cuts it.\<close>

theorem session_v1_history_grows:
  "session_v1 api qs s = Some (Waiting, s') \<Longrightarrow> length (msgs s) + 2 * length qs \<le> length (msgs s')"
proof (induction qs arbitrary: s)
  case (Cons q qs)
  then obtain s1 where ex: "exchange (step_v1 api) (begin_turn q s) = Some (Done, s1)"
    and rest: "session_v1 api qs s1 = Some (Waiting, s')"
    by (auto split: option.splits if_splits)
  from exchange_v1_Done_grows[OF ex] Cons.IH[OF rest] show ?case by simp
qed simp

text \<open>Index2.js reads the operator's lines in order: after a session that reached
  the prompt again, the lines read are the ones typed, in order.\<close>

lemma session_v2_reads:
  "session_v2 api qs s = Some (Waiting, s') \<Longrightarrow> reads (trace s') = reads (trace s) @ qs"
proof (induction qs arbitrary: s)
  case Nil
  then show ?case by simp
next
  case (Cons q qs)
  then obtain s1 where ex: "exchange (step_v2 api) (begin_turn q s) = Some (Done, s1)"
    and rest: "session_v2 api qs (reset_history s1) = Some (Waiting, s')"
    by (auto split: option.splits if_splits)
  have "trace (reset_history s1) = trace s1" by (simp add: reset_history_def)
  with step_appends_reads[OF exchange_v2_appends[OF ex]] Cons.IH[OF rest] show ?case by simp
qed

text \<open>C20: if final replies keep coming (for every number of calls made, some later call
  gets a final reply whatever the request), index2.js's \<open>main\<close>, with its handler,
  returns or waits at the prompt after every list of lines: no exchange runs for ever.\<close>

theorem main_v2_terminates:
  assumes "\<forall>n. \<exists>k. \<forall>req. final_reply_v2 (api (n + k) req)"
  shows "\<exists>r. main_v2 api qs = Some r"
proof -
  have "\<exists>r. session_v2 api qs s = Some r" for s
  proof (induction qs arbitrary: s)
    case (Cons q qs)
    have "\<exists>r. exchange (step_v2 api) (begin_turn q s) = Some r"
      using assms
      by (rule exchange_returns_often_final[where F = final_reply_v2 and step = "step_v2 api", rotated 2])
        (use step_v2_final_stops step_v2_Continue_calls in blast)+
    then show ?case using Cons.IH by auto
  qed simp
  then show ?thesis
    by (auto simp: main_v2_def split: option.splits session_end.splits outcome.splits)
qed

text \<open>C4: index2.js cuts its history back to the system prompt after every exchange
  that printed an output: a session that starts with the history holding one message
  returns to the prompt with only that message.\<close>

theorem session_v2_history_reset:
  "msgs s = [m] \<Longrightarrow> session_v2 api qs s = Some (Waiting, s') \<Longrightarrow> msgs s' = [m]"
proof (induction qs arbitrary: s)
  case Nil
  then show ?case by simp
next
  case (Cons q qs)
  then obtain s1 where ex: "exchange (step_v2 api) (begin_turn q s) = Some (Done, s1)"
    and rest: "session_v2 api qs (reset_history s1) = Some (Waiting, s')"
    by (auto split: option.splits if_splits)
  from exchange_v2_appends[OF ex] Cons.prems(1) obtain ms where "msgs s1 = [m, msg User (user_envelope q)] @ ms"
    by (auto simp: appends_def begin_turn_def push_def emit_def)
  then have "msgs (reset_history s1) = [m]" by (simp add: reset_history_def)
  from Cons.IH[OF this rest] show ?case .
qed


text \<open>The earlier version of index2.js leaves the loop silently broken, as the spec
  says of one variant: when the first completion call fails it reports the failure and
  goes back to the prompt, and the next line is served normally; index2.js itself ends
  \<open>main\<close> on the same failure.\<close>

lemma legacy_recovers:
  "\<exists>s. session_v0 flaky_api [''hi'', patiala_query] init_v0 = Some (Waiting, s) \<and>
     reads (trace s) = [''hi'', patiala_query] \<and>
     tool_calls (trace s) = [Ev_Tool Tool_Weather (JStr ''patiala'')] \<and>
     printed (trace s) = [''Bot: The weather in Patiala is 10'' @ deg_C @ ''.''] \<and>
     (\<exists>s2. session_v2 flaky_api [''hi'', patiala_query] init_v2 = Some (Ended Main_Return, s2))"
proof -
  have "exchange (step_v2 flaky_api) (begin_turn ''hi'' init_v2) =
     Some (Main_Return, emit (Ev_Err E_Processing) (emit (Ev_Err E_Api_Call) ((begin_turn ''hi'' init_v2)\<lparr>calls := 1\<rparr>)))"
    by (rule exchange_fuel_sound[of 1]) (simp add: step_v2_def flaky_api_def begin_turn_def push_def emit_def init_v2_def)
  then show ?thesis
    using legacy_flaky_session by (simp add: reads_def tool_calls_def printed_def)
qed

text \<open>C27: the earlier version of index2.js never cuts its history either: after a
  session that came back to the prompt, whatever errors its exchanges met, the user
  messages are those it began with followed by one envelope per line read, in order.\<close>

theorem session_v0_user_turns:
  "session_v0 api qs s = Some (Waiting, s') \<Longrightarrow>
   user_turns (msgs s') = user_turns (msgs s) @ map (\<lambda>q. Some (user_envelope q)) qs"
proof (induction qs arbitrary: s)
  case Nil
  then show ?case by simp
next
  case (Cons q qs)
  then obtain r s1 where ex: "exchange (step_v0 api) (begin_turn q s) = Some (r, s1)"
    and rest: "session_v0 api qs s1 = Some (Waiting, s')"
    by (auto split: option.splits if_splits)
  from step_appends_user_turns[OF exchange_v0_appends[OF ex]] Cons.IH[OF rest] show ?case by simp
qed

theorem session_v1_user_turns_witness:
  "\<exists>s'. session_v1 (scripted_api patiala_script) [patiala_query] init_v1 = Some (Waiting, s') \<and>
     user_turns (msgs s') = user_turns (msgs init_v1) @ [Some (user_envelope patiala_query)]"
proof -
  obtain s' where h: "session_v1 (scripted_api patiala_script) [patiala_query] init_v1 = Some (Waiting, s')"
    using patiala_exchange_v1 by simp
  show ?thesis using h session_v1_user_turns[OF h] by simp
qed

theorem session_v1_history_grows_witness:
  "\<exists>s'. session_v1 (scripted_api patiala_script) [patiala_query] init_v1 = Some (Waiting, s') \<and>
     length (msgs init_v1) + 2 * length [patiala_query] \<le> length (msgs s')"
proof -
  obtain s' where h: "session_v1 (scripted_api patiala_script) [patiala_query] init_v1 = Some (Waiting, s')"
    using patiala_exchange_v1 by simp
  show ?thesis using h session_v1_history_grows[OF h] by blast
qed

theorem main_v2_terminates_witness:
  "(\<forall>n. \<exists>k. \<forall>req. final_reply_v2 (scripted_api patiala_script (n + k) req)) \<and>
   (\<exists>r. main_v2 (scripted_api patiala_script) [patiala_query, ''bye''] = Some r)"
proof -
  have h: "\<forall>n. \<exists>k. \<forall>req. final_reply_v2 (scripted_api patiala_script (n + k) req)"
  proof
    fix n
    have "\<forall>req. final_reply_v2 (scripted_api patiala_script (n + 3) req)"
      by (simp add: scripted_api_def patiala_script_def final_reply_v2_def)
    then show "\<exists>k. \<forall>req. final_reply_v2 (scripted_api patiala_script (n + k) req)" ..
  qed
  show ?thesis using h main_v2_terminates[OF h] by blast
qed

theorem session_v2_history_reset_witness:
  "msgs init_v2 = [msg System system_prompt_v2] \<and>
   (\<exists>s'. session_v2 (scripted_api patiala_script) [patiala_query] init_v2 = Some (Waiting, s') \<and>
     msgs s' = [msg System system_prompt_v2])"
proof -
  have m: "msgs init_v2 = [msg System system_prompt_v2]" by (simp add: init_v2_def)
  obtain s' where h: "session_v2 (scripted_api patiala_script) [patiala_query] init_v2 = Some (Waiting, s')"
    using patiala_exchange_v2 by simp
  show ?thesis using m h session_v2_history_reset[OF m h] by simp
qed


theorem session_v0_user_turns_witness:
  "\<exists>s'. session_v0 flaky_api [''hi'', patiala_query] init_v0 = Some (Waiting, s') \<and>
     user_turns (msgs s') = user_turns (msgs init_v0) @ [Some (user_envelope ''hi''), Some (user_envelope patiala_query)]"
proof -
  obtain s' where h: "session_v0 flaky_api [''hi'', patiala_query] init_v0 = Some (Waiting, s')"
    using legacy_flaky_session by simp
  show ?thesis using h session_v0_user_turns[OF h] by simp
qed


theorem exchange_v2_length_bound_witness:
  "\<exists>s'. exchange (step_v2 (scripted_api patiala_script)) (begin_turn patiala_query init_v2) = Some (Done, s') \<and>
     calls (begin_turn patiala_query init_v2) < calls s' \<and>
     length (msgs s') \<le> length (msgs (begin_turn patiala_query init_v2)) + 2 * (calls s' - calls (begin_turn patiala_query init_v2))"
  using patiala_exchange_v2 exchange_v2_length_bound[OF patiala_exchange_v2] by blast

theorem scripted_turn_v2_witness:
  "exchange (step_v2 (scripted_api patiala_script)) (begin_turn patiala_query init_v2) =
     Some (Done, (begin_turn patiala_query init_v2)\<lparr>
       msgs := msgs (begin_turn patiala_query init_v2) @
         [msg Assistant patiala_plan, msg Assistant patiala_action,
          msg Assistant (obs_envelope (JStr (weather_answer_v2 ''patiala''))), msg Assistant patiala_output],
       calls := Suc (Suc (Suc (calls (begin_turn patiala_query init_v2)))),
       trace := trace (begin_turn patiala_query init_v2) @
         [Ev_Tool Tool_Weather (JStr ''patiala''),
          Ev_Log (''Bot: '' @ ''The weather in Patiala is 10'' @ deg_C @ ''.'')]\<rparr>)"
  by (rule scripted_turn_v2) (simp_all add: patiala_reply_envs)

theorem scripted_turn_v1_witness:
  "exchange (step_v1 (scripted_api patiala_script)) (begin_turn patiala_query init_v1) =
     Some (Done, (begin_turn patiala_query init_v1)\<lparr>
       msgs := msgs (begin_turn patiala_query init_v1) @
         [msg Assistant patiala_plan, msg Assistant patiala_action,
          msg Developer (obs_envelope (weather_answer_v1 ''patiala'')), msg Assistant patiala_output],
       calls := Suc (Suc (Suc (calls (begin_turn patiala_query init_v1)))),
       trace := trace (begin_turn patiala_query init_v1) @
         [Ev_Tool Tool_Weather (JStr ''patiala''),
          Ev_Log (''bot: '' @ ''The weather in Patiala is 10'' @ deg_C @ ''.'')]\<rparr>)"
  by (rule scripted_turn_v1) (simp_all add: patiala_reply_envs)


theorem step_v1_null_content_witness:
  "step_v1 (\<lambda>n req. Api_Ok [None]) init_v1 =
     Stop (Crash (C_Exn TypeError)) (push \<lparr>role = Assistant, content = None\<rparr> (init_v1\<lparr>calls := Suc (calls init_v1)\<rparr>))"
  by (rule step_v1_null_content) simp

theorem inherited_member_v2_witness:
  "catch_v2 (act_v2 (JObj [(''type'', JStr ''action''), (''function'', JStr ''toString''), (''input'', JStr ''Patiala'')]) init_v2) =
     Continue (push (msg Assistant (obs_envelope (JStr ''[object Undefined]'')))
                (emit (Ev_Tool (Tool_Proto PF_toString) (JStr ''Patiala'')) init_v2))"
proof -
  have d: "decode_envelope (JObj [(''type'', JStr ''action''), (''function'', JStr ''toString''), (''input'', JStr ''Patiala'')])
             = Some (Env_Action ''toString'' ''Patiala'')"
    by (simp add: str_field_def)
  have p: "map_of proto_members ''toString'' = Some PF_toString" by (simp add: proto_members_def)
  show ?thesis using inherited_member_v2[OF d p] by simp
qed

text \<open>A session of index2.js that reads the Patiala query and waits at the prompt
  again.\<close>

theorem session_v2_wf_witness:
  "\<exists>s'. session_v2 (scripted_api patiala_script) [patiala_query] init_v2 = Some (Waiting, s') \<and>
     wf_v2 (end_phase Waiting, s')"
proof -
  obtain s' where h: "session_v2 (scripted_api patiala_script) [patiala_query] init_v2 = Some (Waiting, s')"
    using patiala_exchange_v2 by simp
  show ?thesis using h session_v2_wf[OF h] by blast
qed

end
